(* ===== verification/Prelude.thy ===== *)
theory Prelude
  imports Main "HOL-Library.Word" "HOL-Library.Sublist" "HOL-Library.AList"
begin

text \<open>
  Shared vocabulary of the development: Go's error values and the results of a Go call, the
  error-propagating state passing all operations are written in, and the two proof calculi
  used throughout: \<open>preserves\<close> (an operation keeps a state predicate whatever its result) and
  \<open>ensures\<close> (what holds after each kind of result).
\<close>

subsection \<open>Error values\<close>

text \<open>The kernel's error numbers the program can see.\<close>

datatype errno =
    ENOENT | EEXIST | ENOTDIR | EISDIR | ENOTEMPTY | EPERM | EACCES | ESRCH | EINVAL
  | EIO | ENOSPC | ENOMEM | EMFILE | EBADF | ENAMETOOLONG | ECHILD | ENXIO | EBUSY

text \<open>The API error codes of \<open>libcontainer/errors.go\<close>.\<close>

datatype ErrorCode =
    IdInUse | InvalidIdFormat
  | ContainerNotExists | ContainerPaused | ContainerNotStopped | ContainerNotRunning
  | ContainerNotPaused
  | NoProcessOps
  | ConfigInvalid | ConsoleExists | SystemError
  | UnknownErrorCode int

text \<open>
  Go's \<open>error\<close> values. \<open>Errno\<close> is what a system call returns (also inside an
  \<open>*os.PathError\<close>, which \<open>os.IsNotExist\<close> and \<open>os.IsExist\<close> look through); \<open>Msg\<close> is
  \<open>errors.New\<close> or a \<open>fmt.Errorf\<close> that embeds no error; \<open>Errorf pre e post\<close> is a
  \<open>fmt.Errorf\<close> whose format prints the error \<open>e\<close> between two texts; \<open>Wrap e msg\<close> is
  \<open>errors.Wrap\<close>; \<open>Generic\<close> is libcontainer's \<open>*genericError\<close> with its code, its wrapped
  error and its cause. The stack trace, the time stamp and the message of a \<open>genericError\<close>
  are its print form only and are not kept.
\<close>

datatype goerr =
    Errno errno
  | Msg string
  | Errorf string goerr string
  | Wrap goerr string
  | Generic ErrorCode "goerr option" string

definition IsNotExist :: "goerr \<Rightarrow> bool" where
  "IsNotExist e = (e = Errno ENOENT)"

definition IsExist :: "goerr \<Rightarrow> bool" where
  "IsExist e = (e = Errno EEXIST \<or> e = Errno ENOTEMPTY)"

subsection \<open>Results of a call\<close>

text \<open>
  A call returns a value, returns an error, or does not return: it panics, ends the process,
  blocks for ever, or replaces the process image (\<open>execve\<close>).
\<close>

datatype stop =
    Panic string
  | Exit int
  | Blocked string
  | Execed string "string list" "string list"

datatype 'a res = Ok 'a | Err goerr | Stop stop

type_synonym ('s, 'a) io = "'s \<Rightarrow> 'a res \<times> 's"

definition ret :: "'a \<Rightarrow> ('s, 'a) io" where
  "ret a = (\<lambda>s. (Ok a, s))"

definition fail :: "goerr \<Rightarrow> ('s, 'a) io" where
  "fail e = (\<lambda>s. (Err e, s))"

definition halt :: "stop \<Rightarrow> ('s, 'a) io" where
  "halt x = (\<lambda>s. (Stop x, s))"

definition gets :: "('s \<Rightarrow> 'a) \<Rightarrow> ('s, 'a) io" where
  "gets f = (\<lambda>s. (Ok (f s), s))"

definition modify :: "('s \<Rightarrow> 's) \<Rightarrow> ('s, unit) io" where
  "modify f = (\<lambda>s. (Ok (), f s))"

text \<open>
  \<open>try_io m h k\<close> is Go's \<open>x, err := m; if err != nil { h }; k\<close>; \<open>seq m k\<close> is the common
  \<open>if err != nil { return err }\<close>.
\<close>

definition try_io ::
  "('s, 'a) io \<Rightarrow> (goerr \<Rightarrow> ('s, 'b) io) \<Rightarrow> ('a \<Rightarrow> ('s, 'b) io) \<Rightarrow> ('s, 'b) io" where
  "try_io m h k = (\<lambda>s. case m s of
       (Ok a, s') \<Rightarrow> k a s'
     | (Err e, s') \<Rightarrow> h e s'
     | (Stop x, s') \<Rightarrow> (Stop x, s'))"

definition seq :: "('s, 'a) io \<Rightarrow> ('a \<Rightarrow> ('s, 'b) io) \<Rightarrow> ('s, 'b) io" where
  "seq m k = try_io m fail k"

text \<open>\<open>map_err f m\<close> returns \<open>f err\<close> in place of the error \<open>err\<close>.\<close>

definition map_err :: "(goerr \<Rightarrow> goerr) \<Rightarrow> ('s, 'a) io \<Rightarrow> ('s, 'a) io" where
  "map_err f m = try_io m (\<lambda>e. fail (f e)) ret"

text \<open>\<open>ignore m\<close> is a call whose error the code drops (\<open>_ = m\<close>).\<close>

definition ignore :: "('s, 'a) io \<Rightarrow> ('s, unit) io" where
  "ignore m = try_io m (\<lambda>_. ret ()) (\<lambda>_. ret ())"

text \<open>\<open>for xs body\<close>: a \<open>for _, x := range xs\<close> that stops at the first error.\<close>

fun for_each :: "'a list \<Rightarrow> ('a \<Rightarrow> ('s, unit) io) \<Rightarrow> ('s, unit) io" where
  "for_each [] body = ret ()"
| "for_each (x # xs) body = seq (body x) (\<lambda>_. for_each xs body)"

text \<open>An operation on a part of the state, read by \<open>get\<close> and written back by \<open>put\<close>.\<close>

definition zoom :: "('s \<Rightarrow> 't) \<Rightarrow> ('t \<Rightarrow> 's \<Rightarrow> 's) \<Rightarrow> ('t, 'a) io \<Rightarrow> ('s, 'a) io" where
  "zoom get put m = (\<lambda>s. case m (get s) of (r, t) \<Rightarrow> (r, put t s))"

named_theorems io_defs \<open>the definitions of the error-propagating state passing\<close>

lemmas io_basic [io_defs] =
  ret_def fail_def halt_def gets_def modify_def try_io_def seq_def map_err_def ignore_def

lemma ret_run [simp]: "ret a s = (Ok a, s)"
  by (simp add: ret_def)

lemma fail_run [simp]: "fail e s = (Err e, s)"
  by (simp add: fail_def)

lemma halt_run [simp]: "halt x s = (Stop x, s)"
  by (simp add: halt_def)

lemma gets_run [simp]: "gets f s = (Ok (f s), s)"
  by (simp add: gets_def)

lemma modify_run [simp]: "modify f s = (Ok (), f s)"
  by (simp add: modify_def)

lemma seq_Ok_iff:
  "seq m k s = (Ok b, t) \<longleftrightarrow> (\<exists>a s'. m s = (Ok a, s') \<and> k a s' = (Ok b, t))"
  by (auto simp: seq_def try_io_def split: prod.splits res.splits)

lemma try_io_run [simp]:
  "m s = (Ok a, s') \<Longrightarrow> try_io m h k s = k a s'"
  "m s = (Err e, s') \<Longrightarrow> try_io m h k s = h e s'"
  "m s = (Stop x, s') \<Longrightarrow> try_io m h k s = (Stop x, s')"
  by (simp_all add: try_io_def)

lemma seq_run [simp]:
  "m s = (Ok a, s') \<Longrightarrow> seq m k s = k a s'"
  "m s = (Err e, s') \<Longrightarrow> seq m k s = (Err e, s')"
  "m s = (Stop x, s') \<Longrightarrow> seq m k s = (Stop x, s')"
  by (simp_all add: seq_def)

lemma seq_ret [simp]: "seq (ret a) k = k a"
  by (rule ext) (simp add: seq_def try_io_def)

lemma map_err_run [simp]:
  "m s = (Ok a, s') \<Longrightarrow> map_err f m s = (Ok a, s')"
  "m s = (Err e, s') \<Longrightarrow> map_err f m s = (Err (f e), s')"
  "m s = (Stop x, s') \<Longrightarrow> map_err f m s = (Stop x, s')"
  by (simp_all add: map_err_def try_io_def)

lemma map_err_Ok_iff: "map_err f m s = (Ok a, t) \<longleftrightarrow> m s = (Ok a, t)"
  by (auto simp: map_err_def try_io_def split: prod.splits res.splits)

lemma snd_map_err [simp]: "snd (map_err f m s) = snd (m s)"
  by (auto simp: map_err_def try_io_def split: prod.splits res.splits)

subsection \<open>Operations that keep a predicate\<close>

definition preserves :: "('s \<Rightarrow> bool) \<Rightarrow> ('s, 'a) io \<Rightarrow> bool" where
  "preserves P m \<longleftrightarrow> (\<forall>s. P s \<longrightarrow> P (snd (m s)))"

named_theorems pres \<open>rules that an operation keeps a predicate, given that its parts do\<close>

lemma preservesI: "(\<And>s r s'. P s \<Longrightarrow> m s = (r, s') \<Longrightarrow> P s') \<Longrightarrow> preserves P m"
  by (simp add: preserves_def) (metis prod.collapse)

lemma preservesD: "preserves P m \<Longrightarrow> m s = (r, s') \<Longrightarrow> P s \<Longrightarrow> P s'"
  by (metis preserves_def snd_conv)

lemma preserves_snd: "preserves P m \<Longrightarrow> P s \<Longrightarrow> P (snd (m s))"
  by (simp add: preserves_def)

lemma preserves_ret [pres]: "preserves P (ret a)"
  by (simp add: preserves_def)

lemma preserves_fail [pres]: "preserves P (fail e)"
  by (simp add: preserves_def)

lemma preserves_halt [pres]: "preserves P (halt x)"
  by (simp add: preserves_def)

lemma preserves_gets [pres]: "preserves P (gets f)"
  by (simp add: preserves_def)

lemma preserves_modify: "(\<And>s. P s \<Longrightarrow> P (f s)) \<Longrightarrow> preserves P (modify f)"
  by (simp add: preserves_def)

lemma preserves_try_io [pres]:
  assumes "preserves P m" and "\<And>e. preserves P (h e)" and "\<And>a. preserves P (k a)"
  shows "preserves P (try_io m h k)"
proof (rule preservesI)
  fix s r s' assume P: "P s" and run: "try_io m h k s = (r, s')"
  obtain x t where m: "m s = (x, t)" by force
  from assms(1) m P have t: "P t" by (rule preservesD)
  show "P s'"
    using run m t assms(2,3) by (cases x) (auto dest: preservesD)
qed

lemma preserves_seq [pres]:
  "preserves P m \<Longrightarrow> (\<And>a. preserves P (k a)) \<Longrightarrow> preserves P (seq m k)"
  unfolding seq_def by (intro pres)

lemma preserves_map_err [pres]: "preserves P m \<Longrightarrow> preserves P (map_err f m)"
  unfolding map_err_def by (intro pres)

lemma preserves_ignore [pres]: "preserves P m \<Longrightarrow> preserves P (ignore m)"
  unfolding ignore_def by (intro pres)

lemma preserves_for_each [pres]:
  "(\<And>x. preserves P (body x)) \<Longrightarrow> preserves P (for_each xs body)"
  by (induction xs) (auto intro!: pres)

lemma preserves_if [pres]:
  "(b \<Longrightarrow> preserves P m) \<Longrightarrow> (\<not> b \<Longrightarrow> preserves P n) \<Longrightarrow> preserves P (if b then m else n)"
  by simp

lemma preserves_case_option [pres]:
  "(x = None \<Longrightarrow> preserves P m) \<Longrightarrow> (\<And>a. x = Some a \<Longrightarrow> preserves P (f a)) \<Longrightarrow>
   preserves P (case x of None \<Rightarrow> m | Some a \<Rightarrow> f a)"
  by (cases x) auto

lemma preserves_let [pres]:
  "(\<And>x. preserves P (f x)) \<Longrightarrow> preserves P (let x = a in f x)"
  by simp

lemma preserves_case_prod [pres]:
  "(\<And>a b. preserves P (f a b)) \<Longrightarrow> preserves P (case p of (a, b) \<Rightarrow> f a b)"
  by (cases p) auto

lemma preserves_zoom:
  "(\<And>s r t. P s \<Longrightarrow> m (get s) = (r, t) \<Longrightarrow> P (put t s)) \<Longrightarrow> preserves P (zoom get put m)"
  by (rule preservesI) (auto simp: zoom_def split: prod.splits)

subsection \<open>What holds after each kind of result\<close>

text \<open>
  \<open>ensures P m Q E X\<close>: from a state in \<open>P\<close>, a normal return satisfies \<open>Q\<close>, an error return
  satisfies \<open>E\<close>, and a call that does not return leaves a state in \<open>X\<close>.
\<close>

definition ensures ::
  "('s \<Rightarrow> bool) \<Rightarrow> ('s, 'a) io \<Rightarrow> ('a \<Rightarrow> 's \<Rightarrow> bool) \<Rightarrow> (goerr \<Rightarrow> 's \<Rightarrow> bool) \<Rightarrow>
   (stop \<Rightarrow> 's \<Rightarrow> bool) \<Rightarrow> bool" where
  "ensures P m Q E X \<longleftrightarrow> (\<forall>s. P s \<longrightarrow> (case m s of
       (Ok a, s') \<Rightarrow> Q a s' | (Err e, s') \<Rightarrow> E e s' | (Stop x, s') \<Rightarrow> X x s'))"

lemma ensuresD:
  assumes "ensures P m Q E X" and "P s"
  shows "m s = (Ok a, s') \<Longrightarrow> Q a s'"
    and "m s = (Err e, s') \<Longrightarrow> E e s'"
    and "m s = (Stop x, s') \<Longrightarrow> X x s'"
  using assms by (auto simp: ensures_def split: prod.splits res.splits)

lemma ensuresI:
  assumes "\<And>s a s'. P s \<Longrightarrow> m s = (Ok a, s') \<Longrightarrow> Q a s'"
    and "\<And>s e s'. P s \<Longrightarrow> m s = (Err e, s') \<Longrightarrow> E e s'"
    and "\<And>s x s'. P s \<Longrightarrow> m s = (Stop x, s') \<Longrightarrow> X x s'"
  shows "ensures P m Q E X"
  using assms by (auto simp: ensures_def split: prod.splits res.splits)

lemma ensures_try_io:
  assumes "ensures P m R F X" and "\<And>e. ensures (F e) (h e) Q E X"
    and "\<And>a. ensures (R a) (k a) Q E X"
  shows "ensures P (try_io m h k) Q E X"
proof (unfold ensures_def, intro allI impI)
  fix s assume P: "P s"
  obtain x t where m: "m s = (x, t)" by force
  show "case try_io m h k s of
      (Ok a, s') \<Rightarrow> Q a s' | (Err e, s') \<Rightarrow> E e s' | (Stop y, s') \<Rightarrow> X y s'"
  proof (cases x)
    case (Ok a)
    then have "R a t" using assms(1) P m by (auto dest: ensuresD)
    then show ?thesis using assms(3) [of a] m Ok by (simp add: ensures_def)
  next
    case (Err e)
    then have "F e t" using assms(1) P m by (auto dest: ensuresD)
    then show ?thesis using assms(2) [of e] m Err by (simp add: ensures_def)
  next
    case (Stop y)
    then have "X y t" using assms(1) P m by (auto dest: ensuresD)
    then show ?thesis using m Stop by simp
  qed
qed

lemma ensures_weaken:
  assumes "ensures P m Q E X" and "\<And>s. P' s \<Longrightarrow> P s"
    and "\<And>a s. Q a s \<Longrightarrow> Q' a s" and "\<And>e s. E e s \<Longrightarrow> E' e s" and "\<And>x s. X x s \<Longrightarrow> X' x s"
  shows "ensures P' m Q' E' X'"
proof (rule ensuresI)
  fix s a s' assume "P' s" "m s = (Ok a, s')"
  then show "Q' a s'" using assms(1-3) ensuresD(1) by metis
next
  fix s e s' assume "P' s" "m s = (Err e, s')"
  then show "E' e s'" using assms(1,2,4) ensuresD(2) by metis
next
  fix s x s' assume "P' s" "m s = (Stop x, s')"
  then show "X' x s'" using assms(1,2,5) ensuresD(3) by metis
qed

lemma ensures_snd: "ensures P m (\<lambda>_. Q) (\<lambda>_. Q) (\<lambda>_. Q) \<Longrightarrow> P s \<Longrightarrow> m s = (r, s') \<Longrightarrow> Q s'"
  by (cases r) (auto dest: ensuresD)

lemma ensures_map_err: "ensures P m (\<lambda>_. Q) (\<lambda>_. Q) (\<lambda>_. Q) \<Longrightarrow> ensures P (map_err f m) (\<lambda>_. Q) (\<lambda>_. Q) (\<lambda>_. Q)"
  unfolding map_err_def by (erule ensures_try_io) (simp_all add: ensures_def)

subsection \<open>Association lists as finite stores\<close>

lemma map_of_filter_key:
  "map_of (filter (\<lambda>kv. Q (fst kv)) al) k = (if Q k then map_of al k else None)"
  by (induction al) auto

lemma distinct_filter_key:
  "distinct (map fst al) \<Longrightarrow> distinct (map fst (filter Q al))"
  by (induction al) auto

end
