(* ===== verification/Paths.thy ===== *)
theory Paths
  imports Prelude
begin

text \<open>
  The parts of Go's \<open>strings\<close>, \<open>strconv\<close> and \<open>path/filepath\<close> packages the program uses, on
  byte strings: prefix and suffix tests, \<open>strings.Join\<close>, decimal printing and \<open>strconv.Atoi\<close>,
  and the lexical path functions \<open>Clean\<close>, \<open>Join\<close>, \<open>IsAbs\<close>, \<open>Abs\<close>, \<open>Dir\<close> and \<open>Base\<close>.
\<close>

subsection \<open>Strings\<close>

definition HasPrefix :: "string \<Rightarrow> string \<Rightarrow> bool" where
  "HasPrefix s p = prefix p s"

definition HasSuffix :: "string \<Rightarrow> string \<Rightarrow> bool" where
  "HasSuffix s p = suffix p s"

definition TrimPrefix :: "string \<Rightarrow> string \<Rightarrow> string" where
  "TrimPrefix s p = (if prefix p s then drop (length p) s else s)"

fun join_with :: "string \<Rightarrow> string list \<Rightarrow> string" where
  "join_with sep [] = ''''"
| "join_with sep [x] = x"
| "join_with sep (x # y # xs) = x @ sep @ join_with sep (y # xs)"

text \<open>\<open>strings.ToUpper\<close> on ASCII letters; other bytes are left alone.\<close>

definition to_upper_char :: "char \<Rightarrow> char" where
  "to_upper_char c = (if 97 \<le> (of_char c :: nat) \<and> (of_char c :: nat) \<le> 122
     then char_of (of_char c - 32 :: nat) else c)"

definition ToUpper :: "string \<Rightarrow> string" where
  "ToUpper s = map to_upper_char s"

subsection \<open>Decimal numbers\<close>

definition is_digit :: "char \<Rightarrow> bool" where
  "is_digit c = (48 \<le> (of_char c :: nat) \<and> (of_char c :: nat) \<le> 57)"

definition digit_val :: "char \<Rightarrow> nat" where
  "digit_val c = of_char c - 48"

definition digit_char :: "nat \<Rightarrow> char" where
  "digit_char d = char_of (48 + d)"

fun nat_of_digits :: "nat \<Rightarrow> string \<Rightarrow> nat" where
  "nat_of_digits acc [] = acc"
| "nat_of_digits acc (c # cs) = nat_of_digits (10 * acc + digit_val c) cs"

fun nat_text :: "nat \<Rightarrow> string" where
  "nat_text n = (if n < 10 then [digit_char n] else nat_text (n div 10) @ [digit_char (n mod 10)])"

declare nat_text.simps [simp del]

definition int_text :: "int \<Rightarrow> string" where
  "int_text i = (if i < 0 then CHR ''-'' # nat_text (nat (- i)) else nat_text (nat i))"

text \<open>
  \<open>strconv.Atoi\<close> with a 64-bit \<open>int\<close>: an optional sign, at least one digit, nothing else, and
  a value in range; anything else is an error (\<open>None\<close>).
\<close>

definition int64_ok :: "int \<Rightarrow> bool" where
  "int64_ok i = (- (2 ^ 63) \<le> i \<and> i < 2 ^ 63)"

definition Atoi :: "string \<Rightarrow> int option" where
  "Atoi s =
     (let neg = (s \<noteq> [] \<and> hd s = CHR ''-'');
          ds = (if s \<noteq> [] \<and> (hd s = CHR ''-'' \<or> hd s = CHR ''+'') then tl s else s);
          v = int (nat_of_digits 0 ds);
          i = (if neg then - v else v)
      in if ds \<noteq> [] \<and> list_all is_digit ds \<and> int64_ok i then Some i else None)"

lemma digit_char_digit [simp]: "d < 10 \<Longrightarrow> is_digit (digit_char d)"
  by (simp add: is_digit_def digit_char_def)

lemma digit_val_char [simp]: "d < 10 \<Longrightarrow> digit_val (digit_char d) = d"
  by (simp add: digit_val_def digit_char_def)

lemma nat_text_digits: "list_all is_digit (nat_text n)"
proof (induction n rule: nat_text.induct)
  case (1 n)
  then show ?case by (subst nat_text.simps) auto
qed

lemma nat_text_nonempty [simp]: "nat_text n \<noteq> []"
  by (subst nat_text.simps) simp

lemma nat_of_digits_append:
  "nat_of_digits acc (xs @ ys) = nat_of_digits (nat_of_digits acc xs) ys"
  by (induction xs arbitrary: acc) auto

lemma nat_of_nat_text [simp]: "nat_of_digits 0 (nat_text n) = n"
proof (induction n rule: nat_text.induct)
  case (1 n)
  show ?case
  proof (cases "n < 10")
    case True
    then show ?thesis by (subst nat_text.simps) simp
  next
    case False
    with "1" show ?thesis
      by (subst nat_text.simps) (simp add: nat_of_digits_append)
  qed
qed

lemma not_digit_minus [simp]: "\<not> is_digit (CHR ''-'')" "\<not> is_digit (CHR ''+'')"
  by (simp_all add: is_digit_def)

lemma hd_nat_text: "is_digit (hd (nat_text n))"
  using nat_text_digits [of n] by (cases "nat_text n") auto

lemma Atoi_int_text:
  assumes "int64_ok i"
  shows "Atoi (int_text i) = Some i"
proof -
  have h: "hd (nat_text n) \<noteq> CHR ''-''" "hd (nat_text n) \<noteq> CHR ''+''" for n
    using hd_nat_text [of n] by (auto simp: is_digit_def)
  show ?thesis
    using assms h [of "nat i"] by (auto simp: Atoi_def int_text_def nat_text_digits Let_def)
qed

subsection \<open>Lexical paths\<close>

fun split_slash :: "string \<Rightarrow> string list" where
  "split_slash [] = [[]]"
| "split_slash (c # cs) =
     (if c = CHR ''/'' then [] # split_slash cs
      else (case split_slash cs of [] \<Rightarrow> [[c]] | w # ws \<Rightarrow> (c # w) # ws))"

text \<open>
  One element of a path against the elements kept so far (last first): \<open>Clean\<close> drops empty
  elements and \<open>.\<close>, and lets \<open>..\<close> remove the element before it, or vanish at the root.
\<close>

definition clean_step :: "bool \<Rightarrow> string \<Rightarrow> string list \<Rightarrow> string list" where
  "clean_step rooted e acc =
     (if e = '''' \<or> e = ''.'' then acc
      else if e = ''..'' then
        (case acc of
           [] \<Rightarrow> (if rooted then [] else [''..''])
         | x # xs \<Rightarrow> (if x = ''..'' then ''..'' # acc else xs))
      else e # acc)"

definition clean_elems :: "bool \<Rightarrow> string list \<Rightarrow> string list" where
  "clean_elems rooted es = rev (fold (clean_step rooted) es [])"

definition IsAbs :: "string \<Rightarrow> bool" where
  "IsAbs p = HasPrefix p ''/''"

definition Clean :: "string \<Rightarrow> string" where
  "Clean p =
     (let es = clean_elems (IsAbs p) (split_slash p)
      in if IsAbs p then CHR ''/'' # join_with ''/'' es
         else if es = [] then ''.'' else join_with ''/'' es)"

definition Join :: "string list \<Rightarrow> string" where
  "Join es = (case dropWhile (\<lambda>e. e = '''') es of
      [] \<Rightarrow> '''' | e # rest \<Rightarrow> Clean (join_with ''/'' (e # rest)))"

definition Abs :: "string \<Rightarrow> string \<Rightarrow> string" where
  "Abs cwd p = (if IsAbs p then Clean p else Join [cwd, p])"

text \<open>\<open>Dir\<close> and \<open>Base\<close> of a path: everything up to the last slash, and the last element.\<close>

definition Dir :: "string \<Rightarrow> string" where
  "Dir p = Clean (rev (dropWhile (\<lambda>c. c \<noteq> CHR ''/'') (rev p)))"

definition Base :: "string \<Rightarrow> string" where
  "Base p =
     (if p = '''' then ''.''
      else let q = rev (dropWhile (\<lambda>c. c = CHR ''/'') (rev p))
           in if q = '''' then ''/'' else last (split_slash q))"

text \<open>The elements of the absolute path a process in directory \<open>cwd\<close> means by \<open>p\<close>.\<close>

definition resolve :: "string \<Rightarrow> string \<Rightarrow> string list" where
  "resolve cwd p = clean_elems True (split_slash (if IsAbs p then p else cwd @ ''/'' @ p))"

text \<open>A path element that names an entry: not empty, not \<open>.\<close> or \<open>..\<close>, and with no slash.\<close>

definition plain_elem :: "string \<Rightarrow> bool" where
  "plain_elem e \<longleftrightarrow> e \<noteq> '''' \<and> e \<noteq> ''.'' \<and> e \<noteq> ''..'' \<and> CHR ''/'' \<notin> set e"

lemma split_slash_nonempty [simp]: "split_slash s \<noteq> []"
  by (induction s) (auto split: list.splits)

lemma split_slash_noslash: "w \<in> set (split_slash s) \<Longrightarrow> CHR ''/'' \<notin> set w"
proof (induction s arbitrary: w)
  case (Cons c cs)
  then show ?case by (cases "split_slash cs") (auto split: if_splits)
qed simp

lemma split_slash_plain: "CHR ''/'' \<notin> set e \<Longrightarrow> split_slash e = [e]"
  by (induction e) auto

lemma split_slash_append:
  "split_slash (a @ CHR ''/'' # b) = split_slash a @ split_slash b"
proof (induction a)
  case (Cons c cs)
  then show ?case
    by (cases "split_slash cs") auto
qed simp

lemma split_join:
  assumes "es \<noteq> []" and "\<forall>e \<in> set es. CHR ''/'' \<notin> set e"
  shows "split_slash (join_with ''/'' es) = es"
  using assms
proof (induction "''/''" es rule: join_with.induct)
  case (3 x y xs)
  then show ?case by (simp add: split_slash_append split_slash_plain)
qed (simp_all add: split_slash_plain)

lemma clean_step_plain: "plain_elem e \<Longrightarrow> clean_step r e acc = e # acc"
  by (simp add: clean_step_def plain_elem_def)

lemma clean_elems_plain_append:
  "list_all plain_elem es \<Longrightarrow> fold (clean_step r) es acc = rev es @ acc"
  by (induction es arbitrary: acc) (auto simp: clean_step_plain)

lemma clean_elems_plain: "list_all plain_elem es \<Longrightarrow> clean_elems r es = es"
  by (simp add: clean_elems_def clean_elems_plain_append)

lemma clean_step_keeps_plain:
  "list_all plain_elem acc \<Longrightarrow> CHR ''/'' \<notin> set e \<Longrightarrow> list_all plain_elem (clean_step True e acc)"
  by (cases acc) (auto simp: clean_step_def plain_elem_def)

lemma fold_clean_plain:
  "list_all plain_elem acc \<Longrightarrow> \<forall>e \<in> set es. CHR ''/'' \<notin> set e \<Longrightarrow>
   list_all plain_elem (fold (clean_step True) es acc)"
  by (induction es arbitrary: acc) (auto intro!: clean_step_keeps_plain)

lemma clean_elems_all_plain:
  "\<forall>e \<in> set es. CHR ''/'' \<notin> set e \<Longrightarrow> list_all plain_elem (clean_elems True es)"
  using fold_clean_plain [of "[]" es] by (simp add: clean_elems_def list_all_rev)

lemma resolve_plain: "list_all plain_elem (resolve cwd p)"
  unfolding resolve_def by (rule clean_elems_all_plain) (auto dest: split_slash_noslash)

lemma clean_elems_snoc:
  "clean_elems r (es @ [e]) = rev (clean_step r e (rev (clean_elems r es)))"
  by (simp add: clean_elems_def)

lemma clean_elems_Nil_cons [simp]: "clean_elems r ([] # es) = clean_elems r es"
  by (simp add: clean_elems_def clean_step_def)

text \<open>The absolute path written out again resolves to the same elements.\<close>

definition path_text :: "string list \<Rightarrow> string" where
  "path_text es = CHR ''/'' # join_with ''/'' es"

lemma IsAbs_path_text [simp]: "IsAbs (path_text es)"
  by (simp add: IsAbs_def HasPrefix_def path_text_def)

lemma plain_noslash: "list_all plain_elem es \<Longrightarrow> \<forall>e \<in> set es. CHR ''/'' \<notin> set e"
  by (auto simp: list_all_iff plain_elem_def)

lemma resolve_path_text:
  assumes "list_all plain_elem es"
  shows "resolve cwd (path_text es) = es"
proof (cases "es = []")
  case True
  then show ?thesis
    by (simp add: resolve_def path_text_def IsAbs_def HasPrefix_def clean_elems_def clean_step_def)
next
  case False
  then show ?thesis
    using assms
    by (simp add: resolve_def path_text_def IsAbs_def HasPrefix_def split_join plain_noslash
        clean_elems_plain)
qed

lemma Clean_abs: "IsAbs p \<Longrightarrow> Clean p = path_text (resolve cwd p)"
  by (simp add: Clean_def resolve_def path_text_def Let_def)

lemma IsAbs_append: "IsAbs p \<Longrightarrow> IsAbs (p @ q)"
  by (auto simp: IsAbs_def HasPrefix_def prefix_def)

lemma IsAbs_nonempty: "IsAbs p \<Longrightarrow> p \<noteq> ''''"
  by (auto simp: IsAbs_def HasPrefix_def)

text \<open>Joining one element to an absolute path: the central fact about container directories.\<close>

lemma Join_abs: "IsAbs p \<Longrightarrow> Join [p, e] = path_text (resolve cwd (p @ CHR ''/'' # e))"
  by (simp add: Join_def IsAbs_nonempty Clean_abs [symmetric] IsAbs_append)

lemma resolve_Join_abs:
  assumes "IsAbs p"
  shows "resolve cwd (Join [p, e]) = resolve cwd (p @ CHR ''/'' # e)"
  by (subst Join_abs [OF assms, of _ cwd]) (simp add: resolve_path_text resolve_plain)

lemma resolve_append_noslash:
  assumes "IsAbs p" and "CHR ''/'' \<notin> set e"
  shows "resolve cwd (p @ CHR ''/'' # e) = rev (clean_step True e (rev (resolve cwd p)))"
  using assms
  by (simp add: resolve_def IsAbs_append split_slash_append split_slash_plain clean_elems_snoc)

lemma resolve_Join_plain:
  "IsAbs p \<Longrightarrow> plain_elem e \<Longrightarrow> resolve cwd (Join [p, e]) = resolve cwd p @ [e]"
  by (simp add: resolve_Join_abs resolve_append_noslash clean_step_plain plain_elem_def)

lemma resolve_Join_dotdot:
  "IsAbs p \<Longrightarrow> resolve cwd (Join [p, ''..'']) = butlast (resolve cwd p)"
  using resolve_plain [of cwd p]
  by (cases "resolve cwd p" rule: rev_cases)
    (auto simp: resolve_Join_abs resolve_append_noslash clean_step_def plain_elem_def)

lemma resolve_Join_dot:
  "IsAbs p \<Longrightarrow> resolve cwd (Join [p, ''.'']) = resolve cwd p"
  by (simp add: resolve_Join_abs resolve_append_noslash clean_step_def)

lemma IsAbs_Join: "IsAbs p \<Longrightarrow> IsAbs (Join [p, e])"
  by (simp add: Join_abs [of p e p])

lemma resolve_Join_elems:
  "IsAbs p \<Longrightarrow>
   resolve cwd (Join [p, e]) = rev (fold (clean_step True) (split_slash e) (rev (resolve cwd p)))"
  by (simp add: resolve_Join_abs)
    (simp add: resolve_def IsAbs_append split_slash_append clean_elems_def)

lemma resolve_Clean: "IsAbs p \<Longrightarrow> resolve cwd (Clean p) = resolve cwd p"
  by (simp add: Clean_abs [of p cwd] resolve_path_text resolve_plain)

lemma resolve_abs_cwd: "IsAbs p \<Longrightarrow> resolve cwd p = resolve cwd' p"
  by (simp add: resolve_def)

end
