(* ===== verification/World.thy ===== *)
theory World
  imports Paths "HOL-Library.Char_ord" "HOL-Library.List_Lexorder"
begin

unbundle bit_operations_syntax

text \<open>
  The operating system as the program sees it through Go's \<open>os\<close>, \<open>io/ioutil\<close>, \<open>os/exec\<close>,
  \<open>time\<close> and \<open>syscall\<close> packages: a file system (no symbolic links, no hard links), the
  process's working directory and umask, and the log of the signals it sent and the processes it
  started and reaped, and of the FIFOs it opened. What the rest of the machine decides is read from an environment of oracles,
  indexed by a clock that every call advances: whether a call is refused for a reason outside the
  model (permission, I/O, resources), which processes are alive, what a reader of a FIFO
  receives, the next process id, and the time of day.
\<close>

subsection \<open>Files\<close>

type_synonym path = "string list"
type_synonym mode = "12 word"

definition octal3 :: "nat \<Rightarrow> nat \<Rightarrow> nat \<Rightarrow> mode" where
  "octal3 u g r = of_nat (64 * u + 8 * g + r)"

datatype kind = KDir | KFile string | KFifo | KChr nat nat

record inode =
  i_kind :: kind
  i_mode :: mode
  i_uid :: int
  i_gid :: int

subsection \<open>System calls and the environment\<close>

datatype sysop =
    OpStat path | OpMkdir path | OpMknod path | OpMkfifo path | OpChown path | OpChmod path
  | OpOpen path | OpCreate path | OpRead path | OpWrite path | OpRemove path
  | OpRemoveAll path | OpReadDir path | OpRename path path
  | OpKill int int | OpWait | OpSocketpair | OpPipe | OpFchown int | OpExec string "string list"
  | OpChdir path | OpDup int int | OpIoctl nat | OpClose path | OpGetwd | OpSend nat | OpReceive nat
  | OpMount path path

text \<open>
  The reasons for which the kernel may refuse any call. They never mean that a file is missing
  or already there: those answers are computed from the file system.
\<close>

datatype fault = FPerm | FAccess | FIO | FNoSpace | FNoMem | FTooManyFiles

fun fault_errno :: "fault \<Rightarrow> errno" where
  "fault_errno FPerm = EPERM"
| "fault_errno FAccess = EACCES"
| "fault_errno FIO = EIO"
| "fault_errno FNoSpace = ENOSPC"
| "fault_errno FNoMem = ENOMEM"
| "fault_errno FTooManyFiles = EMFILE"

datatype event =
    Signalled int int
  | Started string "string list" int
  | Reaped int
  | FifoOpened path

text \<open>How a child that is waited for ends: with what it wrote and its error, if any, or not in time.\<close>

datatype child_end = Exited string string "goerr option" | TooLate

text \<open>
  \<open>e_run\<close> is what an external command writes, given its arguments and the files it can read
  (\<open>None\<close>: it exits with a non-zero status); \<open>e_temp\<close> are the names \<open>ioutil.TempFile\<close> draws;
  \<open>e_pts\<close> is the pseudoterminal the kernel gives, \<open>e_child\<close> how a child given its input ends,
  \<open>e_exits\<close> whether a process waited for ever ends, \<open>e_reader\<close> whether a FIFO ever has a reader,
  \<open>e_kids\<close> whether there are children still running.
\<close>

record env =
  e_fault :: "nat \<Rightarrow> sysop \<Rightarrow> fault option"
  e_alive :: "nat \<Rightarrow> int \<Rightarrow> bool"
  e_fifo :: "nat \<Rightarrow> path \<Rightarrow> string option"
  e_spawn :: "nat \<Rightarrow> int"
  e_now :: "nat \<Rightarrow> string"
  e_run :: "string list \<Rightarrow> (path \<times> inode) list \<Rightarrow> string option"
  e_temp :: "nat \<Rightarrow> string list"
  e_vars :: "(string \<times> string) list"
  e_rand :: "nat \<Rightarrow> nat"
  e_euid :: int
  e_sockbuf :: nat
  e_pts :: "nat \<Rightarrow> nat"
  e_child :: "nat \<Rightarrow> int \<Rightarrow> string \<Rightarrow> child_end"
  e_exits :: "nat \<Rightarrow> int \<Rightarrow> bool"
  e_reader :: "nat \<Rightarrow> path \<Rightarrow> bool"
  e_kids :: "nat \<Rightarrow> bool"

text \<open>
  \<open>w_fds\<close> are the open descriptors of pipes, terminals and sockets (an open file is its path);
  \<open>w_children\<close> the children that ended and were not waited for, with their wait status; \<open>'n\<close> is the
  state of the network devices and namespaces, which the netlink and netns packages own.
\<close>

record 'n world =
  w_env :: env
  w_tick :: nat
  w_fs :: "(path \<times> inode) list"
  w_cwd :: string
  w_umask :: mode
  w_log :: "event list"
  w_fds :: "nat list"
  w_children :: "(int \<times> int) list"
  w_net :: 'n

definition fs_get :: "'n world \<Rightarrow> path \<Rightarrow> inode option" where
  "fs_get w p = map_of (w_fs w) p"

definition fs_put :: "path \<Rightarrow> inode \<Rightarrow> 'n world \<Rightarrow> 'n world" where
  "fs_put p n w = w\<lparr>w_fs := AList.update p n (w_fs w)\<rparr>"

definition fs_remove :: "(path \<Rightarrow> bool) \<Rightarrow> 'n world \<Rightarrow> 'n world" where
  "fs_remove Q w = w\<lparr>w_fs := filter (\<lambda>kv. \<not> Q (fst kv)) (w_fs w)\<rparr>"

definition is_dir :: "'n world \<Rightarrow> path \<Rightarrow> bool" where
  "is_dir w p = (case fs_get w p of Some n \<Rightarrow> i_kind n = KDir | None \<Rightarrow> False)"

definition exists_at :: "'n world \<Rightarrow> path \<Rightarrow> bool" where
  "exists_at w p = (fs_get w p \<noteq> None)"

text \<open>The error of a lookup that finds nothing: a file in the middle of the path is \<open>ENOTDIR\<close>.\<close>

definition missing_err :: "'n world \<Rightarrow> path \<Rightarrow> errno" where
  "missing_err w p =
     (if list_ex (\<lambda>q. exists_at w q \<and> \<not> is_dir w q) (prefixes (butlast p)) then ENOTDIR else ENOENT)"

definition syscall :: "sysop \<Rightarrow> ('n world, 'a) io \<Rightarrow> ('n world, 'a) io" where
  "syscall oper m = (\<lambda>w.
     let w1 = w\<lparr>w_tick := Suc (w_tick w)\<rparr>
     in case e_fault (w_env w) (w_tick w) oper of
          Some f \<Rightarrow> (Err (Errno (fault_errno f)), w1)
        | None \<Rightarrow> m w1)"

definition at_path :: "string \<Rightarrow> (path \<Rightarrow> ('n world, 'a) io) \<Rightarrow> ('n world, 'a) io" where
  "at_path p f = (\<lambda>w. if p = '''' then (Err (Errno ENOENT), w) else f (resolve (w_cwd w) p) w)"

text \<open>A bind mount: below \<open>d\<close> appears what is below \<open>s\<close>, and hides what was there.\<close>

definition mount_view :: "path \<Rightarrow> path \<Rightarrow> (path \<times> inode) list \<Rightarrow> (path \<times> inode) list" where
  "mount_view s d fs = filter (\<lambda>kv. \<not> prefix d (fst kv)) fs @
     map (\<lambda>kv. (d @ drop (length s) (fst kv), snd kv)) (filter (\<lambda>kv. prefix s (fst kv)) fs)"

definition sys_BindMount :: "string \<Rightarrow> string \<Rightarrow> ('n world, unit) io" where
  "sys_BindMount src dst = at_path src (\<lambda>s. at_path dst (\<lambda>d. syscall (OpMount s d) (\<lambda>w.
     case (fs_get w s, fs_get w d) of
       (None, _) \<Rightarrow> (Err (Errno (missing_err w s)), w)
     | (_, None) \<Rightarrow> (Err (Errno (missing_err w d)), w)
     | (Some n, Some m) \<Rightarrow>
         if (i_kind n = KDir) \<noteq> (i_kind m = KDir) then (Err (Errno ENOTDIR), w)
         else (Ok (), w\<lparr>w_fs := mount_view s d (w_fs w)\<rparr>))))"

subsection \<open>The \<open>os\<close> package\<close>

definition lookup_or_err :: "path \<Rightarrow> ('n world, inode) io" where
  "lookup_or_err q = (\<lambda>w. case fs_get w q of
       Some n \<Rightarrow> (Ok n, w) | None \<Rightarrow> (Err (Errno (missing_err w q)), w))"

definition os_Stat :: "string \<Rightarrow> ('n world, inode) io" where
  "os_Stat p = at_path p (\<lambda>q. syscall (OpStat q) (lookup_or_err q))"

definition new_inode :: "'n world \<Rightarrow> kind \<Rightarrow> mode \<Rightarrow> inode" where
  "new_inode w k m = \<lparr>i_kind = k, i_mode = m AND NOT (w_umask w), i_uid = e_euid (w_env w), i_gid = 0\<rparr>"

text \<open>Creating an entry: the name must be free and its parent a directory.\<close>

definition create_entry :: "kind \<Rightarrow> mode \<Rightarrow> path \<Rightarrow> ('n world, unit) io" where
  "create_entry k m q = (\<lambda>w.
     if exists_at w q then (Err (Errno EEXIST), w)
     else if is_dir w (butlast q) then (Ok (), fs_put q (new_inode w k m) w)
     else (Err (Errno (missing_err w q)), w))"

definition os_Mkdir :: "string \<Rightarrow> mode \<Rightarrow> ('n world, unit) io" where
  "os_Mkdir p m = at_path p (\<lambda>q. syscall (OpMkdir q) (create_entry KDir m q))"

definition mkdir_missing :: "mode \<Rightarrow> path \<Rightarrow> ('n world, unit) io" where
  "mkdir_missing m q = (\<lambda>w. case fs_get w q of
       Some n \<Rightarrow> if i_kind n = KDir then (Ok (), w) else (Err (Errno ENOTDIR), w)
     | None \<Rightarrow> (Ok (), fs_put q (new_inode w KDir m) w))"

definition os_MkdirAll :: "string \<Rightarrow> mode \<Rightarrow> ('n world, unit) io" where
  "os_MkdirAll p m =
     at_path p (\<lambda>q. syscall (OpMkdir q) (for_each (prefixes q) (mkdir_missing m)))"

definition sys_Mkfifo :: "string \<Rightarrow> mode \<Rightarrow> ('n world, unit) io" where
  "sys_Mkfifo p m = at_path p (\<lambda>q. syscall (OpMkfifo q) (create_entry KFifo m q))"

definition sys_Mknod :: "string \<Rightarrow> mode \<Rightarrow> nat \<Rightarrow> nat \<Rightarrow> ('n world, unit) io" where
  "sys_Mknod p m major minor =
     at_path p (\<lambda>q. syscall (OpMknod q) (create_entry (KChr major minor) m q))"

definition update_inode :: "(inode \<Rightarrow> inode) \<Rightarrow> path \<Rightarrow> ('n world, unit) io" where
  "update_inode f q = (\<lambda>w. case fs_get w q of
       Some n \<Rightarrow> (Ok (), fs_put q (f n) w) | None \<Rightarrow> (Err (Errno (missing_err w q)), w))"

definition os_Chown :: "string \<Rightarrow> int \<Rightarrow> int \<Rightarrow> ('n world, unit) io" where
  "os_Chown p u g = at_path p (\<lambda>q. syscall (OpChown q) (update_inode (\<lambda>n. n\<lparr>i_uid := u, i_gid := g\<rparr>) q))"

definition os_Chmod :: "string \<Rightarrow> mode \<Rightarrow> ('n world, unit) io" where
  "os_Chmod p m = at_path p (\<lambda>q. syscall (OpChmod q) (update_inode (\<lambda>n. n\<lparr>i_mode := m\<rparr>) q))"

text \<open>\<open>syscall.Umask\<close> cannot fail: it sets the mask and returns the old one.\<close>

definition sys_Umask :: "mode \<Rightarrow> ('n world, mode) io" where
  "sys_Umask m = (\<lambda>w. (Ok (w_umask w), w\<lparr>w_umask := m\<rparr>))"

definition truncate_inode :: "inode \<Rightarrow> inode" where
  "truncate_inode n = (case i_kind n of KFile _ \<Rightarrow> n\<lparr>i_kind := KFile ''''\<rparr> | _ \<Rightarrow> n)"

definition append_inode :: "string \<Rightarrow> inode \<Rightarrow> inode" where
  "append_inode s n = (case i_kind n of KFile c \<Rightarrow> n\<lparr>i_kind := KFile (c @ s)\<rparr> | _ \<Rightarrow> n)"

text \<open>
  \<open>os.Create\<close>: an existing file is truncated and keeps its mode, a missing one is made with
  mode 0666 (less the umask). An open file is its path.
\<close>

definition os_Create :: "string \<Rightarrow> ('n world, path) io" where
  "os_Create p = at_path p (\<lambda>q. syscall (OpCreate q) (\<lambda>w. case fs_get w q of
       Some n \<Rightarrow> if i_kind n = KDir then (Err (Errno EISDIR), w)
                  else (Ok q, fs_put q (truncate_inode n) w)
     | None \<Rightarrow> (case create_entry (KFile '''') (octal3 6 6 6) q w of
                   (Ok _, w') \<Rightarrow> (Ok q, w') | (Err e, w') \<Rightarrow> (Err e, w')
                 | (Stop x, w') \<Rightarrow> (Stop x, w'))))"

definition os_OpenTrunc :: "string \<Rightarrow> ('n world, path) io" where
  "os_OpenTrunc p = at_path p (\<lambda>q. syscall (OpOpen q) (\<lambda>w. case fs_get w q of
       Some n \<Rightarrow> if i_kind n = KDir then (Err (Errno EISDIR), w)
                  else (Ok q, fs_put q (truncate_inode n) w)
     | None \<Rightarrow> (Err (Errno (missing_err w q)), w)))"

definition os_Open :: "string \<Rightarrow> ('n world, path) io" where
  "os_Open p = at_path p (\<lambda>q. syscall (OpOpen q) (seq (lookup_or_err q) (\<lambda>_. ret q)))"

definition file_Write :: "path \<Rightarrow> string \<Rightarrow> ('n world, unit) io" where
  "file_Write q s = syscall (OpWrite q) (update_inode (append_inode s) q)"

definition file_ReadAll :: "path \<Rightarrow> ('n world, string) io" where
  "file_ReadAll q = syscall (OpRead q) (\<lambda>w. case fs_get w q of
       Some n \<Rightarrow> (case i_kind n of KFile s \<Rightarrow> (Ok s, w) | KDir \<Rightarrow> (Err (Errno EISDIR), w)
                  | _ \<Rightarrow> (Ok '''', w))
     | None \<Rightarrow> (Ok '''', w))"

text \<open>
  Reading a FIFO to its end: it blocks until a writer opens the other side, and returns what
  was written until all writers closed it.
\<close>

definition fifo_ReadAll :: "path \<Rightarrow> ('n world, string) io" where
  "fifo_ReadAll q = syscall (OpRead q) (\<lambda>w. case e_fifo (w_env w) (w_tick w) q of
       None \<Rightarrow> (Stop (Blocked ''fifo''), w) | Some s \<Rightarrow> (Ok s, w))"

definition has_children :: "'n world \<Rightarrow> path \<Rightarrow> bool" where
  "has_children w q = list_ex (\<lambda>kv. strict_prefix q (fst kv)) (w_fs w)"

definition os_Remove :: "string \<Rightarrow> ('n world, unit) io" where
  "os_Remove p = at_path p (\<lambda>q. syscall (OpRemove q) (\<lambda>w.
     if \<not> exists_at w q then (Err (Errno (missing_err w q)), w)
     else if q = [] then (Err (Errno EBUSY), w)
     else if has_children w q then (Err (Errno ENOTEMPTY), w)
     else (Ok (), fs_remove (\<lambda>r. r = q) w)))"

text \<open>\<open>os.RemoveAll\<close>: a missing path is no error; the root itself cannot be removed.\<close>

definition os_RemoveAll :: "string \<Rightarrow> ('n world, unit) io" where
  "os_RemoveAll p =
     (if p = '''' then ret ()
      else if p = ''.'' \<or> HasSuffix p ''/.'' then fail (Errno EINVAL)
      else at_path p (\<lambda>q. syscall (OpRemoveAll q) (\<lambda>w.
        if q = [] then (Err (Errno EBUSY), fs_remove (\<lambda>r. r \<noteq> []) w)
        else (Ok (), fs_remove (\<lambda>r. prefix q r) w))))"

text \<open>
  \<open>ioutil.ReadDir\<close>: the entries of a directory, without \<open>.\<close> and \<open>..\<close>, with what \<open>Lstat\<close> says
  of them, sorted by name.
\<close>

definition children :: "'n world \<Rightarrow> path \<Rightarrow> (string \<times> inode) list" where
  "children w q = map (\<lambda>kv. (last (fst kv), snd kv))
     (filter (\<lambda>kv. fst kv \<noteq> [] \<and> butlast (fst kv) = q \<and> plain_elem (last (fst kv))) (w_fs w))"

definition os_ReadDir :: "string \<Rightarrow> ('n world, (string \<times> inode) list) io" where
  "os_ReadDir p = at_path p (\<lambda>q. syscall (OpReadDir q) (seq (lookup_or_err q) (\<lambda>n.
     if i_kind n = KDir then gets (\<lambda>w. sort_key fst (children w q))
     else fail (Errno ENOTDIR))))"

definition file_Close :: "path \<Rightarrow> ('n world, unit) io" where
  "file_Close q = syscall (OpClose q) (ret ())"

text \<open>\<open>filepath.Abs\<close> asks for the working directory only when the path is relative.\<close>

definition filepath_Abs :: "string \<Rightarrow> ('n world, string) io" where
  "filepath_Abs p = (if IsAbs p then ret (Clean p)
     else syscall OpGetwd (gets (\<lambda>w. Join [w_cwd w, p])))"

text \<open>\<open>ioutil.TempFile\<close>: the first drawn name that is free, made with mode 0600.\<close>

definition ioutil_TempFile :: "string \<Rightarrow> string \<Rightarrow> ('n world, string) io" where
  "ioutil_TempFile dir pre = (\<lambda>w.
     let names = map (\<lambda>s. Join [dir, pre @ s]) (e_temp (w_env w) (w_tick w));
         free = filter (\<lambda>p. \<not> exists_at w (resolve (w_cwd w) p)) names
     in case free of [] \<Rightarrow> (Err (Errno EEXIST), w)
        | p # _ \<Rightarrow> at_path p (\<lambda>q. syscall (OpCreate q)
            (seq (create_entry (KFile '''') (octal3 6 0 0) q) (\<lambda>_. ret p))) w)"

text \<open>
  \<open>exec.Command(name, args...).Run()\<close> of a command that writes the one file \<open>out\<close>: its contents
  are what the environment says the command produces.
\<close>

definition run_command :: "string \<Rightarrow> string list \<Rightarrow> string \<Rightarrow> ('n world, unit) io" where
  "run_command name args out = at_path out (\<lambda>q. syscall (OpExec name args) (\<lambda>w.
     case e_run (w_env w) (name # args) (w_fs w) of
       None \<Rightarrow> (Err (Msg ''exit status 1''), w)
     | Some s \<Rightarrow> (case fs_get w q of
           Some n \<Rightarrow> (case i_kind n of
               KFile _ \<Rightarrow> (Ok (), fs_put q (n\<lparr>i_kind := KFile s\<rparr>) w)
             | _ \<Rightarrow> (Err (Msg ''exit status 1''), w))
         | None \<Rightarrow> if is_dir w (butlast q) then (Ok (), fs_put q (new_inode w (KFile s) (octal3 6 6 6)) w)
                  else (Err (Msg ''exit status 1''), w))))"

subsection \<open>Processes, signals and time\<close>

definition sys_Kill :: "int \<Rightarrow> int \<Rightarrow> ('n world, unit) io" where
  "sys_Kill pid sig = syscall (OpKill pid sig) (\<lambda>w.
     if e_alive (w_env w) (w_tick w) pid
     then (Ok (), if sig = 0 then w else w\<lparr>w_log := w_log w @ [Signalled pid sig]\<rparr>)
     else (Err (Errno ESRCH), w))"

text \<open>
  \<open>os.FindProcess\<close> never fails on Unix, and \<open>(*os.Process).Signal\<close> refuses the two process ids
  that stand for no process before it calls \<open>kill\<close>.
\<close>

definition os_Process_Signal :: "int \<Rightarrow> int \<Rightarrow> ('n world, unit) io" where
  "os_Process_Signal pid sig =
     (if pid = -1 then fail (Msg ''os: process already released'')
      else if pid = 0 then fail (Msg ''os: process not initialized'')
      else sys_Kill pid sig)"

definition time_Sleep :: "('n world, unit) io" where
  "time_Sleep = modify (\<lambda>w. w\<lparr>w_tick := Suc (w_tick w)\<rparr>)"

definition time_Now :: "('n world, string) io" where
  "time_Now = gets (\<lambda>w. e_now (w_env w) (w_tick w))"

text \<open>
  \<open>(*exec.Cmd).Start\<close> in the directory \<open>dir\<close> (empty: the caller's): the child's \<open>chdir\<close> must
  succeed.
\<close>

definition proc_Start :: "string \<Rightarrow> string list \<Rightarrow> string \<Rightarrow> ('n world, int) io" where
  "proc_Start path args dir = syscall (OpExec path args) (\<lambda>w.
     if dir \<noteq> '''' \<and> \<not> is_dir w (resolve (w_cwd w) dir)
     then (Err (Errno (if exists_at w (resolve (w_cwd w) dir) then ENOTDIR
                       else missing_err w (resolve (w_cwd w) dir))), w)
     else let pid = e_spawn (w_env w) (w_tick w)
       in (Ok pid, w\<lparr>w_log := w_log w @ [Started path args pid]\<rparr>))"

definition sys_Socketpair :: "('n world, unit) io" where
  "sys_Socketpair = syscall OpSocketpair (ret ())"

text \<open>
  Writing to one end of a new socket pair whose other end nobody reads yet: what does not fit in
  the kernel's buffer blocks for ever.
\<close>

definition sock_Write :: "string \<Rightarrow> ('n world, unit) io" where
  "sock_Write s = syscall (OpSend (length s)) (\<lambda>w.
     if length s \<le> e_sockbuf (w_env w) then (Ok (), w) else (Stop (Blocked ''socket''), w))"

definition os_Getenv :: "string \<Rightarrow> ('n world, string) io" where
  "os_Getenv k = gets (\<lambda>w. case map_of (e_vars (w_env w)) k of Some v \<Rightarrow> v | None \<Rightarrow> '''')"

subsection \<open>The working directory and more files\<close>

definition os_Chdir :: "string \<Rightarrow> ('n world, unit) io" where
  "os_Chdir p = at_path p (\<lambda>q. syscall (OpChdir q) (seq (lookup_or_err q) (\<lambda>n.
     if i_kind n = KDir then modify (\<lambda>w. w\<lparr>w_cwd := path_text q\<rparr>) else fail (Errno ENOTDIR))))"

definition os_Geteuid :: "('n world, int) io" where
  "os_Geteuid = gets (e_euid \<circ> w_env)"

text \<open>\<open>os.OpenFile\<close> with \<open>O_CREATE|O_EXCL\<close>, and with \<open>O_CREATE|O_TRUNC\<close>.\<close>

definition os_CreateExcl :: "string \<Rightarrow> mode \<Rightarrow> ('n world, path) io" where
  "os_CreateExcl p m = at_path p (\<lambda>q. syscall (OpCreate q) (seq (create_entry (KFile '''') m q) (\<lambda>_. ret q)))"

definition os_CreateTrunc :: "string \<Rightarrow> mode \<Rightarrow> ('n world, path) io" where
  "os_CreateTrunc p m = at_path p (\<lambda>q. syscall (OpCreate q) (\<lambda>w. case fs_get w q of
       Some n \<Rightarrow> if i_kind n = KDir then (Err (Errno EISDIR), w)
                  else (Ok q, fs_put q (truncate_inode n) w)
     | None \<Rightarrow> seq (create_entry (KFile '''') m q) (\<lambda>_. ret q) w))"

definition ioutil_WriteFile :: "string \<Rightarrow> string \<Rightarrow> mode \<Rightarrow> ('n world, unit) io" where
  "ioutil_WriteFile p s m = seq (os_CreateTrunc p m) (\<lambda>f.
     try_io (file_Write f s) (\<lambda>e. seq (ignore (file_Close f)) (\<lambda>_. fail e)) (\<lambda>_. file_Close f))"

text \<open>
  \<open>os.Rename\<close> of a file that is not a directory: it takes the place of what is at the new name,
  which must not be a directory.
\<close>

definition os_Rename :: "string \<Rightarrow> string \<Rightarrow> ('n world, unit) io" where
  "os_Rename old new = at_path old (\<lambda>p. at_path new (\<lambda>q. syscall (OpRename p q) (\<lambda>w. case fs_get w p of
       None \<Rightarrow> (Err (Errno (missing_err w p)), w)
     | Some n \<Rightarrow>
         if i_kind n = KDir \<or> is_dir w q then (Err (Errno EEXIST), w)
         else if \<not> is_dir w (butlast q) then (Err (Errno (missing_err w q)), w)
         else if p = q then (Ok (), w)
         else (Ok (), fs_put q n (fs_remove (\<lambda>r. r = p) w)))))"

subsection \<open>Descriptors\<close>

definition fresh_fd :: "nat list \<Rightarrow> nat" where
  "fresh_fd fds = Suc (fold max fds 2)"

definition os_Pipe :: "('n world, nat \<times> nat) io" where
  "os_Pipe = syscall OpPipe (\<lambda>w. let r = fresh_fd (w_fds w) in
     (Ok (r, Suc r), w\<lparr>w_fds := w_fds w @ [r, Suc r]\<rparr>))"

text \<open>The kernel releases the descriptor whatever \<open>close\<close> reports.\<close>

definition sys_Close :: "nat \<Rightarrow> ('n world, unit) io" where
  "sys_Close fd = modify (\<lambda>w. w\<lparr>w_fds := filter (\<lambda>f. f \<noteq> fd) (w_fds w)\<rparr>)"

definition sys_Fchown :: "nat \<Rightarrow> int \<Rightarrow> int \<Rightarrow> ('n world, unit) io" where
  "sys_Fchown fd u g = syscall (OpFchown (int fd)) (ret ())"

text \<open>\<open>os.OpenFile\<close> of a device, which gives a descriptor; the name must be there.\<close>

definition open_device :: "string \<Rightarrow> ('n world, nat) io" where
  "open_device p = at_path p (\<lambda>q. syscall (OpOpen q) (seq (lookup_or_err q) (\<lambda>_. \<lambda>w.
     let fd = fresh_fd (w_fds w) in (Ok fd, w\<lparr>w_fds := w_fds w @ [fd]\<rparr>))))"

definition sys_Dup3 :: "nat \<Rightarrow> nat \<Rightarrow> ('n world, unit) io" where
  "sys_Dup3 fd new = syscall (OpDup (int fd) (int new)) (ret ())"

definition sys_Ioctl :: "nat \<Rightarrow> ('n world, unit) io" where
  "sys_Ioctl request = syscall (OpIoctl request) (ret ())"

subsection \<open>Children\<close>

text \<open>\<open>wait4(-1, WNOHANG)\<close>: the id and status of a child that ended, 0 when none has, \<open>ECHILD\<close> without children.\<close>

definition sys_Wait4 :: "('n world, int \<times> int) io" where
  "sys_Wait4 = syscall OpWait (\<lambda>w. case w_children w of
       c # cs \<Rightarrow> (Ok c, w\<lparr>w_children := cs, w_log := w_log w @ [Reaped (fst c)]\<rparr>)
     | [] \<Rightarrow> if e_kids (w_env w) (w_tick w) then (Ok (0, 0), w) else (Err (Errno ECHILD), w))"

text \<open>Was the last process with this id waited for already?\<close>

definition was_reaped :: "event list \<Rightarrow> int \<Rightarrow> bool" where
  "was_reaped l pid = fold (\<lambda>ev b. case ev of
     Started _ _ p \<Rightarrow> if p = pid then False else b | Reaped p \<Rightarrow> if p = pid then True else b | _ \<Rightarrow> b) l False"

text \<open>
  \<open>(*exec.Cmd).Wait\<close>: \<open>ECHILD\<close> when the process was waited for already, else it blocks until the
  process ends, and reaps it. The exit status it also reports as an error is left out: no caller
  looks at it.
\<close>

definition proc_Wait :: "int \<Rightarrow> ('n world, unit) io" where
  "proc_Wait pid = syscall OpWait (\<lambda>w.
     if was_reaped (w_log w) pid then (Err (Errno ECHILD), w)
     else if e_exits (w_env w) (w_tick w) pid then
       (Ok (), w\<lparr>w_children := filter (\<lambda>c. fst c \<noteq> pid) (w_children w), w_log := w_log w @ [Reaped pid]\<rparr>)
     else (Stop (Blocked ''wait''), w))"

text \<open>
  Opening a FIFO for writing blocks until it has a reader; what is written then reaches the reader
  and leaves nothing in the tree.
\<close>

definition fifo_OpenWrite :: "path \<Rightarrow> ('n world, unit) io" where
  "fifo_OpenWrite q = syscall (OpOpen q) (seq (lookup_or_err q) (\<lambda>n. \<lambda>w.
     if i_kind n = KDir then (Err (Errno EISDIR), w)
     else if i_kind n = KFifo \<and> \<not> e_reader (w_env w) (w_tick w) q then (Stop (Blocked ''fifo''), w)
     else (Ok (), w\<lparr>w_log := w_log w @ [FifoOpened q]\<rparr>)))"

definition fifo_Write :: "path \<Rightarrow> ('n world, unit) io" where
  "fifo_Write q = syscall (OpWrite q) (ret ())"

text \<open>
  Waiting for a child that was given a text on its standard input; one that ended has been reaped.
\<close>

definition child_Wait :: "int \<Rightarrow> string \<Rightarrow> ('n world, child_end) io" where
  "child_Wait pid input = (\<lambda>w. case e_child (w_env w) (w_tick w) pid input of
       TooLate \<Rightarrow> (Ok TooLate, w\<lparr>w_tick := Suc (w_tick w)\<rparr>)
     | x \<Rightarrow> (Ok x, w\<lparr>w_tick := Suc (w_tick w), w_log := w_log w @ [Reaped pid]\<rparr>))"

definition os_Clearenv :: "('n world, unit) io" where
  "os_Clearenv = modify (\<lambda>w. w\<lparr>w_env := (w_env w)\<lparr>e_vars := []\<rparr>\<rparr>)"

text \<open>An operation of the network devices.\<close>

definition net_op :: "('n, 'a) io \<Rightarrow> ('n world, 'a) io" where
  "net_op m = zoom w_net (\<lambda>n w. w\<lparr>w_net := n\<rparr>) m"

end
