(* ===== verification/WorldFacts.thy ===== *)
theory WorldFacts
  imports World
begin

text \<open>
  What every system call leaves alone and keeps. Three families of rules in the collection
  \<open>pres\<close>: predicates that do not look at the files or the clock (\<open>fs_blind\<close>); the files outside
  a region of the tree (\<open>fs_agrees\<close>); and the well-formedness of the tree (\<open>fs_wf\<close>).
\<close>

subsection \<open>Reading after writing\<close>

lemma fs_get_put [simp]: "fs_get (fs_put p n w) q = (if q = p then Some n else fs_get w q)"
  by (simp add: fs_get_def fs_put_def AList.update_conv')

lemma fs_get_remove [simp]: "fs_get (fs_remove Q w) q = (if Q q then None else fs_get w q)"
  using map_of_filter_key [of "\<lambda>p. \<not> Q p" "w_fs w" q] by (simp add: fs_get_def fs_remove_def)

lemma fs_put_fields [simp]:
  "w_env (fs_put p n w) = w_env w" "w_tick (fs_put p n w) = w_tick w"
  "w_cwd (fs_put p n w) = w_cwd w" "w_umask (fs_put p n w) = w_umask w"
  "w_log (fs_put p n w) = w_log w" "w_net (fs_put p n w) = w_net w"
  "w_fds (fs_put p n w) = w_fds w" "w_children (fs_put p n w) = w_children w"
  by (simp_all add: fs_put_def)

lemma fs_remove_fields [simp]:
  "w_env (fs_remove Q w) = w_env w" "w_tick (fs_remove Q w) = w_tick w"
  "w_cwd (fs_remove Q w) = w_cwd w" "w_umask (fs_remove Q w) = w_umask w"
  "w_log (fs_remove Q w) = w_log w" "w_net (fs_remove Q w) = w_net w"
  "w_fds (fs_remove Q w) = w_fds w" "w_children (fs_remove Q w) = w_children w"
  by (simp_all add: fs_remove_def)

lemma fs_get_fields [simp]:
  "fs_get (w\<lparr>w_tick := t\<rparr>) p = fs_get w p" "fs_get (w\<lparr>w_umask := m\<rparr>) p = fs_get w p"
  "fs_get (w\<lparr>w_log := l\<rparr>) p = fs_get w p" "fs_get (w\<lparr>w_net := n\<rparr>) p = fs_get w p"
  "fs_get (w\<lparr>w_fds := fd\<rparr>) p = fs_get w p" "fs_get (w\<lparr>w_children := cs\<rparr>) p = fs_get w p"
  by (simp_all add: fs_get_def)

lemma is_dir_fields [simp]:
  "is_dir (w\<lparr>w_tick := t\<rparr>) p = is_dir w p" "is_dir (w\<lparr>w_umask := m\<rparr>) p = is_dir w p"
  "is_dir (w\<lparr>w_log := l\<rparr>) p = is_dir w p" "is_dir (w\<lparr>w_net := n\<rparr>) p = is_dir w p"
  "is_dir (w\<lparr>w_fds := fd\<rparr>) p = is_dir w p" "is_dir (w\<lparr>w_children := cs\<rparr>) p = is_dir w p"
  by (simp_all add: is_dir_def)

lemma is_dir_put:
  "is_dir (fs_put p n w) q = (if q = p then i_kind n = KDir else is_dir w q)"
  by (simp add: is_dir_def)

lemma is_dir_get: "fs_get w p = Some n \<Longrightarrow> is_dir w p = (i_kind n = KDir)"
  by (simp add: is_dir_def)

lemma is_dir_exists: "is_dir w p \<Longrightarrow> \<exists>n. fs_get w p = Some n \<and> i_kind n = KDir"
  by (auto simp: is_dir_def split: option.splits)

lemma kind_truncate [simp]: "(i_kind (truncate_inode n) = KDir) = (i_kind n = KDir)"
  by (cases "i_kind n") (auto simp: truncate_inode_def)

lemma kind_append [simp]: "(i_kind (append_inode s n) = KDir) = (i_kind n = KDir)"
  by (cases "i_kind n") (auto simp: append_inode_def)

lemma missing_err_cases: "missing_err w p = ENOENT \<or> missing_err w p = ENOTDIR"
  by (simp add: missing_err_def)

lemma fault_not_missing [simp]:
  "fault_errno f \<noteq> ENOENT" "fault_errno f \<noteq> EEXIST" "fault_errno f \<noteq> ENOTEMPTY"
  "fault_errno f \<noteq> ESRCH"
  by (cases f; simp)+

subsection \<open>Reading the result of a call\<close>

lemma os_Stat_run:
  "os_Stat p w =
    (if p = '''' then (Err (Errno ENOENT), w)
     else (case e_fault (w_env w) (w_tick w) (OpStat (resolve (w_cwd w) p)) of
         Some f \<Rightarrow> (Err (Errno (fault_errno f)), w\<lparr>w_tick := Suc (w_tick w)\<rparr>)
       | None \<Rightarrow> (case fs_get w (resolve (w_cwd w) p) of
             Some n \<Rightarrow> (Ok n, w\<lparr>w_tick := Suc (w_tick w)\<rparr>)
           | None \<Rightarrow> (Err (Errno (missing_err w (resolve (w_cwd w) p))), w\<lparr>w_tick := Suc (w_tick w)\<rparr>))))"
  by (auto simp: os_Stat_def at_path_def syscall_def lookup_or_err_def Let_def missing_err_def
      exists_at_def split: option.split)

lemma os_Stat_Ok:
  "os_Stat p w = (Ok n, w') \<Longrightarrow>
   p \<noteq> '''' \<and> fs_get w (resolve (w_cwd w) p) = Some n \<and> w' = w\<lparr>w_tick := Suc (w_tick w)\<rparr>"
  by (auto simp: os_Stat_run split: if_splits option.splits)

lemma os_Stat_state: "os_Stat p w = (r, w') \<Longrightarrow> \<exists>t. w' = w\<lparr>w_tick := t\<rparr>"
proof -
  show "os_Stat p w = (r, w') \<Longrightarrow> \<exists>t. w' = w\<lparr>w_tick := t\<rparr>"
    by (auto simp: os_Stat_run split: if_splits option.splits intro: exI [where x = "w_tick w"])
qed

subsection \<open>System calls and predicates\<close>

lemma preserves_syscall:
  assumes "\<And>w t. P w \<Longrightarrow> P (w\<lparr>w_tick := t\<rparr>)" and "preserves P m"
  shows "preserves P (syscall oper m)"
proof (rule preservesI)
  fix w r w' assume P: "P w" and run: "syscall oper m w = (r, w')"
  have "P (w\<lparr>w_tick := Suc (w_tick w)\<rparr>)" using assms(1) P by blast
  then show "P w'"
    using run assms(2) by (auto simp: syscall_def Let_def split: option.splits dest: preservesD)
qed

lemma preserves_at_path: "(\<And>q. preserves P (f q)) \<Longrightarrow> preserves P (at_path p f)"
  by (auto simp: preserves_def at_path_def)

text \<open>Predicates that look at neither the files nor the clock.\<close>

definition fs_blind :: "('n world \<Rightarrow> bool) \<Rightarrow> bool" where
  "fs_blind P \<longleftrightarrow> (\<forall>w F t. P (w\<lparr>w_fs := F, w_tick := t\<rparr>) = P w)"

named_theorems blind \<open>predicates that look at neither the files nor the clock\<close>

lemma fs_blind_env [blind]: "fs_blind (\<lambda>w. Q (w_env w) (w_cwd w) (w_log w) (w_net w))"
  by (simp add: fs_blind_def)

lemma fs_blind_net [blind]: "fs_blind (\<lambda>w. w_net w = n)"
  by (simp add: fs_blind_def)

lemma fs_blind_log [blind]: "fs_blind (\<lambda>w. w_log w = l)"
  by (simp add: fs_blind_def)

lemma fs_blind_cwd [blind]: "fs_blind (\<lambda>w. w_cwd w = c)"
  by (simp add: fs_blind_def)

lemma fs_blind_umask [blind]: "fs_blind (\<lambda>w. w_umask w = m)"
  by (simp add: fs_blind_def)

lemma fs_blindD:
  assumes "fs_blind P"
  shows "P (w\<lparr>w_tick := t\<rparr>) = P w" and "P (fs_put p n w) = P w" and "P (fs_remove Q w) = P w"
proof -
  have upd: "P (w\<lparr>w_fs := F, w_tick := t\<rparr>) = P w" for F t
    using assms by (simp add: fs_blind_def)
  show "P (w\<lparr>w_tick := t\<rparr>) = P w" using upd [where F = "w_fs w" and t = t] by simp
  show "P (fs_put p n w) = P w" using upd [where t = "w_tick w"] by (simp add: fs_put_def)
  show "P (fs_remove Q w) = P w" using upd [where t = "w_tick w"] by (simp add: fs_remove_def)
qed

lemma blind_syscall [pres]: "fs_blind P \<Longrightarrow> preserves P m \<Longrightarrow> preserves P (syscall oper m)"
  by (rule preserves_syscall) (auto simp: fs_blindD)

lemma blind_primitives:
  assumes "fs_blind P"
  shows "preserves P (lookup_or_err q)" and "preserves P (create_entry k m q)"
    and "preserves P (mkdir_missing m q)" and "preserves P (update_inode f q)"
  using assms
  by (auto simp: preserves_def lookup_or_err_def create_entry_def mkdir_missing_def update_inode_def
      fs_blindD split: option.splits)

lemma blind_os_ops [pres]:
  assumes "fs_blind P"
  shows "preserves P (os_Stat p)" and "preserves P (os_Mkdir p m)" and "preserves P (os_MkdirAll p m)"
    and "preserves P (sys_Mkfifo p m)" and "preserves P (sys_Mknod p m a b)"
    and "preserves P (os_Chown p u g)" and "preserves P (os_Chmod p m)" and "preserves P (os_Open p)"
    and "preserves P (file_Write q s)"
  using assms
  by (auto simp: os_Stat_def os_Mkdir_def os_MkdirAll_def sys_Mkfifo_def sys_Mknod_def os_Chown_def
      os_Chmod_def os_Open_def file_Write_def
      intro!: preserves_at_path blind_syscall blind_primitives preserves_for_each preserves_seq
        preserves_ret)

lemma blind_os_create [pres]:
  assumes "fs_blind P"
  shows "preserves P (os_Create p)" and "preserves P (os_OpenTrunc p)"
  unfolding os_Create_def os_OpenTrunc_def create_entry_def
  by (intro preserves_at_path blind_syscall assms;
      auto simp: preserves_def fs_blindD [OF assms] split: option.splits)+

lemma blind_os_read [pres]:
  assumes "fs_blind P"
  shows "preserves P (file_ReadAll q)" and "preserves P (fifo_ReadAll q)" and "preserves P (os_Remove p)"
    and "preserves P (os_RemoveAll p)" and "preserves P sys_Socketpair"
  unfolding file_ReadAll_def fifo_ReadAll_def os_Remove_def os_RemoveAll_def sys_Socketpair_def
  by (intro preserves_at_path blind_syscall preserves_if preserves_ret preserves_fail assms;
      auto simp: preserves_def fs_blindD [OF assms] split: option.splits kind.splits)+

lemma preserves_time_Sleep: "(\<And>w t. P w \<Longrightarrow> P (w\<lparr>w_tick := t\<rparr>)) \<Longrightarrow> preserves P time_Sleep"
  unfolding time_Sleep_def by (rule preserves_modify) auto

lemma preserves_time_Now [pres]: "preserves P time_Now"
  unfolding time_Now_def by (rule preserves_gets)

lemma preserves_os_Getenv [pres]: "preserves P (os_Getenv k)"
  unfolding os_Getenv_def by (rule preserves_gets)

lemma blind_time_Sleep [pres]: "fs_blind P \<Longrightarrow> preserves P time_Sleep"
  by (rule preserves_time_Sleep) (simp add: fs_blindD)

lemma blind_os_more [pres]:
  assumes "fs_blind P"
  shows "preserves P (os_ReadDir p)" and "preserves P (file_Close q)" and "preserves P (filepath_Abs p)"
    and "preserves P (run_command nm args p)"
proof -
  show "preserves P (os_ReadDir p)"
    unfolding os_ReadDir_def
    by (intro preserves_at_path blind_syscall preserves_seq preserves_if blind_primitives preserves_gets
        preserves_fail assms)
  show "preserves P (file_Close q)"
    unfolding file_Close_def by (intro blind_syscall preserves_ret assms)
  show "preserves P (filepath_Abs p)"
    unfolding filepath_Abs_def
    by (intro blind_syscall preserves_ret preserves_if preserves_gets assms)
  show "preserves P (run_command nm args p)"
    unfolding run_command_def
    by (intro preserves_at_path blind_syscall assms)
      (simp add: preserves_def fs_blindD [OF assms] split: option.split kind.split)
qed

lemma TempFile_run:
  "ioutil_TempFile d pre w = (Err (Errno EEXIST), w) \<or>
   (\<exists>p. \<not> exists_at w (resolve (w_cwd w) p) \<and> ioutil_TempFile d pre w =
      at_path p (\<lambda>q. syscall (OpCreate q)
        (seq (create_entry (KFile '''') (octal3 6 0 0) q) (\<lambda>_. ret p))) w)"
proof (cases "filter (\<lambda>p. \<not> exists_at w (resolve (w_cwd w) p))
    (map (\<lambda>s. Join [d, pre @ s]) (e_temp (w_env w) (w_tick w)))")
  case (Cons p ps)
  then have "\<not> exists_at w (resolve (w_cwd w) p)"
    by (metis (no_types, lifting) filter_eq_ConsD)
  with Cons show ?thesis by (auto simp: ioutil_TempFile_def Let_def)
qed (simp add: ioutil_TempFile_def)

lemma preserves_TempFile:
  assumes "\<And>p. preserves P (at_path p (\<lambda>q. syscall (OpCreate q)
      (seq (create_entry (KFile '''') (octal3 6 0 0) q) (\<lambda>_. ret p))))"
  shows "preserves P (ioutil_TempFile d pre)"
proof (rule preservesI)
  fix w r w' assume P: "P w" and run: "ioutil_TempFile d pre w = (r, w')"
  from TempFile_run [of d pre w] show "P w'"
  proof (elim disjE exE conjE)
    fix p assume "ioutil_TempFile d pre w = at_path p (\<lambda>q. syscall (OpCreate q)
        (seq (create_entry (KFile '''') (octal3 6 0 0) q) (\<lambda>_. ret p))) w"
    then show ?thesis using preservesD [OF assms [of p] _ P] run by metis
  qed (use P run in simp)
qed

lemma blind_TempFile [pres]: "fs_blind P \<Longrightarrow> preserves P (ioutil_TempFile d pre)"
  by (intro preserves_TempFile preserves_at_path blind_syscall preserves_seq blind_primitives preserves_ret)

text \<open>The umask alone is touched by \<open>Umask\<close>, the log alone by signals and new processes.\<close>

lemma preserves_sys_Umask: "(\<And>w m. P w \<Longrightarrow> P (w\<lparr>w_umask := m\<rparr>)) \<Longrightarrow> preserves P (sys_Umask m)"
  by (simp add: preserves_def sys_Umask_def)

lemma preserves_sys_Kill:
  "(\<And>w t. P w \<Longrightarrow> P (w\<lparr>w_tick := t\<rparr>)) \<Longrightarrow> (\<And>w l. P w \<Longrightarrow> P (w\<lparr>w_log := l\<rparr>)) \<Longrightarrow>
   preserves P (sys_Kill pid sig)"
  unfolding sys_Kill_def by (rule preserves_syscall) (auto simp: preserves_def)

lemma preserves_proc_Start:
  "(\<And>w t. P w \<Longrightarrow> P (w\<lparr>w_tick := t\<rparr>)) \<Longrightarrow> (\<And>w l. P w \<Longrightarrow> P (w\<lparr>w_log := l\<rparr>)) \<Longrightarrow>
   preserves P (proc_Start a b d)"
  unfolding proc_Start_def by (rule preserves_syscall) (auto simp: preserves_def Let_def)

text \<open>A signal that is only a probe leaves the log alone.\<close>

lemma probe_keeps_log [pres]:
  "fs_blind P \<Longrightarrow> preserves P (sys_Kill pid 0)"
  unfolding sys_Kill_def
  by (rule blind_syscall) (auto simp: preserves_def split: if_splits)

lemma probe_Process_Signal [pres]: "fs_blind P \<Longrightarrow> preserves P (os_Process_Signal pid 0)"
  unfolding os_Process_Signal_def by (intro pres)

lemma blind_sock_Write [pres]: "fs_blind P \<Longrightarrow> preserves P (sock_Write s)"
  unfolding sock_Write_def by (rule blind_syscall) (auto simp: preserves_def)

subsection \<open>Files outside a region\<close>

text \<open>
  \<open>fs_agrees c R f w\<close>: the working directory is \<open>c\<close> and, outside the region \<open>R\<close>, the files are
  those of \<open>f\<close>. An operation that keeps it for every \<open>f\<close> writes inside \<open>R\<close> only.
\<close>

definition fs_agrees :: "string \<Rightarrow> (path \<Rightarrow> bool) \<Rightarrow> (path \<Rightarrow> inode option) \<Rightarrow> 'n world \<Rightarrow> bool" where
  "fs_agrees c R f w \<longleftrightarrow> w_cwd w = c \<and> (\<forall>p. \<not> R p \<longrightarrow> fs_get w p = f p)"

lemma fs_agrees_fields [simp]:
  "fs_agrees c R f (w\<lparr>w_tick := t\<rparr>) = fs_agrees c R f w"
  "fs_agrees c R f (w\<lparr>w_umask := m\<rparr>) = fs_agrees c R f w"
  "fs_agrees c R f (w\<lparr>w_log := l\<rparr>) = fs_agrees c R f w"
  "fs_agrees c R f (w\<lparr>w_net := n\<rparr>) = fs_agrees c R f w"
  by (simp_all add: fs_agrees_def)

lemma agrees_cwd: "fs_agrees c R f w \<Longrightarrow> w_cwd w = c"
  by (simp add: fs_agrees_def)

lemma agrees_syscall [pres]:
  "preserves (fs_agrees c R f) m \<Longrightarrow> preserves (fs_agrees c R f) (syscall oper m)"
  by (rule preserves_syscall) auto

lemma agrees_at_path:
  "preserves (fs_agrees c R f) (g (resolve c p)) \<Longrightarrow> preserves (fs_agrees c R f) (at_path p g)"
  by (auto simp: preserves_def at_path_def fs_agrees_def)

lemma agrees_put: "R q \<Longrightarrow> fs_agrees c R f w \<Longrightarrow> fs_agrees c R f (fs_put q n w)"
  by (auto simp: fs_agrees_def)

lemma agrees_remove: "(\<And>q. Q q \<Longrightarrow> R q) \<Longrightarrow> fs_agrees c R f w \<Longrightarrow> fs_agrees c R f (fs_remove Q w)"
  by (auto simp: fs_agrees_def)

lemma agrees_read [pres]:
  "preserves (fs_agrees c R f) (os_Stat p)" "preserves (fs_agrees c R f) (os_Open p)"
  "preserves (fs_agrees c R f) (file_ReadAll q)" "preserves (fs_agrees c R f) (fifo_ReadAll q)"
  "preserves (fs_agrees c R f) (lookup_or_err q)" "preserves (fs_agrees c R f) sys_Socketpair"
  "preserves (fs_agrees c R f) time_Sleep" "preserves (fs_agrees c R f) (sys_Umask m)"
  "preserves (fs_agrees c R f) (sys_Kill pid sig)" "preserves (fs_agrees c R f) (proc_Start a b d)"
  unfolding os_Stat_def os_Open_def file_ReadAll_def fifo_ReadAll_def sys_Socketpair_def
  by ((intro agrees_at_path agrees_syscall pres preserves_time_Sleep preserves_sys_Umask
      preserves_sys_Kill preserves_proc_Start)?;
      auto simp: preserves_def lookup_or_err_def split: option.splits kind.splits)+

lemma agrees_Process_Signal [pres]: "preserves (fs_agrees c R f) (os_Process_Signal pid sig)"
  unfolding os_Process_Signal_def by (intro pres)

lemma agrees_sock_Write [pres]: "preserves (fs_agrees c R f) (sock_Write s)"
  unfolding sock_Write_def by (rule agrees_syscall) (auto simp: preserves_def)


lemma agrees_write [pres]:
  assumes "R (resolve c p)"
  shows "preserves (fs_agrees c R f) (os_Mkdir p m)" and "preserves (fs_agrees c R f) (sys_Mkfifo p m)"
    and "preserves (fs_agrees c R f) (sys_Mknod p m a b)"
    and "preserves (fs_agrees c R f) (os_Chown p u g)" and "preserves (fs_agrees c R f) (os_Chmod p m)"
    and "preserves (fs_agrees c R f) (os_Create p)" and "preserves (fs_agrees c R f) (os_OpenTrunc p)"
    and "preserves (fs_agrees c R f) (os_Remove p)"
  unfolding os_Mkdir_def sys_Mkfifo_def sys_Mknod_def os_Chown_def os_Chmod_def os_Create_def
    os_OpenTrunc_def os_Remove_def
  by (intro agrees_at_path agrees_syscall;
      use assms in \<open>auto simp: preserves_def create_entry_def update_inode_def
        split: option.splits intro!: agrees_put agrees_remove\<close>)+

lemma agrees_file_Write [pres]: "R q \<Longrightarrow> preserves (fs_agrees c R f) (file_Write q s)"
  unfolding file_Write_def
  by (intro agrees_syscall) (auto simp: preserves_def update_inode_def split: option.splits intro!: agrees_put)

lemma agrees_RemoveAll [pres]:
  assumes "\<And>r. prefix (resolve c p) r \<Longrightarrow> R r"
  shows "preserves (fs_agrees c R f) (os_RemoveAll p)"
  unfolding os_RemoveAll_def
  by (intro agrees_at_path agrees_syscall preserves_if preserves_ret preserves_fail;
      use assms in \<open>auto simp: preserves_def split: option.splits intro!: agrees_remove\<close>)

lemma agrees_MkdirAll [pres]:
  assumes "\<And>r. prefix r (resolve c p) \<Longrightarrow> R r \<or> (\<exists>n. f r = Some n \<and> i_kind n = KDir)"
  shows "preserves (fs_agrees c R f) (os_MkdirAll p m)"
proof -
  have one: "preserves (fs_agrees c R f) (mkdir_missing m r)" if "prefix r (resolve c p)" for r
    using assms [OF that]
    by (auto simp: preserves_def mkdir_missing_def fs_agrees_def split: option.splits)
  have loop: "preserves (fs_agrees c R f) (for_each rs (mkdir_missing m))"
    if "\<forall>r \<in> set rs. prefix r (resolve c p)" for rs
    using that by (induction rs) (auto intro!: pres one)
  then show ?thesis
    unfolding os_MkdirAll_def by (intro agrees_at_path agrees_syscall loop) simp
qed

lemma agrees_read_more [pres]:
  "preserves (fs_agrees c R f) (os_ReadDir p)" "preserves (fs_agrees c R f) (file_Close q)"
  "preserves (fs_agrees c R f) (filepath_Abs p)"
  unfolding os_ReadDir_def file_Close_def filepath_Abs_def
  by (intro agrees_at_path agrees_syscall preserves_seq preserves_if preserves_gets preserves_fail
      preserves_ret agrees_read)+

lemma agrees_run_command [pres]:
  "R (resolve c p) \<Longrightarrow> preserves (fs_agrees c R f) (run_command nm args p)"
  unfolding run_command_def
  by (intro agrees_at_path agrees_syscall)
    (simp add: preserves_def agrees_put split: option.split kind.split)

lemma agreesD:
  assumes "\<And>f. preserves (fs_agrees (w_cwd w) R f) m" and "m w = (r, w')"
  shows "\<not> R p \<Longrightarrow> fs_get w' p = fs_get w p" and "w_cwd w' = w_cwd w"
proof -
  have "fs_agrees (w_cwd w) R (fs_get w) w" by (simp add: fs_agrees_def)
  with assms have "fs_agrees (w_cwd w) R (fs_get w) w'" by (blast dest: preservesD)
  then show "\<not> R p \<Longrightarrow> fs_get w' p = fs_get w p" and "w_cwd w' = w_cwd w"
    by (auto simp: fs_agrees_def)
qed

subsection \<open>The tree stays a tree\<close>

text \<open>The root is a directory, every entry lies in a directory, and no path occurs twice.\<close>

definition fs_wf :: "'n world \<Rightarrow> bool" where
  "fs_wf w \<longleftrightarrow> distinct (map fst (w_fs w)) \<and> is_dir w [] \<and>
     (\<forall>p n. p \<noteq> [] \<longrightarrow> fs_get w p = Some n \<longrightarrow> is_dir w (butlast p))"

lemma fs_wf_fields [simp]:
  "fs_wf (w\<lparr>w_tick := t\<rparr>) = fs_wf w" "fs_wf (w\<lparr>w_umask := m\<rparr>) = fs_wf w"
  "fs_wf (w\<lparr>w_log := l\<rparr>) = fs_wf w" "fs_wf (w\<lparr>w_net := n\<rparr>) = fs_wf w"
  "fs_wf (w\<lparr>w_fds := fd\<rparr>) = fs_wf w" "fs_wf (w\<lparr>w_children := cs\<rparr>) = fs_wf w"
  by (simp_all add: fs_wf_def)

lemma fs_wf_put:
  assumes "fs_wf w" and "q = [] \<or> is_dir w (butlast q)" and "is_dir w q \<longrightarrow> i_kind n = KDir"
    and "q = [] \<longrightarrow> i_kind n = KDir"
  shows "fs_wf (fs_put q n w)"
proof -
  have "distinct (map fst (w_fs (fs_put q n w)))"
    using assms(1) by (simp add: fs_put_def fs_wf_def AList.distinct_update)
  moreover have "is_dir (fs_put q n w) (butlast p)"
    if "p \<noteq> []" and "fs_get (fs_put q n w) p = Some k" for p k
    using assms that by (cases "p = q") (auto simp: is_dir_put fs_wf_def)
  ultimately show ?thesis
    using assms by (auto simp: fs_wf_def is_dir_put)
qed

lemma fs_wf_update:
  assumes "fs_wf w" and "fs_get w q = Some n" and "(i_kind k = KDir) = (i_kind n = KDir)"
  shows "fs_wf (fs_put q k w)"
  using assms by (intro fs_wf_put) (auto simp: fs_wf_def is_dir_get)

lemma fs_wf_create: "fs_wf w \<Longrightarrow> is_dir w (butlast q) \<Longrightarrow> \<not> exists_at w q \<Longrightarrow> fs_wf (fs_put q n w)"
  by (rule fs_wf_put) (auto simp: exists_at_def is_dir_def fs_wf_def)

lemma fs_wf_new: "fs_wf w \<Longrightarrow> is_dir w (butlast q) \<Longrightarrow> fs_get w q = None \<Longrightarrow> fs_wf (fs_put q n w)"
  by (rule fs_wf_create) (simp_all add: exists_at_def)

lemma fs_wf_remove:
  assumes "fs_wf w" and "\<not> Q []"
    and "\<And>p. p \<noteq> [] \<Longrightarrow> exists_at w p \<Longrightarrow> Q (butlast p) \<Longrightarrow> Q p"
  shows "fs_wf (fs_remove Q w)"
proof -
  have dir: "is_dir (fs_remove Q w) p = (\<not> Q p \<and> is_dir w p)" for p
    by (simp add: is_dir_def)
  have "distinct (map fst (w_fs (fs_remove Q w)))"
    using assms(1) by (simp add: fs_remove_def fs_wf_def distinct_filter_key)
  then show ?thesis
    using assms by (auto simp: fs_wf_def dir exists_at_def split: if_splits)
qed

lemma prefix_butlast_cases: "prefix q p \<Longrightarrow> q = p \<or> prefix q (butlast p)"
  by (metis append_butlast_last_id butlast.simps(1) prefix_bot.bot_least prefix_order.order_antisym prefix_snoc)

lemma prefix_butlast_up: "p \<noteq> [] \<Longrightarrow> prefix q (butlast p) \<Longrightarrow> prefix q p"
  by (metis append_butlast_last_id prefix_prefix)

lemma key_of_get: "fs_get w p = Some n \<Longrightarrow> p \<in> fst ` set (w_fs w)"
  by (auto simp: fs_get_def dest: map_of_SomeD intro: rev_image_eqI)

lemma wf_create_entry: "preserves fs_wf (create_entry k m q)"
  by (auto simp: preserves_def create_entry_def intro: fs_wf_create)

lemma wf_update_inode:
  "(\<And>n. (i_kind (g n) = KDir) = (i_kind n = KDir)) \<Longrightarrow> preserves fs_wf (update_inode g q)"
  by (auto simp: preserves_def update_inode_def intro: fs_wf_update split: option.splits)

lemma for_each_append: "for_each (xs @ ys) body = seq (for_each xs body) (\<lambda>_. for_each ys body)"
proof (induction xs)
  case (Cons x xs)
  then show ?case
    by (auto simp: seq_def try_io_def fun_eq_iff split: prod.splits res.splits)
qed simp

text \<open>\<open>os.MkdirAll\<close> makes every missing directory on the way down, and its result is a directory.\<close>

lemma mkdir_prefixes:
  assumes "fs_wf w" and "for_each (prefixes q) (mkdir_missing m) w = (r, w')"
  shows "fs_wf w' \<and> (r = Ok () \<longrightarrow> is_dir w' q) \<and> (\<exists>u. r = Ok u \<or> r = Err (Errno ENOTDIR))"
  using assms
proof (induction q arbitrary: r w' rule: rev_induct)
  case Nil
  then have "is_dir w []" by (simp add: fs_wf_def)
  then have "mkdir_missing m [] w = (Ok (), w)"
    by (auto simp: mkdir_missing_def is_dir_def split: option.splits)
  with Nil \<open>is_dir w []\<close> show ?case by simp
next
  case (snoc x xs)
  obtain r1 w1 where first: "for_each (prefixes xs) (mkdir_missing m) w = (r1, w1)" by force
  note IH = snoc.IH [OF snoc.prems(1) first]
  show ?case
  proof (cases r1)
    case (Ok u)
    then have w1: "fs_wf w1" "is_dir w1 xs" using IH by auto
    have step: "mkdir_missing m (xs @ [x]) w1 = (r, w')"
      using snoc.prems(2) first Ok
      by (auto simp: prefixes_snoc for_each_append seq_def try_io_def split: prod.splits res.splits)
    then show ?thesis
      using w1
      by (auto simp: mkdir_missing_def is_dir_def new_inode_def split: option.splits if_splits
          intro!: fs_wf_put)
  next
    case (Err e)
    then show ?thesis
      using snoc.prems(2) first IH
      by (auto simp: prefixes_snoc for_each_append seq_def try_io_def)
  next
    case (Stop y)
    then show ?thesis using IH by auto
  qed
qed

lemma wf_syscall: "preserves fs_wf m \<Longrightarrow> preserves fs_wf (syscall oper m)"
  by (rule preserves_syscall) auto

lemma wf_MkdirAll [pres]: "preserves fs_wf (os_MkdirAll p m)"
  unfolding os_MkdirAll_def
  by (intro preserves_at_path wf_syscall) (auto intro!: preservesI dest: mkdir_prefixes)

lemma wf_read [pres]:
  "preserves fs_wf (os_Stat p)" "preserves fs_wf (os_Open p)" "preserves fs_wf (file_ReadAll q)"
  "preserves fs_wf (fifo_ReadAll q)" "preserves fs_wf sys_Socketpair" "preserves fs_wf time_Sleep"
  "preserves fs_wf (sys_Umask m)" "preserves fs_wf (sys_Kill pid sig)" "preserves fs_wf (proc_Start a b d)"
  unfolding os_Stat_def os_Open_def file_ReadAll_def fifo_ReadAll_def sys_Socketpair_def
  by ((intro preserves_at_path wf_syscall pres preserves_time_Sleep preserves_sys_Umask
      preserves_sys_Kill preserves_proc_Start)?;
      auto simp: preserves_def lookup_or_err_def split: option.splits kind.splits)+

lemma wf_more [pres]:
  "preserves fs_wf (os_ReadDir p)" "preserves fs_wf (file_Close q)" "preserves fs_wf (filepath_Abs p)"
  "preserves fs_wf (ioutil_TempFile d pre)"
proof -
  have lk: "preserves fs_wf (lookup_or_err q)" for q :: path
    by (simp add: preserves_def lookup_or_err_def split: option.split)
  show "preserves fs_wf (os_ReadDir p)" "preserves fs_wf (file_Close q)"
    "preserves fs_wf (filepath_Abs p)" "preserves fs_wf (ioutil_TempFile d pre)"
    unfolding os_ReadDir_def file_Close_def filepath_Abs_def
    by (intro preserves_TempFile preserves_at_path wf_syscall wf_create_entry preserves_seq preserves_if
        preserves_gets preserves_fail preserves_ret lk)+
qed

lemma wf_run_command [pres]: "preserves fs_wf (run_command nm args p)"
  unfolding run_command_def
  by (intro preserves_at_path wf_syscall)
    (auto simp: preserves_def split: option.split kind.split
      intro: fs_wf_update fs_wf_new)

lemma wf_Process_Signal [pres]: "preserves fs_wf (os_Process_Signal pid sig)"
  unfolding os_Process_Signal_def by (intro pres)

lemma wf_sock_Write [pres]: "preserves fs_wf (sock_Write s)"
  unfolding sock_Write_def by (rule wf_syscall) (auto simp: preserves_def)


lemma wf_write [pres]:
  "preserves fs_wf (os_Mkdir p m)" "preserves fs_wf (sys_Mkfifo p m)" "preserves fs_wf (sys_Mknod p m a b)"
  "preserves fs_wf (os_Chown p u g)" "preserves fs_wf (os_Chmod p m)" "preserves fs_wf (file_Write q s)"
  unfolding os_Mkdir_def sys_Mkfifo_def sys_Mknod_def os_Chown_def os_Chmod_def file_Write_def
  by (intro preserves_at_path wf_syscall wf_create_entry wf_update_inode; simp)+

lemma wf_open_write [pres]: "preserves fs_wf (os_Create p)" "preserves fs_wf (os_OpenTrunc p)"
  unfolding os_Create_def os_OpenTrunc_def create_entry_def
  by (intro preserves_at_path wf_syscall;
      auto simp: preserves_def split: option.splits intro: fs_wf_create fs_wf_update)+

lemma wf_Remove [pres]: "preserves fs_wf (os_Remove p)"
proof -
  have "fs_wf (fs_remove (\<lambda>r. r = q) w)"
    if "fs_wf w" "q \<noteq> []" "\<not> has_children w q" for q and w :: "'n world"
  proof (rule fs_wf_remove)
    fix p assume p: "p \<noteq> []" "exists_at w p" "butlast p = q"
    then have "p \<in> fst ` set (w_fs w)" by (auto simp: exists_at_def dest: key_of_get)
    moreover have "strict_prefix q p"
      using p by (metis append_butlast_last_id prefixI strict_prefix_def not_Cons_self2 self_append_conv)
    ultimately show "p = q" using that(3) by (auto simp: has_children_def list_ex_iff)
  qed (use that in auto)
  then show ?thesis
    unfolding os_Remove_def by (intro preserves_at_path wf_syscall) (auto simp: preserves_def)
qed

lemma wf_RemoveAll [pres]: "preserves fs_wf (os_RemoveAll p)"
proof -
  have "fs_wf (fs_remove (prefix q) w)" if "fs_wf w" "q \<noteq> []" for q and w :: "'n world"
    using that by (intro fs_wf_remove) (auto dest: prefix_butlast_up)
  moreover have "fs_wf (fs_remove (\<lambda>r. r \<noteq> []) w)" if "fs_wf w" for w :: "'n world"
    using that by (intro fs_wf_remove) auto
  ultimately show ?thesis
    unfolding os_RemoveAll_def
    by (intro preserves_at_path wf_syscall preserves_if preserves_ret preserves_fail)
      (auto simp: preserves_def)
qed

end
