(* ===== verification/Config.thy ===== *)
theory Config
  imports Paths
begin

text \<open>
  \<open>libcontainer/configs\<close>: the container's configuration and its derivation from an OCI runtime
  specification. The specification's types are those of \<open>runtime-spec/specs-go\<close>, with the fields
  this program reads. A Go slice is its list of elements, a nil slice being the empty one, except
  \<open>Process.Args\<close>, whose nil the code tests. A Go map that is only ranged over is the list of its
  entries in the order the range visits them.
\<close>

subsection \<open>The OCI specification\<close>

record Mount =
  mnt_Destination :: string
  mnt_Type :: string
  mnt_Source :: string
  mnt_Options :: "string list"

record Hook =
  hook_Path :: string
  hook_Args :: "string list"
  hook_Env :: "string list"
  hook_Timeout :: "int option"

record Hooks =
  hooks_Prestart :: "Hook list"
  hooks_Poststart :: "Hook list"
  hooks_Poststop :: "Hook list"

record Namespace =
  ns_Type :: string
  ns_Path :: string

record Memory =
  mem_Limit :: "int option"

record Resources =
  res_Memory :: "Memory option"

record Linux =
  linux_Namespaces :: "Namespace list"
  linux_Resources :: "Resources option"

record User =
  user_UID :: nat
  user_GID :: nat
  user_AdditionalGids :: "nat list"

record SpecProcess =
  sp_Terminal :: bool
  sp_User :: User
  sp_Args :: "string list option"
  sp_Env :: "string list"
  sp_Cwd :: string
  sp_NoNewPrivileges :: bool
  sp_ApparmorProfile :: string
  sp_OOMScoreAdj :: "int option"
  sp_SelinuxLabel :: string

record Spec =
  spec_Version :: string
  spec_Process :: "SpecProcess option"
  spec_Root :: "string option"
  spec_Mounts :: "Mount list"
  spec_Hooks :: "Hooks option"
  spec_Annotations :: "(string \<times> string) list"
  spec_Linux :: "Linux option"

definition NetworkNamespace :: string where
  "NetworkNamespace = ''network''"

subsection \<open>The configuration\<close>

record Config =
  cfg_Args :: "string list"
  cfg_Rootfs :: string
  cfg_Env :: "string list"
  cfg_Cwd :: string
  cfg_Version :: string
  cfg_Labels :: "string list"
  cfg_NetnsPath :: string
  cfg_Hooks :: "Hooks option"
  cfg_Memory :: int
  cfg_Mounts :: "Mount list"

definition HostUID :: "Config \<Rightarrow> int res" where
  "HostUID c = Ok 0"

definition HostGID :: "Config \<Rightarrow> int res" where
  "HostGID c = Ok 0"

definition ContainerMemoryMinimum :: int where
  "ContainerMemoryMinimum = 512"

text \<open>Go's \<open>/\<close> on signed integers truncates towards zero.\<close>

definition go_div :: "int \<Rightarrow> int \<Rightarrow> int" where
  "go_div a b = sgn a * sgn b * (\<bar>a\<bar> div \<bar>b\<bar>)"

fun last_netns :: "string \<Rightarrow> Namespace list \<Rightarrow> string" where
  "last_netns acc [] = acc"
| "last_netns acc (n # ns) =
     last_netns (if ns_Type n = NetworkNamespace then ns_Path n else acc) ns"

definition memory_limit :: "Spec \<Rightarrow> int option" where
  "memory_limit s = (case spec_Linux s of None \<Rightarrow> None | Some l \<Rightarrow>
     (case linux_Resources l of None \<Rightarrow> None | Some r \<Rightarrow>
     (case res_Memory r of None \<Rightarrow> None | Some m \<Rightarrow> mem_Limit m)))"

definition ParseSpec :: "Spec option \<Rightarrow> Config res" where
  "ParseSpec sp = (case sp of
     None \<Rightarrow> Err (Msg ''Spec is nil'')
   | Some s \<Rightarrow> (case Option.bind (spec_Process s) (\<lambda>p. map_option (Pair p) (sp_Args p)) of
       None \<Rightarrow> Err (Msg ''Process Args is nil'')
     | Some (p, args) \<Rightarrow> (case spec_Root s of
         None \<Rightarrow> Err (Msg ''Root is nil'')
       | Some rootfs \<Rightarrow>
           let labels = map (\<lambda>(k, v). k @ ''='' @ v) (spec_Annotations s);
               netnsPath = (case spec_Linux s of None \<Rightarrow> '''' | Some l \<Rightarrow> last_netns '''' (linux_Namespaces l));
               memory0 = (case memory_limit s of None \<Rightarrow> 0 | Some limit \<Rightarrow> go_div limit (2 ^ 20));
               memory = (if memory0 < ContainerMemoryMinimum then ContainerMemoryMinimum else memory0)
           in Ok \<lparr>cfg_Args = args, cfg_Rootfs = rootfs, cfg_Env = sp_Env p, cfg_Cwd = sp_Cwd p,
                  cfg_Version = spec_Version s, cfg_Labels = labels, cfg_NetnsPath = netnsPath,
                  cfg_Hooks = spec_Hooks s, cfg_Memory = memory, cfg_Mounts = spec_Mounts s\<rparr>)))"

subsection \<open>Facts\<close>

lemma last_netns_none:
  "\<forall>n \<in> set ns. ns_Type n \<noteq> NetworkNamespace \<Longrightarrow> last_netns acc ns = acc"
  by (induction ns arbitrary: acc) auto

lemma last_netns_append:
  "last_netns acc (ns @ ms) = last_netns (last_netns acc ns) ms"
  by (induction ns arbitrary: acc) auto

lemma last_netns_last:
  "ns_Type n = NetworkNamespace \<Longrightarrow> \<forall>m \<in> set post. ns_Type m \<noteq> NetworkNamespace \<Longrightarrow>
   last_netns acc (pre @ n # post) = ns_Path n"
  by (simp add: last_netns_append last_netns_none)

lemma go_div_MiB: "0 \<le> a \<Longrightarrow> go_div a (2 ^ 20) = a div 2 ^ 20"
  by (cases "a = 0") (auto simp: go_div_def)

lemma go_div_neg: "a \<le> 0 \<Longrightarrow> go_div a (2 ^ 20) \<le> 0"
  by (auto simp: go_div_def sgn_if pos_imp_zdiv_nonneg_iff)

lemma ParseSpec_Ok_iff:
  "(\<exists>c. ParseSpec sp = Ok c) \<longleftrightarrow>
   (\<exists>s p args r. sp = Some s \<and> spec_Process s = Some p \<and> sp_Args p = Some args \<and> spec_Root s = Some r)"
  by (auto simp: ParseSpec_def Let_def split: option.splits bind_splits)

end
