(* ===== verification/Errors.thy ===== *)
theory Errors
  imports Prelude
begin

text \<open>
  \<open>libcontainer/errors.go\<close> and \<open>libcontainer/generic_error.go\<close>: the API error codes and their
  texts, and the constructors of \<open>*genericError\<close>. The type assertion \<open>err.(Error)\<close> holds of
  \<open>Generic\<close> only: an error wrapped by \<open>fmt.Errorf\<close> or \<open>errors.Wrap\<close> is not an API error any more.
\<close>

fun ErrorCode_String :: "ErrorCode \<Rightarrow> string" where
  "ErrorCode_String IdInUse = ''Id already in use''"
| "ErrorCode_String InvalidIdFormat = ''Invalid format''"
| "ErrorCode_String ContainerPaused = ''Container paused''"
| "ErrorCode_String ConfigInvalid = ''Invalid configuration''"
| "ErrorCode_String SystemError = ''System error''"
| "ErrorCode_String ContainerNotExists = ''Container does not exist''"
| "ErrorCode_String ContainerNotStopped = ''Container is not stopped''"
| "ErrorCode_String ContainerNotRunning = ''Container is not running''"
| "ErrorCode_String ConsoleExists = ''Console exists for process''"
| "ErrorCode_String ContainerNotPaused = ''Container is not paused''"
| "ErrorCode_String NoProcessOps = ''No process operations''"
| "ErrorCode_String (UnknownErrorCode n) = ''Unknown error''"

text \<open>The values of the \<open>iota\<close> block.\<close>

fun ErrorCode_int :: "ErrorCode \<Rightarrow> int" where
  "ErrorCode_int IdInUse = 0"
| "ErrorCode_int InvalidIdFormat = 1"
| "ErrorCode_int ContainerNotExists = 2"
| "ErrorCode_int ContainerPaused = 3"
| "ErrorCode_int ContainerNotStopped = 4"
| "ErrorCode_int ContainerNotRunning = 5"
| "ErrorCode_int ContainerNotPaused = 6"
| "ErrorCode_int NoProcessOps = 7"
| "ErrorCode_int ConfigInvalid = 8"
| "ErrorCode_int ConsoleExists = 9"
| "ErrorCode_int SystemError = 10"
| "ErrorCode_int (UnknownErrorCode n) = n"

text \<open>\<open>err.(Error)\<close> and its \<open>Code()\<close>: \<open>None\<close> when the assertion fails.\<close>

fun api_code :: "goerr \<Rightarrow> ErrorCode option" where
  "api_code (Generic c e cause) = Some c"
| "api_code e = None"

definition newGenericError :: "goerr \<Rightarrow> ErrorCode \<Rightarrow> goerr" where
  "newGenericError err c = (if api_code err \<noteq> None then err else Generic c (Some err) '''')"

definition createSystemError :: "goerr \<Rightarrow> string \<Rightarrow> goerr" where
  "createSystemError err cause = Generic SystemError (Some err) cause"

definition newSystemError :: "goerr \<Rightarrow> goerr" where
  "newSystemError err = createSystemError err ''''"

definition newSystemErrorWithCause :: "goerr \<Rightarrow> string \<Rightarrow> goerr" where
  "newSystemErrorWithCause err cause = createSystemError err cause"

lemma newGenericError_code:
  "api_code (newGenericError err c) = Some (case api_code err of Some d \<Rightarrow> d | None \<Rightarrow> c)"
  by (auto simp: newGenericError_def)

lemma newSystemErrorWithCause_code [simp]:
  "api_code (newSystemErrorWithCause err cause) = Some SystemError"
  by (simp add: newSystemErrorWithCause_def createSystemError_def)

lemma newGenericError_Msg [simp]:
  "newGenericError (Msg s) c = Generic c (Some (Msg s)) ''''"
  "newGenericError (Errno n) c = Generic c (Some (Errno n)) ''''"
  by (simp_all add: newGenericError_def)

end
