(* ===== verification/Llif.thy ===== *)
theory Llif
  imports WorldFacts Config Errors
begin

text \<open>
  \<open>llif\<close>: the interface between the OCI front end and the low level handlers. A handler is a
  record of its three functions; a nil \<open>*LLState\<close> is \<open>None\<close>. The locales state what
  \<open>libcontainer\<close> relies on of each kind of handler: which part of the machine it may write,
  and that a destroyed file system leaves nothing of the container's directory.
\<close>

subsection \<open>States and inputs\<close>

text \<open>
  \<open>Options\<close> is the persisted map, as the list of its entries; an in-memory object
  (\<open>interface{}\<close>) is an opaque handle.
\<close>

record LLState =
  ll_Options :: "(string \<times> string) list"
  ll_InMemoryObjects :: "(string \<times> nat) list"

definition empty_LLState :: LLState where
  "empty_LLState = \<lparr>ll_Options = [], ll_InMemoryObjects = []\<rparr>"

record GenericInput =
  gi_ContainerId :: string
  gi_ContainerRoot :: string
  gi_Config :: Config
  gi_FsState :: "LLState option"
  gi_NetworkState :: "LLState option"
  gi_ExecState :: "LLState option"

type_synonym FsGenericInput = GenericInput
type_synonym NetworkGenericInput = GenericInput
type_synonym ExecGenericInput = GenericInput

subsection \<open>Handlers\<close>

record 'n FsHandler =
  FsCreateFunc :: "FsGenericInput \<Rightarrow> ('n world, LLState option) io"
  FsRunFunc :: "FsGenericInput \<Rightarrow> ('n world, LLState option) io"
  FsDestroyFunc :: "FsGenericInput \<Rightarrow> ('n world, LLState option) io"

record 'n NetworkHandler =
  NetworkCreateFunc :: "NetworkGenericInput \<Rightarrow> ('n world, LLState option) io"
  NetworkRunFunc :: "NetworkGenericInput \<Rightarrow> ('n world, LLState option) io"
  NetworkDestroyFunc :: "NetworkGenericInput \<Rightarrow> ('n world, LLState option) io"

record 'n ExecHandler =
  ExecCreateFunc :: "ExecGenericInput \<Rightarrow> ('n world, LLState option) io"
  ExecRunFunc :: "ExecGenericInput \<Rightarrow> ('n world, unit) io"
  ExecDestroyFunc :: "ExecGenericInput \<Rightarrow> ('n world, LLState option) io"

record 'n RunllcHandler =
  FsH :: "'n FsHandler"
  NetworkH :: "'n NetworkHandler"
  ExecH :: "'n ExecHandler"

subsection \<open>Contracts\<close>

text \<open>The files under a path given as text.\<close>

definition under :: "string \<Rightarrow> string \<Rightarrow> path \<Rightarrow> bool" where
  "under c p q = prefix (resolve c p) q"

text \<open>The ancestors of a path that exist as directories in a file map.\<close>

definition dirs_to :: "(path \<Rightarrow> inode option) \<Rightarrow> path \<Rightarrow> bool" where
  "dirs_to f p \<longleftrightarrow> (\<forall>q. prefix q p \<longrightarrow> (\<exists>n. f q = Some n \<and> i_kind n = KDir))"

text \<open>
  A file system handler keeps the tree well formed, touches no network device, sends no signal,
  writes only under the container's directory and its root file system, and, when its destroy
  succeeds, has removed the container's directory.
\<close>

locale fs_handler =
  fixes h :: "'n FsHandler"
  assumes fs_wf_keep: "preserves fs_wf (FsCreateFunc h i)" "preserves fs_wf (FsDestroyFunc h i)"
    and fs_blind_keep: "fs_blind P \<Longrightarrow> preserves P (FsCreateFunc h i)"
      "fs_blind P \<Longrightarrow> preserves P (FsDestroyFunc h i)"
    and fs_create_region:
      "IsAbs (gi_ContainerRoot i) \<Longrightarrow> IsAbs (cfg_Rootfs (gi_Config i)) \<Longrightarrow>
       dirs_to f (resolve c (cfg_Rootfs (gi_Config i))) \<Longrightarrow>
       preserves (fs_agrees c (\<lambda>q. under c (gi_ContainerRoot i) q \<or> under c (cfg_Rootfs (gi_Config i)) q) f)
         (FsCreateFunc h i)"
    and fs_run_pure: "snd (FsRunFunc h i w) = w"
    and fs_destroy_region:
      "preserves (fs_agrees c (under c (gi_ContainerRoot i)) f) (FsDestroyFunc h i)"
    and fs_destroy_removes:
      "IsAbs (gi_ContainerRoot i) \<Longrightarrow> FsDestroyFunc h i w = (Ok s, w') \<Longrightarrow>
       under (w_cwd w) (gi_ContainerRoot i) q \<Longrightarrow> fs_get w' q = None"

text \<open>Predicates a network handler cannot change: those that look only at the rest.\<close>

definition net_blind :: "('n world \<Rightarrow> bool) \<Rightarrow> bool" where
  "net_blind P \<longleftrightarrow> (\<forall>w F t n. P (w\<lparr>w_fs := F, w_tick := t, w_net := n\<rparr>) = P w)"

text \<open>
  A network handler may change the network devices and the device files under \<open>/dev/net\<close>; of
  the rest of the machine it changes nothing.
\<close>

definition dev_net :: "path \<Rightarrow> bool" where
  "dev_net q = prefix [''dev'', ''net''] q"

locale network_handler =
  fixes h :: "'n NetworkHandler"
  assumes net_wf_keep: "preserves fs_wf (NetworkCreateFunc h i)" "preserves fs_wf (NetworkDestroyFunc h i)"
    and net_blind_keep: "net_blind P \<Longrightarrow> preserves P (NetworkCreateFunc h i)"
      "net_blind P \<Longrightarrow> preserves P (NetworkDestroyFunc h i)"
      "net_blind P \<Longrightarrow> preserves P (NetworkRunFunc h i)"
    and net_region: "preserves (fs_agrees c dev_net f) (NetworkCreateFunc h i)"
      "preserves (fs_agrees c dev_net f) (NetworkDestroyFunc h i)"

text \<open>
  An execution handler creates and destroys nothing: only its run phase acts, which starts no process
  and sends no signal before the process image is replaced.
\<close>

locale exec_handler =
  fixes h :: "'n ExecHandler"
  assumes exec_create_pure: "snd (ExecCreateFunc h i w) = w"
    and exec_destroy_pure: "snd (ExecDestroyFunc h i w) = w"
    and exec_run_log: "preserves (\<lambda>w. w_log w = l) (ExecRunFunc h i)"

text \<open>A complete low level runtime.\<close>

locale runllc =
  fs: fs_handler "FsH H" + net: network_handler "NetworkH H" + exec: exec_handler "ExecH H"
  for H :: "'n RunllcHandler"

subsection \<open>Facts about regions\<close>

lemma fs_agrees_weaken:
  assumes "\<And>f. preserves (fs_agrees c R f) m" and "\<And>q. R q \<Longrightarrow> S q"
  shows "preserves (fs_agrees c S f) m"
proof (rule preservesI)
  fix w r w' assume *: "fs_agrees c S f w" and run: "m w = (r, w')"
  then have "fs_agrees c R (fs_get w) w" by (simp add: fs_agrees_def)
  then have "fs_agrees c R (fs_get w) w'" using assms(1) run by (blast dest: preservesD)
  then show "fs_agrees c S f w'" using * assms(2) unfolding fs_agrees_def by metis
qed

lemma net_blind_fs: "net_blind P \<Longrightarrow> fs_blind P"
  unfolding net_blind_def fs_blind_def
  by (metis (no_types, lifting) world.surjective world.update_convs(2,3,9))

lemma net_blind_intros [blind]:
  "net_blind (\<lambda>w. Q (w_env w) (w_cwd w) (w_umask w) (w_log w))"
  by (simp add: net_blind_def)

lemma preserves_pure: "(\<And>w. snd (m w) = w) \<Longrightarrow> preserves P m"
  by (simp add: preserves_def)

end
