(* ===== verification/CopyFiles.thy ===== *)
theory CopyFiles
  imports WorldFacts
begin

text \<open>
  \<open>utils/copy.go\<close> and \<open>utils/slice.go\<close>. The recursion of \<open>pcopy\<close> and \<open>dcopy\<close> descends one directory
  level per step; each level makes the destination path longer, and the kernel refuses a path of
  4096 bytes, so 4096 levels are more than any run takes: running out of them is \<open>ENAMETOOLONG\<close>.
\<close>

definition AddAbsentSlice :: "string list \<Rightarrow> string \<Rightarrow> string list" where
  "AddAbsentSlice xs add = (if list_ex (\<lambda>v. add = v) xs then xs else xs @ [add])"

definition PATH_MAX :: nat where
  "PATH_MAX = 4096"

definition fcopy :: "string \<Rightarrow> string \<Rightarrow> inode \<Rightarrow> ('n world, unit) io" where
  "fcopy dst src srcInfo =
     seq (os_Open src) (\<lambda>s.
     seq (try_io (os_Create dst)
            (\<lambda>err. if IsExist err then os_OpenTrunc dst else fail err)
            ret) (\<lambda>d.
     seq (seq (file_ReadAll s) (file_Write d)) (\<lambda>_.
     seq (os_Chmod dst (i_mode srcInfo)) (\<lambda>_.
     file_Close d))))"

fun pcopy :: "nat \<Rightarrow> string \<Rightarrow> string \<Rightarrow> inode \<Rightarrow> ('n world, unit) io"
  and dcopy :: "nat \<Rightarrow> string \<Rightarrow> string \<Rightarrow> inode \<Rightarrow> ('n world, unit) io" where
  "pcopy depth dst src srcInfo =
     (if i_kind srcInfo = KDir then dcopy depth dst src srcInfo else fcopy dst src srcInfo)"
| "dcopy 0 dst src srcInfo = fail (Errno ENAMETOOLONG)"
| "dcopy (Suc depth) dst src srcInfo =
     seq (os_MkdirAll dst (i_mode srcInfo)) (\<lambda>_.
     seq (os_ReadDir src) (\<lambda>infos.
     for_each infos (\<lambda>(name, info).
       if i_kind info = KDir then dcopy depth (Join [dst, name]) (Join [src, name]) info
       else fcopy (Join [dst, name]) (Join [src, name]) info)))"

definition Copy :: "string \<Rightarrow> string \<Rightarrow> ('n world, unit) io" where
  "Copy dst src = seq (os_Stat src) (pcopy PATH_MAX dst src)"

lemmas pcopy_def = pcopy.simps
declare pcopy.simps [simp del]

subsection \<open>What a copy keeps\<close>

lemma blind_fcopy [pres]: "fs_blind P \<Longrightarrow> preserves P (fcopy dst src i)"
  unfolding fcopy_def by (intro pres)

lemma blind_dcopy [pres]: "fs_blind P \<Longrightarrow> preserves P (dcopy n dst src i)"
proof (induction n arbitrary: dst src i)
  case 0
  show ?case unfolding dcopy.simps by (rule preserves_fail)
next
  case (Suc n)
  then show ?case unfolding dcopy.simps by (intro pres Suc.IH)
qed

lemma blind_Copy [pres]: "fs_blind P \<Longrightarrow> preserves P (Copy dst src)"
  unfolding Copy_def pcopy_def by (intro pres)

lemma wf_fcopy [pres]: "preserves fs_wf (fcopy dst src i)"
  unfolding fcopy_def by (intro pres)

lemma wf_dcopy [pres]: "preserves fs_wf (dcopy n dst src i)"
proof (induction n arbitrary: dst src i)
  case 0
  show ?case unfolding dcopy.simps by (rule preserves_fail)
next
  case (Suc n)
  then show ?case
    unfolding dcopy.simps
    by (intro preserves_seq preserves_for_each preserves_case_prod preserves_if wf_MkdirAll wf_more wf_fcopy Suc.IH)
qed

lemma wf_Copy [pres]: "preserves fs_wf (Copy dst src)"
  unfolding Copy_def pcopy_def by (intro pres)

text \<open>A copy writes at its destination and below.\<close>

definition writable_from :: "(path \<Rightarrow> bool) \<Rightarrow> (path \<Rightarrow> inode option) \<Rightarrow> path \<Rightarrow> bool" where
  "writable_from R f p \<longleftrightarrow> (\<forall>q. prefix p q \<longrightarrow> R q) \<and>
     (\<forall>q. prefix q p \<longrightarrow> R q \<or> (\<exists>n. f q = Some n \<and> i_kind n = KDir))"

lemma writable_from_at: "writable_from R f p \<Longrightarrow> R p"
  by (simp add: writable_from_def)

lemma writable_from_child: "writable_from R f p \<Longrightarrow> writable_from R f (p @ [x])"
  by (auto simp: writable_from_def) (metis append_prefixD)

lemma create_result:
  "os_Create p w = (Ok d, w') \<Longrightarrow> d = resolve (w_cwd w) p"
  "os_OpenTrunc p w = (Ok d, w') \<Longrightarrow> d = resolve (w_cwd w) p"
  by (auto simp: os_Create_def os_OpenTrunc_def at_path_def syscall_def Let_def
      split: option.splits if_splits prod.splits res.splits)

lemma agrees_fcopy:
  assumes "R (resolve c dst)"
  shows "preserves (fs_agrees c R f) (fcopy dst src i)"
proof -
  have wr: "preserves (fs_agrees c R f) (seq (file_ReadAll s) (file_Write (resolve c dst)))" for s
    using assms by (intro pres)
  have rest: "preserves (fs_agrees c R f)
      (seq (os_Chmod dst m) (\<lambda>_. file_Close d))" for m d
    using assms by (intro pres)
  have inner: "preserves (fs_agrees c R f)
     (seq (try_io (os_Create dst) (\<lambda>err. if IsExist err then os_OpenTrunc dst else fail err) ret)
       (\<lambda>d. seq (seq (file_ReadAll s) (file_Write d)) (\<lambda>_. seq (os_Chmod dst m) (\<lambda>_. file_Close d))))"
    for s m
  proof (rule preservesI)
    fix w r w'
    assume w: "fs_agrees c R f w"
      and run: "seq (try_io (os_Create dst) (\<lambda>err. if IsExist err then os_OpenTrunc dst else fail err) ret)
       (\<lambda>d. seq (seq (file_ReadAll s) (file_Write d)) (\<lambda>_. seq (os_Chmod dst m) (\<lambda>_. file_Close d))) w = (r, w')"
    let ?open = "try_io (os_Create dst) (\<lambda>err. if IsExist err then os_OpenTrunc dst else fail err) ret"
    obtain x t where o: "?open w = (x, t)" by force
    have "preserves (fs_agrees c R f) ?open" using assms by (intro pres)
    then have t: "fs_agrees c R f t" using o w by (rule preservesD)
    show "fs_agrees c R f w'"
    proof (cases x)
      case (Ok d)
      have "d = resolve c dst"
      proof (cases "os_Create dst w")
        case (Pair y u)
        have "preserves (fs_agrees c R f) (os_Create dst)" using assms by (intro pres)
        then have u: "fs_agrees c R f u" using Pair w by (rule preservesD)
        show ?thesis
          using o Ok Pair agrees_cwd [OF w] agrees_cwd [OF u]
          by (cases y) (auto split: if_splits dest: create_result)
      qed
      moreover have "preserves (fs_agrees c R f)
          (seq (seq (file_ReadAll s) (file_Write (resolve c dst)))
            (\<lambda>_. seq (os_Chmod dst m) (\<lambda>_. file_Close (resolve c dst))))"
        by (intro preserves_seq [OF wr] rest)
      ultimately show ?thesis using run o Ok t by (auto dest: preservesD)
    qed (use run o t in auto)
  qed
  show ?thesis
    unfolding fcopy_def by (intro preserves_seq [OF agrees_read(2)] inner)
qed

lemma ReadDir_plain:
  "os_ReadDir p w = (Ok infos, w') \<Longrightarrow> (name, i) \<in> set infos \<Longrightarrow> plain_elem name"
  by (auto simp: os_ReadDir_def at_path_def syscall_def Let_def lookup_or_err_def seq_Ok_iff children_def
      split: option.splits if_splits)

lemma preserves_seq_result:
  assumes "preserves P m" and "\<And>a s s'. m s = (Ok a, s') \<Longrightarrow> preserves P (k a)"
  shows "preserves P (seq m k)"
proof (rule preservesI)
  fix s r s' assume P: "P s" and run: "seq m k s = (r, s')"
  obtain x t where m: "m s = (x, t)" by force
  with assms(1) P have "P t" by (auto dest: preservesD)
  then show "P s'" using run m assms(2) by (cases x) (auto dest: preservesD)
qed

lemma preserves_for_each_set:
  "(\<And>x. x \<in> set xs \<Longrightarrow> preserves P (body x)) \<Longrightarrow> preserves P (for_each xs body)"
  by (induction xs) (auto intro!: pres)

lemma agrees_dcopy:
  assumes "IsAbs dst" and "writable_from R f (resolve c dst)"
  shows "preserves (fs_agrees c R f :: 'n world \<Rightarrow> bool) (dcopy n dst src i)"
  using assms
proof (induction n arbitrary: dst src i)
  case 0
  show ?case unfolding dcopy.simps by (rule preserves_fail)
next
  case (Suc n)
  have entry: "preserves (fs_agrees c R f :: 'n world \<Rightarrow> bool)
      (if i_kind j = KDir then dcopy n (Join [dst, x]) (Join [src, x]) j
       else fcopy (Join [dst, x]) (Join [src, x]) j)" if "plain_elem x" for x j
  proof -
    have "resolve c (Join [dst, x]) = resolve c dst @ [x]"
      using Suc.prems(1) that by (rule resolve_Join_plain)
    then have w: "writable_from R f (resolve c (Join [dst, x]))"
      using Suc.prems(2) by (simp add: writable_from_child)
    then show ?thesis
      by (intro preserves_if Suc.IH [OF IsAbs_Join [OF Suc.prems(1)] w] agrees_fcopy
          writable_from_at [OF w])
  qed
  have mk: "preserves (fs_agrees c R f :: 'n world \<Rightarrow> bool) (os_MkdirAll dst m)" for m
    using Suc.prems(2) by (intro agrees_MkdirAll) (auto simp: writable_from_def)
  show ?case
    unfolding dcopy.simps
    by (intro preserves_seq mk preserves_seq_result [OF agrees_read_more(1)] preserves_for_each_set)
      (auto intro: entry dest: ReadDir_plain)
qed

lemma agrees_Copy:
  "IsAbs dst \<Longrightarrow> writable_from R f (resolve c dst) \<Longrightarrow>
   preserves (fs_agrees c R f) (Copy dst src)"
  unfolding Copy_def pcopy_def
  by (intro preserves_seq agrees_read preserves_if agrees_dcopy agrees_fcopy)
    (auto intro: writable_from_at)

end
