(* ===== verification/IsoFs.thy ===== *)
theory IsoFs
  imports Llif CopyFiles
begin

text \<open>
  The file system handlers of \<open>llmodules/fs\<close> and the image builder of \<open>nabla-lib/storage\<close>, with the
  proof that both handlers meet the contract \<open>fs_handler\<close>. What \<open>genisoimage\<close> writes into the image
  is the environment's (\<open>e_run\<close>).
\<close>

subsection \<open>\<open>nabla-lib/storage\<close>\<close>

definition CreateDummy :: "('n world, string) io" where
  "CreateDummy = ioutil_TempFile ''/tmp'' ''nabla''"

definition iso_args :: "string \<Rightarrow> string \<Rightarrow> string list" where
  "iso_args fname absDir = [''-m'', ''dev'', ''-m'', ''sys'', ''-m'', ''proc'', ''-l'', ''-r'', ''-o'', fname, absDir]"

definition CreateIso :: "string \<Rightarrow> string option \<Rightarrow> ('n world, string) io" where
  "CreateIso dir target =
     seq (case target of
            None \<Rightarrow>
              seq (ioutil_TempFile ''/tmp'' ''nabla'') (\<lambda>f.
              seq (at_path f file_Close) (\<lambda>_. ret f))
          | Some t \<Rightarrow> map_err (\<lambda>e. Wrap e ''Unable to resolve abs target path'') (filepath_Abs t))
       (\<lambda>fname.
     seq (map_err (\<lambda>e. Wrap e ''Unable to resolve abs dir path'') (filepath_Abs dir)) (\<lambda>absDir.
     seq (map_err (\<lambda>e. Wrap e ''Unable to run geniso command'')
            (run_command ''genisoimage'' (iso_args fname absDir) fname)) (\<lambda>_.
     ret fname)))"

subsection \<open>\<open>llmodules/fs\<close>\<close>

definition copied_mounts :: "string list" where
  "copied_mounts = [''/etc/resolv.conf'', ''/etc/hosts'', ''/etc/hostname'']"

definition copy_mount :: "string \<Rightarrow> Mount \<Rightarrow> ('n world, unit) io" where
  "copy_mount rootfsPath mount =
     (if mnt_Destination mount \<in> set copied_mounts then
        let dest = Join [rootfsPath, mnt_Destination mount]; source = mnt_Source mount
        in map_err (\<lambda>e. Wrap e (''Unable to copy '' @ source @ '' to '' @ dest)) (Copy dest source)
      else ret ())"

definition createRootfsISO :: "Config \<Rightarrow> string \<Rightarrow> ('n world, string) io" where
  "createRootfsISO config containerRoot =
     (let rootfsPath = cfg_Rootfs config;
          targetISOPath = Join [containerRoot, ''rootfs.iso''];
          etc = Join [rootfsPath, ''/etc'']
      in seq (map_err (\<lambda>e. Wrap e (''Unable to create '' @ etc)) (os_MkdirAll etc (octal3 7 5 5))) (\<lambda>_.
         seq (for_each (cfg_Mounts config) (copy_mount rootfsPath)) (\<lambda>_.
         seq (map_err (\<lambda>e. Wrap e ''Error creating iso from rootfs'')
                (CreateIso rootfsPath (Some targetISOPath))) (\<lambda>_.
         ret targetISOPath))))"

definition iso_FsCreateFunc :: "FsGenericInput \<Rightarrow> ('n world, LLState option) io" where
  "iso_FsCreateFunc i =
     seq (map_err (\<lambda>e. Wrap e ''Unable to create rootfs ISO'')
            (createRootfsISO (gi_Config i) (gi_ContainerRoot i))) (\<lambda>fsPath.
     ret (Some (empty_LLState\<lparr>ll_Options := [(''FsPath'', fsPath)]\<rparr>)))"

definition iso_FsRunFunc :: "FsGenericInput \<Rightarrow> ('n world, LLState option) io" where
  "iso_FsRunFunc i = ret (gi_FsState i)"

definition iso_FsDestroyFunc :: "FsGenericInput \<Rightarrow> ('n world, LLState option) io" where
  "iso_FsDestroyFunc i = seq (os_RemoveAll (gi_ContainerRoot i)) (\<lambda>_. ret (gi_FsState i))"

definition iSOFsHandler :: "'n FsHandler" where
  "iSOFsHandler = \<lparr>FsCreateFunc = iso_FsCreateFunc, FsRunFunc = iso_FsRunFunc,
     FsDestroyFunc = iso_FsDestroyFunc\<rparr>"

definition noop_FsCreateFunc :: "FsGenericInput \<Rightarrow> ('n world, LLState option) io" where
  "noop_FsCreateFunc i = ret (Some empty_LLState)"

definition noop_FsRunFunc :: "FsGenericInput \<Rightarrow> ('n world, LLState option) io" where
  "noop_FsRunFunc i = ret (gi_FsState i)"

definition noop_FsDestroyFunc :: "FsGenericInput \<Rightarrow> ('n world, LLState option) io" where
  "noop_FsDestroyFunc i = seq (os_RemoveAll (gi_ContainerRoot i)) (\<lambda>_. ret (gi_FsState i))"

definition noopFsHandler :: "'n FsHandler" where
  "noopFsHandler = \<lparr>FsCreateFunc = noop_FsCreateFunc, FsRunFunc = noop_FsRunFunc,
     FsDestroyFunc = noop_FsDestroyFunc\<rparr>"

subsection \<open>The contract\<close>

lemma keep_CreateIso [pres]:
  "preserves fs_wf (CreateIso d t)" "fs_blind P \<Longrightarrow> preserves P (CreateIso d t)"
  unfolding CreateIso_def by (intro pres preserves_at_path wf_more wf_run_command; assumption?)+

lemma keep_createRootfsISO [pres]:
  "preserves fs_wf (createRootfsISO g r)" "fs_blind P \<Longrightarrow> preserves P (createRootfsISO g r)"
  unfolding createRootfsISO_def copy_mount_def
  by (intro pres wf_MkdirAll wf_Copy keep_CreateIso; assumption?)+

lemma split_etc_path:
  "d \<in> set copied_mounts \<Longrightarrow> \<exists>e. split_slash d = [[], ''etc'', e] \<and> plain_elem e"
  by (auto simp: copied_mounts_def plain_elem_def)

lemma etc_resolve:
  "IsAbs rootfs \<Longrightarrow> resolve c (Join [rootfs, ''/etc'']) = resolve c rootfs @ [''etc'']"
  by (simp add: resolve_Join_elems clean_step_def)

lemma mount_resolve:
  assumes "IsAbs rootfs" and "d \<in> set copied_mounts"
  shows "\<exists>e. resolve c (Join [rootfs, d]) = resolve c rootfs @ [''etc'', e]"
proof -
  obtain e where "split_slash d = [[], ''etc'', e]" and "plain_elem e"
    using split_etc_path [OF assms(2)] by blast
  then show ?thesis
    using assms(1) by (auto simp: resolve_Join_elems clean_step_def plain_elem_def)
qed

lemma rootfs_writable:
  assumes "dirs_to f p" and "\<And>q. prefix p q \<Longrightarrow> R q"
  shows "writable_from R f (p @ es)"
  unfolding writable_from_def
proof (intro conjI allI impI)
  fix q assume "prefix (p @ es) q"
  then show "R q" using assms(2) append_prefixD by blast
next
  fix q assume "prefix q (p @ es)"
  then consider "prefix q p" | "prefix p q"
    by (metis prefix_append prefixI prefix_order.order_refl same_prefix_prefix)
  then show "R q \<or> (\<exists>n. f q = Some n \<and> i_kind n = KDir)"
    using assms by cases (auto simp: dirs_to_def)
qed

lemma agrees_CreateIso:
  assumes "IsAbs t" and "R (resolve c (Clean t))"
  shows "preserves (fs_agrees c R f) (CreateIso d (Some t))"
proof -
  have main: "preserves (fs_agrees c R f)
      (seq (map_err h (filepath_Abs d)) (\<lambda>absDir.
       seq (map_err h' (run_command ''genisoimage'' (iso_args (Clean t) absDir) (Clean t))) (\<lambda>_. ret (Clean t))))" for h h'
    by (intro preserves_seq preserves_map_err agrees_read_more agrees_run_command preserves_ret) (rule assms(2))
  have err: "map_err h (ret (x :: string)) = ret x" for h x
    by (rule ext) (simp add: map_err_def try_io_def)
  have abs: "filepath_Abs t = ret (Clean t)"
    by (simp add: filepath_Abs_def assms(1))
  show ?thesis by (simp add: CreateIso_def abs err main)
qed

text \<open>Writing below the root file system and one file more.\<close>

lemma agrees_createRootfsISO:
  assumes root: "IsAbs r" and rootfs: "IsAbs (cfg_Rootfs g)"
    and wr: "\<And>es. writable_from R f (resolve c (cfg_Rootfs g) @ es)"
    and iso: "R (resolve c (Join [r, ''rootfs.iso'']))"
  shows "preserves (fs_agrees c R f) (createRootfsISO g r)"
proof -
  have mk: "preserves (fs_agrees c R f) (os_MkdirAll (Join [cfg_Rootfs g, ''/etc'']) m)" for m
    using wr [of "[''etc'']"]
    by (intro agrees_MkdirAll) (auto simp: etc_resolve [OF rootfs] writable_from_def)
  have mount: "preserves (fs_agrees c R f) (copy_mount (cfg_Rootfs g) mt)" for mt
    unfolding copy_mount_def Let_def
  proof (intro preserves_if preserves_map_err preserves_ret)
    assume "mnt_Destination mt \<in> set copied_mounts"
    then show "preserves (fs_agrees c R f) (Copy (Join [cfg_Rootfs g, mnt_Destination mt]) (mnt_Source mt))"
      using mount_resolve [OF rootfs, of "mnt_Destination mt" c] wr
      by (intro agrees_Copy IsAbs_Join rootfs) auto
  qed
  have iso_abs: "IsAbs (Join [r, ''rootfs.iso''])" by (rule IsAbs_Join [OF root])
  have "preserves (fs_agrees c R f) (CreateIso d (Some (Join [r, ''rootfs.iso''])))" for d
    using iso by (intro agrees_CreateIso iso_abs) (simp add: resolve_Clean [OF iso_abs])
  then show ?thesis
    unfolding createRootfsISO_def Let_def
    by (intro preserves_seq preserves_map_err preserves_for_each preserves_ret mk mount)
qed

lemma region_createRootfsISO:
  assumes root: "IsAbs r" and rootfs: "IsAbs (cfg_Rootfs g)"
    and dirs: "dirs_to f (resolve c (cfg_Rootfs g))"
  shows "preserves (fs_agrees c (\<lambda>q. under c r q \<or> under c (cfg_Rootfs g) q) f) (createRootfsISO g r)"
proof (rule agrees_createRootfsISO [OF root rootfs])
  show "writable_from (\<lambda>q. under c r q \<or> under c (cfg_Rootfs g) q) f (resolve c (cfg_Rootfs g) @ es)" for es
    by (rule rootfs_writable [OF dirs]) (simp add: under_def)
  show "under c r (resolve c (Join [r, ''rootfs.iso''])) \<or> under c (cfg_Rootfs g) (resolve c (Join [r, ''rootfs.iso'']))"
    by (simp add: under_def resolve_Join_plain [OF root] plain_elem_def)
qed

lemma RemoveAll_Ok:
  assumes "os_RemoveAll p w = (Ok u, w')" and "p \<noteq> ''''" and "prefix (resolve (w_cwd w) p) q"
  shows "fs_get w' q = None"
  using assms
  by (auto simp: os_RemoveAll_def at_path_def syscall_def Let_def split: if_splits option.splits)

lemma destroy_region_RemoveAll:
  "preserves (fs_agrees c (under c r) f) (seq (os_RemoveAll r) (\<lambda>_. ret s))"
  by (intro preserves_seq preserves_ret agrees_RemoveAll) (simp add: under_def)

interpretation iso: fs_handler iSOFsHandler
proof unfold_locales
  fix i :: GenericInput and P :: "'a world \<Rightarrow> bool" and c f
  show "preserves fs_wf (FsCreateFunc iSOFsHandler i)" "preserves fs_wf (FsDestroyFunc iSOFsHandler i)"
    by (simp_all add: iSOFsHandler_def iso_FsCreateFunc_def iso_FsDestroyFunc_def)
      (intro preserves_seq preserves_map_err preserves_ret keep_createRootfsISO wf_RemoveAll)+
  show "fs_blind P \<Longrightarrow> preserves P (FsCreateFunc iSOFsHandler i)"
    "fs_blind P \<Longrightarrow> preserves P (FsDestroyFunc iSOFsHandler i)"
    by (simp_all add: iSOFsHandler_def iso_FsCreateFunc_def iso_FsDestroyFunc_def)
      (intro preserves_seq preserves_map_err preserves_ret keep_createRootfsISO blind_os_read; assumption)+
  show "IsAbs (gi_ContainerRoot i) \<Longrightarrow> IsAbs (cfg_Rootfs (gi_Config i)) \<Longrightarrow>
       dirs_to f (resolve c (cfg_Rootfs (gi_Config i))) \<Longrightarrow>
       preserves (fs_agrees c (\<lambda>q. under c (gi_ContainerRoot i) q \<or> under c (cfg_Rootfs (gi_Config i)) q) f)
         (FsCreateFunc iSOFsHandler i)"
    by (simp add: iSOFsHandler_def iso_FsCreateFunc_def)
      (intro preserves_seq preserves_map_err preserves_ret region_createRootfsISO)
  show "preserves (fs_agrees c (under c (gi_ContainerRoot i)) f) (FsDestroyFunc iSOFsHandler i)"
    by (simp add: iSOFsHandler_def iso_FsDestroyFunc_def destroy_region_RemoveAll)
qed (auto simp: iSOFsHandler_def iso_FsRunFunc_def iso_FsDestroyFunc_def seq_Ok_iff under_def
  intro: RemoveAll_Ok [OF _ IsAbs_nonempty])

interpretation noop: fs_handler noopFsHandler
proof unfold_locales
  fix i :: GenericInput and P :: "'a world \<Rightarrow> bool" and c f
  show "preserves fs_wf (FsDestroyFunc noopFsHandler i)"
    by (simp add: noopFsHandler_def noop_FsDestroyFunc_def)
      (intro preserves_seq preserves_ret wf_RemoveAll)
  show "fs_blind P \<Longrightarrow> preserves P (FsDestroyFunc noopFsHandler i)"
    by (simp add: noopFsHandler_def noop_FsDestroyFunc_def)
      (intro preserves_seq preserves_ret blind_os_read; assumption)
  show "preserves (fs_agrees c (under c (gi_ContainerRoot i)) f) (FsDestroyFunc noopFsHandler i)"
    by (simp add: noopFsHandler_def noop_FsDestroyFunc_def destroy_region_RemoveAll)
qed (auto simp: noopFsHandler_def noop_FsCreateFunc_def noop_FsRunFunc_def noop_FsDestroyFunc_def
  seq_Ok_iff under_def preserves_def intro: RemoveAll_Ok [OF _ IsAbs_nonempty])

end
