(* ===== verification/GoNet.thy ===== *)
theory GoNet
  imports Paths
begin

unbundle bit_operations_syntax

text \<open>
  The parts of Go's \<open>net\<close> package the program uses: addresses and masks as byte slices,
  \<open>IP.String\<close>, \<open>IPMask.Size\<close>, \<open>CIDRMask\<close> and \<open>HardwareAddr.String\<close>.
\<close>

type_synonym byte = "8 word"
type_synonym IP = "byte list"
type_synonym IPMask = "byte list"
type_synonym HardwareAddr = "byte list"

subsection \<open>Masks\<close>

text \<open>\<open>for v&0x80 != 0 { n++; v <<= 1 }\<close>: the leading ones of a byte, and what is left of it.\<close>

fun leading_ones :: "nat \<Rightarrow> byte \<Rightarrow> nat \<times> byte" where
  "leading_ones 0 v = (0, v)"
| "leading_ones (Suc k) v =
     (if v AND 0x80 \<noteq> 0 then (case leading_ones k (push_bit 1 v) of (n, r) \<Rightarrow> (Suc n, r)) else (0, v))"

text \<open>\<open>simpleMaskLength\<close>: \<open>None\<close> is its -1, a mask that is not ones followed by zeros.\<close>

fun simpleMaskLength :: "IPMask \<Rightarrow> nat option" where
  "simpleMaskLength [] = Some 0"
| "simpleMaskLength (v # vs) =
     (if v = 0xff then map_option ((+) 8) (simpleMaskLength vs)
      else (case leading_ones 8 v of (n, r) \<Rightarrow>
        if r \<noteq> 0 \<or> list_ex (\<lambda>u. u \<noteq> 0) vs then None else Some n))"

definition IPMask_Size :: "IPMask \<Rightarrow> int \<times> int" where
  "IPMask_Size m = (case simpleMaskLength m of None \<Rightarrow> (0, 0) | Some n \<Rightarrow> (int n, int (8 * length m)))"

text \<open>\<open>net.CIDRMask(ones, bits)\<close> for a whole number of bytes.\<close>

fun CIDRMask_bytes :: "nat \<Rightarrow> nat \<Rightarrow> IPMask" where
  "CIDRMask_bytes ones 0 = []"
| "CIDRMask_bytes ones (Suc l) =
     (if 8 \<le> ones then 0xff # CIDRMask_bytes (ones - 8) l
      else NOT (drop_bit ones 0xff) # CIDRMask_bytes 0 l)"

lemma leading_ones_part:
  "n < 8 \<Longrightarrow> leading_ones 8 (NOT (drop_bit n 0xff)) = (n, 0)"
proof -
  assume "n < 8"
  then have "n \<in> {0, 1, 2, 3, 4, 5, 6, 7}" by auto
  then show ?thesis by (elim insertE emptyE; simp; code_simp)
qed

lemma CIDRMask_zero: "list_all (\<lambda>u. u = 0) (CIDRMask_bytes 0 l)"
proof -
  have "NOT (0xff :: byte) = 0" by code_simp
  then show ?thesis by (induction l) auto
qed

lemma part_byte_not_full: "n < 8 \<Longrightarrow> NOT (drop_bit n 0xff) \<noteq> (0xff :: byte)"
proof -
  assume "n < 8"
  then have "n \<in> {0, 1, 2, 3, 4, 5, 6, 7}" by auto
  then show ?thesis by (elim insertE emptyE; simp; code_simp)
qed

lemma simpleMaskLength_CIDRMask: "n \<le> 8 * l \<Longrightarrow> simpleMaskLength (CIDRMask_bytes n l) = Some n"
proof (induction l arbitrary: n)
  case (Suc l)
  show ?case
  proof (cases "8 \<le> n")
    case True
    then show ?thesis using Suc by simp
  next
    case False
    then have "\<not> list_ex (\<lambda>u. u \<noteq> 0) (CIDRMask_bytes 0 l)"
      using CIDRMask_zero [of l] by (auto simp: list_all_iff list_ex_iff)
    then show ?thesis
      using False part_byte_not_full [of n] leading_ones_part [of n] by simp
  qed
qed simp

lemma length_CIDRMask [simp]: "length (CIDRMask_bytes n l) = l"
  by (induction l arbitrary: n) auto

lemma IPMask_Size_CIDRMask: "n \<le> 32 \<Longrightarrow> IPMask_Size (CIDRMask_bytes n 4) = (int n, 32)"
  by (simp add: IPMask_Size_def simpleMaskLength_CIDRMask)

lemma leading_ones_le: "fst (leading_ones k v) \<le> k"
  by (induction k arbitrary: v) (auto split: prod.splits, metis fst_conv)

lemma simpleMaskLength_le: "simpleMaskLength m = Some n \<Longrightarrow> n \<le> 8 * length m"
proof (induction m arbitrary: n)
  case (Cons v vs)
  then show ?case
    using leading_ones_le [of 8 v] by (fastforce split: if_splits prod.splits)
qed simp

lemma IPMask_Size_bounds: "IPMask_Size m = (a, b) \<Longrightarrow> 0 \<le> a \<and> a \<le> b"
  by (auto simp: IPMask_Size_def dest!: simpleMaskLength_le split: option.splits)

subsection \<open>Text\<close>

definition hex_digit :: "nat \<Rightarrow> char" where
  "hex_digit d = ''0123456789abcdef'' ! d"

definition hex_byte :: "byte \<Rightarrow> string" where
  "hex_byte b = [hex_digit (unat b div 16), hex_digit (unat b mod 16)]"

text \<open>\<open>appendHex\<close>: a 16-bit group without leading zeros.\<close>

fun hex_text :: "nat \<Rightarrow> string" where
  "hex_text n = (if n < 16 then [hex_digit n] else hex_text (n div 16) @ [hex_digit (n mod 16)])"

declare hex_text.simps [simp del]

definition HardwareAddr_String :: "HardwareAddr \<Rightarrow> string" where
  "HardwareAddr_String a = join_with '':'' (map hex_byte a)"

definition To4 :: "IP \<Rightarrow> IP option" where
  "To4 ip = (if length ip = 4 then Some ip
     else if length ip = 16 \<and> take 12 ip = replicate 10 0 @ [0xff, 0xff] then Some (drop 12 ip)
     else None)"

definition dotted :: "IP \<Rightarrow> string" where
  "dotted ip = join_with ''.'' (map (\<lambda>b. nat_text (unat b)) ip)"

fun groups16 :: "IP \<Rightarrow> nat list" where
  "groups16 (a # b # rest) = (256 * unat a + unat b) # groups16 rest"
| "groups16 _ = []"

text \<open>The first longest run of zero groups: its start and its length.\<close>

fun best_run :: "nat \<Rightarrow> nat list \<Rightarrow> nat \<times> nat" where
  "best_run i [] = (0, 0)"
| "best_run i (g # gs) =
     (let here = length (takeWhile (\<lambda>x. x = 0) (g # gs)); later = best_run (Suc i) gs
      in if snd later \<le> here then (i, here) else later)"

definition ip6_text :: "IP \<Rightarrow> string" where
  "ip6_text ip =
     (let gs = groups16 ip; (e0, len) = best_run 0 gs; txt = (\<lambda>hs. join_with '':'' (map hex_text hs))
      in if len < 2 then txt gs else txt (take e0 gs) @ ''::'' @ txt (drop (e0 + len) gs))"

definition IP_String :: "IP \<Rightarrow> string" where
  "IP_String ip =
     (if ip = [] then ''<nil>''
      else case To4 ip of
        Some p4 \<Rightarrow> dotted p4
      | None \<Rightarrow> if length ip = 16 then ip6_text ip else CHR ''?'' # concat (map hex_byte ip))"

subsection \<open>Parsing\<close>

text \<open>\<open>strings.Split(s, sep)\<close> for a separator of one character.\<close>

fun split_on :: "char \<Rightarrow> string \<Rightarrow> string list" where
  "split_on d [] = [[]]"
| "split_on d (c # s) = (if c = d then [] # split_on d s
     else (case split_on d s of w # ws \<Rightarrow> (c # w) # ws | [] \<Rightarrow> [[c]]))"

definition hex_digit_val :: "char \<Rightarrow> nat option" where
  "hex_digit_val c = (let n = (of_char c :: nat) in
     if 48 \<le> n \<and> n \<le> 57 then Some (n - 48)
     else if 97 \<le> n \<and> n \<le> 102 then Some (n - 87)
     else if 65 \<le> n \<and> n \<le> 70 then Some (n - 55) else None)"

text \<open>A decimal field of at most \<open>m\<close>; \<open>dtoi\<close> gives up at 0xFFFFFF.\<close>

definition dec_field :: "nat \<Rightarrow> string \<Rightarrow> nat option" where
  "dec_field m s = (if s \<noteq> '''' \<and> list_all is_digit s \<and> nat_of_digits 0 s < 0xFFFFFF \<and> nat_of_digits 0 s \<le> m
     then Some (nat_of_digits 0 s) else None)"

definition v4_prefix :: IP where "v4_prefix = replicate 10 0 @ [0xff, 0xff]"

text \<open>\<open>parseIPv4\<close>: the 16-byte form of four decimal fields.\<close>

definition parseIPv4 :: "string \<Rightarrow> IP option" where
  "parseIPv4 s = (case map (dec_field 255) (split_on (CHR ''.'') s) of
     [Some a, Some b, Some c, Some d] \<Rightarrow> Some (v4_prefix @ map of_nat [a, b, c, d])
   | _ \<Rightarrow> None)"

text \<open>\<open>xtoi\<close>: the hexadecimal digits at the start, at least one, below 0xFFFFFF; the rest.\<close>

definition xtoi :: "string \<Rightarrow> (nat \<times> string) option" where
  "xtoi s = (let ds = takeWhile (\<lambda>c. hex_digit_val c \<noteq> None) s;
                n = fold (\<lambda>c a. 16 * a + the (hex_digit_val c)) ds 0
     in if ds = '''' \<or> 0xFFFFFF \<le> n then None else Some (n, drop (length ds) s))"

text \<open>
  The loop of \<open>parseIPv6\<close>: \<open>k\<close> groups are still to come, \<open>acc\<close> are the bytes so far, \<open>e\<close> is the
  place of the ellipsis. The result is the bytes and the place of the ellipsis.
\<close>

fun v6_loop :: "nat \<Rightarrow> IP \<Rightarrow> nat option \<Rightarrow> string \<Rightarrow> (IP \<times> nat option) option" where
  "v6_loop 0 acc e s = (if s = '''' then Some (acc, e) else None)"
| "v6_loop (Suc k) acc e s = (case xtoi s of None \<Rightarrow> None | Some (n, r) \<Rightarrow>
     if 0xFFFF < n then None
     else if r \<noteq> '''' \<and> hd r = CHR ''.'' then
       (if (e = None \<and> length acc \<noteq> 12) \<or> 16 < length acc + 4 then None
        else map_option (\<lambda>ip. (acc @ drop 12 ip, e)) (parseIPv4 s))
     else let acc' = acc @ [of_nat (n div 256), of_nat (n mod 256)] in
       (case r of [] \<Rightarrow> Some (acc', e)
        | c # t \<Rightarrow> if c \<noteq> CHR '':'' \<or> t = '''' then None
            else if hd t = CHR '':'' then
              (if e \<noteq> None then None
               else if tl t = '''' then Some (acc', Some (length acc')) else v6_loop k acc' (Some (length acc')) (tl t))
            else v6_loop k acc' e t))"

definition v6_expand :: "IP \<times> nat option \<Rightarrow> IP option" where
  "v6_expand r = (case r of (acc, e) \<Rightarrow>
     if length acc < 16 then
       (case e of None \<Rightarrow> None
        | Some i \<Rightarrow> Some (take i acc @ replicate (16 - length acc) 0 @ drop i acc))
     else if e = None then Some acc else None)"

definition parseIPv6 :: "string \<Rightarrow> IP option" where
  "parseIPv6 s = (if HasPrefix s ''::'' then
       (if drop 2 s = '''' then Some (replicate 16 0)
        else Option.bind (v6_loop 8 [] (Some 0) (drop 2 s)) v6_expand)
     else Option.bind (v6_loop 8 [] None s) v6_expand)"

text \<open>\<open>net.ParseIP\<close>: the first dot or colon decides the family.\<close>

definition ParseIP :: "string \<Rightarrow> IP option" where
  "ParseIP s = (case dropWhile (\<lambda>c. c \<noteq> CHR ''.'' \<and> c \<noteq> CHR '':'') s of
     [] \<Rightarrow> None | c # _ \<Rightarrow> if c = CHR ''.'' then parseIPv4 s else parseIPv6 s)"

text \<open>\<open>net.ParseCIDR\<close>: the address and the mask of the network.\<close>

definition ParseCIDR :: "string \<Rightarrow> (IP \<times> IPMask) option" where
  "ParseCIDR s =
     (let a = takeWhile (\<lambda>c. c \<noteq> CHR ''/'') s; m = drop (Suc (length a)) s
      in if CHR ''/'' \<notin> set s then None
         else (case parseIPv4 a of
             Some ip \<Rightarrow> map_option (\<lambda>n. (ip, CIDRMask_bytes n 4)) (dec_field 32 m)
           | None \<Rightarrow> (case parseIPv6 a of None \<Rightarrow> None
               | Some ip \<Rightarrow> map_option (\<lambda>n. (ip, CIDRMask_bytes n 16)) (dec_field 128 m))))"

text \<open>\<open>net.ParseMAC\<close> of the three accepted forms, for addresses of 6, 8 or 20 bytes.\<close>

definition hex_bytes :: "nat \<Rightarrow> string \<Rightarrow> HardwareAddr option" where
  "hex_bytes n s = (let vs = map hex_digit_val s in
     if length s = 2 * n \<and> None \<notin> set vs
     then Some (map (\<lambda>i. of_nat (16 * the (vs ! (2 * i)) + the (vs ! (2 * i + 1)))) [0..<n]) else None)"

definition mac_groups :: "nat \<Rightarrow> string list \<Rightarrow> HardwareAddr option" where
  "mac_groups n gs = (let bs = map (hex_bytes n) gs in
     if None \<in> set bs \<or> n * length gs \<notin> {6, 8, 20} then None else Some (concat (map the bs)))"

definition ParseMAC :: "string \<Rightarrow> HardwareAddr option" where
  "ParseMAC s = (if length s < 14 then None
     else if s ! 2 = CHR '':'' \<or> s ! 2 = CHR ''-'' then mac_groups 1 (split_on (s ! 2) s)
     else if s ! 4 = CHR ''.'' then mac_groups 2 (split_on (CHR ''.'') s) else None)"

end
