(* ===== verification/Netlib.thy ===== *)
theory Netlib
  imports WorldFacts GoNet
begin

text \<open>
  \<open>nabla-lib/network/network_linux.go\<close>: the tun device node, TAP and macvtap interfaces and the
  bridge. The netlink package is a parameter: the record \<open>netlink\<close> of the calls the file makes,
  acting on a network state of its own type.
\<close>

subsection \<open>The netlink package's interface\<close>

datatype LinkKind = Bridge | TuntapTap | MacvtapBridge | OtherLink string

record Link =
  la_kind :: LinkKind
  la_Name :: string
  la_Index :: int
  la_TxQLen :: int
  la_ParentIndex :: int
  la_HardwareAddr :: HardwareAddr

record Addr =
  a_IP :: IP
  a_Mask :: IPMask

record Route =
  rt_Gw :: IP

text \<open>\<open>LinkAdd\<close> returns the link as the package leaves it (it may fill in the index).\<close>

record 'n netlink =
  nl_NewHandle :: "('n, unit) io"
  nl_HandleLinkAdd :: "Link \<Rightarrow> ('n, Link) io"
  nl_LinkAdd :: "Link \<Rightarrow> ('n, Link) io"
  nl_LinkDel :: "Link \<Rightarrow> ('n, unit) io"
  nl_LinkSetUp :: "Link \<Rightarrow> ('n, unit) io"
  nl_LinkByName :: "string \<Rightarrow> ('n, Link) io"
  nl_AddrList :: "Link \<Rightarrow> ('n, Addr list) io"
  nl_AddrAdd :: "Link \<Rightarrow> Addr \<Rightarrow> ('n, unit) io"
  nl_AddrDel :: "Link \<Rightarrow> Addr \<Rightarrow> ('n, unit) io"
  nl_RouteList :: "Link \<Rightarrow> ('n, Route list) io"
  nl_LinkSetHardwareAddr :: "Link \<Rightarrow> HardwareAddr \<Rightarrow> ('n, unit) io"
  nl_LinkSetMaster :: "Link \<Rightarrow> Link \<Rightarrow> ('n, unit) io"
  nl_ParseAddr :: "string \<Rightarrow> goerr + Addr"

definition NewLink :: "LinkKind \<Rightarrow> string \<Rightarrow> Link" where
  "NewLink k name = \<lparr>la_kind = k, la_Name = name, la_Index = 0, la_TxQLen = 0, la_ParentIndex = 0,
     la_HardwareAddr = []\<rparr>"

text \<open>\<open>netlink.NewLinkAttrs()\<close> sets the queue length to -1, a literal leaves it 0.\<close>

definition NewLinkAttrs :: "LinkKind \<Rightarrow> string \<Rightarrow> Link" where
  "NewLinkAttrs k name = (NewLink k name)\<lparr>la_TxQLen := -1\<rparr>"

definition MaskCIDR :: "IPMask \<Rightarrow> int" where
  "MaskCIDR m = fst (IPMask_Size m)"

subsection \<open>The tun device\<close>

definition tun_path :: string where "tun_path = ''/dev/net/tun''"

definition rdev :: "kind \<Rightarrow> nat \<times> nat" where
  "rdev k = (case k of KChr major minor \<Rightarrow> (major, minor) | _ \<Rightarrow> (0, 0))"

definition verifyTunDevice :: "('n world, unit) io" where
  "verifyTunDevice = seq (os_Stat tun_path) (\<lambda>st. case rdev (i_kind st) of (major, minor) \<Rightarrow>
     if major \<noteq> 10 \<or> minor \<noteq> 200
     then fail (Msg (''Expected /dev/net/tun to have M/m 10/200, got '' @ nat_text major @ ''/'' @ nat_text minor))
     else ret ())"

definition createTunDevice :: "('n world, unit) io" where
  "createTunDevice =
     seq (try_io (os_Stat ''/dev/net'')
       (\<lambda>e. if IsNotExist e then os_Mkdir ''/dev/net'' (octal3 7 5 5) else fail e)
       (\<lambda>devNetInfo. if i_kind devNetInfo \<noteq> KDir then fail (Msg ''/dev/net is not a directory'') else ret ()))
     (\<lambda>_. sys_Mknod tun_path (octal3 6 6 6) 10 200)"

definition SetupTunDev :: "('n world, unit) io" where
  "SetupTunDev = try_io verifyTunDevice
     (\<lambda>_. seq (map_err (\<lambda>e. Errorf ''Unable to create /dev/net/tun: '' e '''') createTunDevice)
       (\<lambda>_. verifyTunDevice))
     ret"

subsection \<open>TAP interfaces\<close>

definition CreateBridge :: "'n netlink \<Rightarrow> string \<Rightarrow> ('n world, Link) io" where
  "CreateBridge nl bridgeName =
     map_err (\<lambda>e. Errorf (''could not add '' @ bridgeName @ '': '') e '''')
       (net_op (nl_LinkAdd nl (NewLinkAttrs Bridge bridgeName)))"

definition add_address :: "'n netlink \<Rightarrow> Link \<Rightarrow> IP option \<Rightarrow> IPMask option \<Rightarrow> ('n world, unit) io" where
  "add_address nl tap ip ipmask = (case (ip, ipmask) of
       (Some a, Some m) \<Rightarrow> (case nl_ParseAddr nl (IP_String a @ ''/'' @ int_text (MaskCIDR m)) of
           Inl e \<Rightarrow> fail (Wrap e ''Unable to add ip/mask to link'')
         | Inr addr \<Rightarrow> ignore (net_op (nl_AddrAdd nl tap addr)))
     | _ \<Rightarrow> ret ())"

definition CreateTapInterface ::
  "'n netlink \<Rightarrow> string \<Rightarrow> IP option \<Rightarrow> IPMask option \<Rightarrow> ('n world, unit) io" where
  "CreateTapInterface nl tapName ip ipmask =
     seq (map_err (\<lambda>e. Wrap e ''Unable to get tun device ready'') SetupTunDev) (\<lambda>_.
     seq (map_err (\<lambda>e. Wrap e ''Unable to add link'') (net_op (nl_LinkAdd nl (NewLink TuntapTap tapName)))) (\<lambda>tap.
     seq (add_address nl tap ip ipmask) (\<lambda>_.
     map_err (\<lambda>e. Wrap e ''Unable to set tap to up'') (net_op (nl_LinkSetUp nl tap)))))"

definition RemoveTapDevice :: "'n netlink \<Rightarrow> string \<Rightarrow> ('n world, unit) io" where
  "RemoveTapDevice nl tapName =
     seq SetupTunDev (\<lambda>_. net_op (nl_LinkDel nl (NewLink TuntapTap tapName)))"

text \<open>
  The address and the gateway of a link are those of the first address and of the first route
  netlink lists; the MAC is the link's.
\<close>

definition first_addr :: "Addr list \<Rightarrow> ('s, Addr) io" where
  "first_addr addrs = (case addrs of [] \<Rightarrow> fail (Msg ''master should have an IP'') | a # _ \<Rightarrow> ret a)"

definition first_route :: "Route list \<Rightarrow> ('s, Route) io" where
  "first_route routes = (case routes of
     [] \<Rightarrow> fail (Msg ''master should have at least one route'') | r # _ \<Rightarrow> ret r)"

definition getMasterDetails ::
  "'n netlink \<Rightarrow> Link \<Rightarrow> ('n world, Addr \<times> IP \<times> IPMask \<times> IP \<times> string) io" where
  "getMasterDetails nl masterLink =
     seq (net_op (nl_AddrList nl masterLink)) (\<lambda>addrs.
     seq (first_addr addrs) (\<lambda>masterAddr.
     seq (net_op (nl_RouteList nl masterLink)) (\<lambda>routes.
     seq (first_route routes) (\<lambda>route.
     ret (masterAddr, a_IP masterAddr, a_Mask masterAddr, rt_Gw route,
       HardwareAddr_String (la_HardwareAddr masterLink))))))"

definition genmac :: HardwareAddr where
  "genmac = [0xaa, 0xaa, 0xaa, 0xaa, 0xbb, 0xcc]"

definition CreateTapInterfaceDocker ::
  "'n netlink \<Rightarrow> string \<Rightarrow> string \<Rightarrow> ('n world, IP \<times> IP \<times> IPMask \<times> string) io" where
  "CreateTapInterfaceDocker nl tapName master =
     seq (map_err (\<lambda>e. Errorf ''no master interface: '' e '''') (net_op (nl_LinkByName nl master))) (\<lambda>masterLink.
     seq (getMasterDetails nl masterLink) (\<lambda>(masterAddr, masterIP, masterMask, gwAddr, mac).
     seq SetupTunDev (\<lambda>_.
     seq (net_op (nl_LinkAdd nl (NewLink TuntapTap tapName))) (\<lambda>tap.
     seq (net_op (nl_LinkSetUp nl tap)) (\<lambda>_.
     seq (net_op (nl_AddrDel nl masterLink masterAddr)) (\<lambda>_.
     seq (net_op (nl_LinkSetHardwareAddr nl masterLink genmac)) (\<lambda>_.
     seq (CreateBridge nl ''br0'') (\<lambda>br0.
     seq (ignore (net_op (nl_LinkSetMaster nl masterLink br0))) (\<lambda>_.
     seq (ignore (net_op (nl_LinkSetMaster nl tap br0))) (\<lambda>_.
     seq (net_op (nl_LinkSetUp nl br0)) (\<lambda>_.
     ret (masterIP, gwAddr, masterMask, mac))))))))))))"

subsection \<open>Macvtap interfaces\<close>

definition macvtap_queue :: "int \<Rightarrow> int" where
  "macvtap_queue q = (if q \<le> 0 then 1000 else q)"

text \<open>
  \<open>rand.Intn(1024)\<close> after seeding with the time is the environment's draw at this moment.
\<close>

definition createMacvtapInterface ::
  "'n netlink \<Rightarrow> Link \<Rightarrow> ('n world, Link \<times> string \<times> string) io" where
  "createMacvtapInterface nl masterLink =
     seq (gets (\<lambda>w. 8192 + e_rand (w_env w) (w_tick w) mod 1024)) (\<lambda>index.
     let name = ''macvtap'' @ nat_text index;
         macvtapLink = \<lparr>la_kind = MacvtapBridge, la_Name = name, la_Index = int index,
           la_TxQLen = macvtap_queue (la_TxQLen masterLink), la_ParentIndex = la_Index masterLink,
           la_HardwareAddr = []\<rparr>
     in seq (map_err (\<lambda>e. Errorf ''Couldn't add newlink: '' e '''') (net_op (nl_HandleLinkAdd nl macvtapLink)))
       (\<lambda>added. ret (added, name, ''/dev/tap'' @ int_text (la_Index added))))"

definition is_space :: "char \<Rightarrow> bool" where
  "is_space c = (c \<in> {CHR '' '', CHR 0x09, CHR 0x0A, CHR 0x0B, CHR 0x0C, CHR 0x0D})"

definition TrimSpace :: "string \<Rightarrow> string" where
  "TrimSpace s = rev (dropWhile is_space (rev (dropWhile is_space s)))"

definition Atoi_io :: "string \<Rightarrow> ('s, int) io" where
  "Atoi_io s = (case Atoi s of None \<Rightarrow> fail (Msg (''strconv.Atoi: parsing '' @ s)) | Some n \<Rightarrow> ret n)"

text \<open>
  The device number in the \<open>dev\<close> file of the interface: the minor is indexed without a look at
  the length, so a file without a colon is an index panic. Both numbers are converted to
  \<open>uint32\<close>.
\<close>

definition parse_dev :: "string \<Rightarrow> ('s, nat \<times> nat) io" where
  "parse_dev b = (let mm = split_on (CHR '':'') b in
     seq (Atoi_io (TrimSpace (mm ! 0))) (\<lambda>major.
     if length mm < 2 then halt (Panic ''index out of range'')
     else seq (Atoi_io (TrimSpace (mm ! 1))) (\<lambda>minor.
     ret (nat (major mod 2 ^ 32), nat (minor mod 2 ^ 32)))))"

definition CreateMacvtapInterfaceDocker ::
  "'n netlink \<Rightarrow> string \<Rightarrow> ('n world, IP \<times> IP \<times> IPMask \<times> string \<times> string) io" where
  "CreateMacvtapInterfaceDocker nl master =
     seq (map_err (\<lambda>e. Wrap e ''Unable to create netlink handler'') (net_op (nl_NewHandle nl))) (\<lambda>_.
     seq (map_err (\<lambda>e. Wrap e ''Unable to setup tun dev'') SetupTunDev) (\<lambda>_.
     seq (map_err (\<lambda>e. Wrap e ''no master interface: %v'') (net_op (nl_LinkByName nl master))) (\<lambda>masterLink.
     seq (map_err (\<lambda>e. Wrap e ''Unable to create Macvtapint'') (createMacvtapInterface nl masterLink))
       (\<lambda>(macvtapLink, name, newTapName).
     seq (map_err (\<lambda>e. Wrap e ''Unable to get address list'') (net_op (nl_AddrList nl masterLink))) (\<lambda>addrs.
     seq (first_addr addrs) (\<lambda>masterAddr.
     seq (map_err (\<lambda>e. Wrap e ''Unable to get route list'') (net_op (nl_RouteList nl masterLink))) (\<lambda>routes.
     seq (first_route routes) (\<lambda>route.
     seq (map_err (\<lambda>e. Wrap e ''Unable to delete address of master'')
       (net_op (nl_AddrDel nl masterLink masterAddr))) (\<lambda>_.
     seq (map_err (\<lambda>e. Wrap e ''Unable to set up tap link'') (net_op (nl_LinkSetUp nl macvtapLink))) (\<lambda>_.
     seq (map_err (\<lambda>e. Wrap e ''Unable to set up master link'') (net_op (nl_LinkSetUp nl masterLink))) (\<lambda>_.
     seq (net_op (nl_LinkByName nl name)) (\<lambda>found.
     seq (seq (os_Open (''/sys/devices/virtual/net/'' @ name @ ''/tap'' @ int_text (la_Index macvtapLink) @ ''/dev''))
       file_ReadAll) (\<lambda>b.
     seq (parse_dev b) (\<lambda>(major, minor).
     seq (sys_Mknod newTapName (octal3 6 0 0) major minor) (\<lambda>_.
     ret (a_IP masterAddr, rt_Gw route, a_Mask masterAddr,
       HardwareAddr_String (la_HardwareAddr found), newTapName))))))))))))))))"

end
