(* ===== verification/TapBridge.thy ===== *)
theory TapBridge
  imports Netlib Llif
begin

text \<open>
  \<open>llmodules/network\<close>: the TAP-and-bridge network handler and the no-op one, and that both meet
  the contract \<open>network_handler\<close>: of the files they may write only those under \<open>/dev/net\<close>.
\<close>

subsection \<open>The handlers\<close>

definition IFNAMSIZ :: nat where "IFNAMSIZ = 16"

text \<open>\<open>("tap" + id)[:IFNAMSIZ-1]\<close>: slicing beyond the end of a string panics.\<close>

definition nablaTapName :: "string \<Rightarrow> ('s, string) io" where
  "nablaTapName cid =
     (if length cid < 8 then halt (Panic ''Insufficient uniqueness in ID'')
      else if length (''tap'' @ cid) < IFNAMSIZ - 1 then halt (Panic ''slice bounds out of range'')
      else ret (take (IFNAMSIZ - 1) (''tap'' @ cid)))"

definition tapBr_CreateFunc :: "'n netlink \<Rightarrow> NetworkGenericInput \<Rightarrow> ('n world, LLState option) io" where
  "tapBr_CreateFunc nl i =
     seq (nablaTapName (gi_ContainerId i)) (\<lambda>tapName.
     seq (map_err (\<lambda>e. Wrap e ''Unable to create tap in NetworkCreate'')
       (CreateTapInterface nl tapName None None)) (\<lambda>_.
     ret (Some \<lparr>ll_Options = [(''TapName'', tapName)], ll_InMemoryObjects = []\<rparr>)))"

text \<open>The \<open>TapName\<close> of the stored state; a nil state is dereferenced.\<close>

definition stored_tap :: "NetworkGenericInput \<Rightarrow> ('s, string) io" where
  "stored_tap i = (case gi_NetworkState i of
       None \<Rightarrow> halt (Panic ''nil pointer dereference'')
     | Some st \<Rightarrow> (case map_of (ll_Options st) ''TapName'' of
           None \<Rightarrow> fail (Msg ''Unable to get tap name'') | Some t \<Rightarrow> ret t))"

definition tapBr_RunFunc :: "'n netlink \<Rightarrow> NetworkGenericInput \<Rightarrow> ('n world, LLState option) io" where
  "tapBr_RunFunc nl i =
     seq (stored_tap i) (\<lambda>tapName.
     seq (nablaTapName (gi_ContainerId i)) (\<lambda>name.
     seq (map_err (\<lambda>e. Wrap e ''Unable to configure network runtime'')
       (CreateTapInterfaceDocker nl name ''eth0'')) (\<lambda>(ipAddress, gateway, ipMask, mac).
     case IPMask_Size ipMask of (cidr, totalBits) \<Rightarrow>
       if totalBits \<noteq> 32 then fail (Msg ''Unexpected IP address number of bits'')
       else ret (Some \<lparr>ll_Options = [(''IPAddress'', IP_String ipAddress), (''Gateway'', IP_String gateway),
           (''IPMask'', int_text cidr), (''Mac'', mac), (''TapName'', tapName)],
         ll_InMemoryObjects = []\<rparr>))))"

definition tapBr_DestroyFunc :: "'n netlink \<Rightarrow> NetworkGenericInput \<Rightarrow> ('n world, LLState option) io" where
  "tapBr_DestroyFunc nl i =
     seq (stored_tap i) (\<lambda>tapName.
     seq (RemoveTapDevice nl tapName) (\<lambda>_. ret (gi_NetworkState i)))"

definition tapBrNetworkHandler :: "'n netlink \<Rightarrow> 'n NetworkHandler" where
  "tapBrNetworkHandler nl = \<lparr>NetworkCreateFunc = tapBr_CreateFunc nl,
     NetworkRunFunc = tapBr_RunFunc nl, NetworkDestroyFunc = tapBr_DestroyFunc nl\<rparr>"

definition noopNetworkHandler :: "'n NetworkHandler" where
  "noopNetworkHandler = \<lparr>NetworkCreateFunc = \<lambda>_. ret (Some empty_LLState),
     NetworkRunFunc = \<lambda>i. ret (gi_NetworkState i),
     NetworkDestroyFunc = \<lambda>i. ret (gi_NetworkState i)\<rparr>"

subsection \<open>What a network operation leaves alone\<close>

lemma net_op_run [simp]:
  "net_op m w = (case m (w_net w) of (r, n) \<Rightarrow> (r, w\<lparr>w_net := n\<rparr>))"
  by (simp add: net_op_def zoom_def)

lemma preserves_net_op: "(\<And>w n. P w \<Longrightarrow> P (w\<lparr>w_net := n\<rparr>)) \<Longrightarrow> preserves P (net_op m)"
  by (auto simp: preserves_def split: prod.split)

lemma net_op_pres [pres]:
  "preserves fs_wf (net_op m)" "preserves (fs_agrees c R f) (net_op m)"
  by (rule preserves_net_op; simp)+

lemma net_blind_op [pres]: "net_blind P \<Longrightarrow> preserves P (net_op m)"
proof (rule preserves_net_op)
  fix w n assume "net_blind P" "P w"
  then have "P (w\<lparr>w_fs := w_fs w, w_tick := w_tick w, w_net := n\<rparr>)"
    by (simp only: net_blind_def)
  then show "P (w\<lparr>w_net := n\<rparr>)" by simp
qed

subsection \<open>The tun device\<close>

definition tun_node :: path where "tun_node = [''dev'', ''net'', ''tun'']"

lemma abs_tun [simp]: "HasPrefix ''/dev/net/tun'' ''/''" "HasPrefix ''/dev/net'' ''/''"
  by code_simp+

lemma resolve_tun [simp]: "resolve c tun_path = tun_node"
  by (simp add: tun_path_def tun_node_def resolve_def IsAbs_def clean_elems_def clean_step_def)

lemma resolve_dev_net [simp]: "resolve c ''/dev/net'' = [''dev'', ''net'']"
  by (simp add: resolve_def IsAbs_def clean_elems_def clean_step_def)

lemma dev_net_tun [simp]: "dev_net tun_node" "dev_net [''dev'', ''net'']"
  by (simp_all add: dev_net_def tun_node_def)

lemma tun_path_nonempty [simp]: "tun_path \<noteq> []"
  by (simp add: tun_path_def)

lemma preserves_tun:
  assumes "preserves P (os_Stat tun_path)" "preserves P (os_Stat ''/dev/net'')"
    and "preserves P (os_Mkdir ''/dev/net'' (octal3 7 5 5))"
    and "preserves P (sys_Mknod tun_path (octal3 6 6 6) 10 200)"
  shows "preserves P SetupTunDev"
proof -
  have v: "preserves P verifyTunDevice"
    unfolding verifyTunDevice_def
    by (intro preserves_seq preserves_case_prod preserves_if preserves_fail preserves_ret assms)
  have "preserves P createTunDevice"
    unfolding createTunDevice_def
    by (intro preserves_seq preserves_try_io preserves_if preserves_fail preserves_ret assms)
  with v show ?thesis
    unfolding SetupTunDev_def
    by (intro preserves_seq preserves_try_io preserves_map_err preserves_ret)
qed

lemma SetupTunDev_pres [pres]:
  "preserves fs_wf SetupTunDev" "preserves (fs_agrees c dev_net f) SetupTunDev"
  "fs_blind P \<Longrightarrow> preserves P SetupTunDev"
  by (rule preserves_tun; simp add: wf_read wf_write agrees_read agrees_write blind_os_ops)+

lemma rdev_tun: "rdev k = (10, 200) \<longleftrightarrow> k = KChr 10 200"
  by (cases k) (auto simp: rdev_def)

lemma verifyTunDevice_state: "verifyTunDevice w = (r, w') \<Longrightarrow> \<exists>t. w' = w\<lparr>w_tick := t\<rparr>"
  unfolding verifyTunDevice_def seq_def try_io_def
  by (cases "os_Stat tun_path w")
    (auto split: prod.splits res.splits if_splits dest: os_Stat_state)

lemma verifyTunDevice_Ok:
  assumes "verifyTunDevice w = (Ok (), w')"
  shows "\<exists>n. fs_get w tun_node = Some n \<and> i_kind n = KChr 10 200"
proof -
  obtain n t where st: "os_Stat tun_path w = (Ok n, t)"
    and ok: "(case rdev (i_kind n) of (major, minor) \<Rightarrow>
      if major \<noteq> 10 \<or> minor \<noteq> 200
      then fail (Msg (''Expected /dev/net/tun to have M/m 10/200, got '' @ nat_text major @ ''/'' @ nat_text minor))
      else ret ()) t = (Ok (), w')"
    using assms unfolding verifyTunDevice_def seq_Ok_iff by blast
  from ok have "rdev (i_kind n) = (10, 200)" by (cases "rdev (i_kind n)") (simp split: if_splits)
  with os_Stat_Ok [OF st] show ?thesis by (auto simp: rdev_tun)
qed

lemma SetupTunDev_Ok:
  assumes "SetupTunDev w = (Ok (), w')"
  shows "\<exists>n. fs_get w' tun_node = Some n \<and> i_kind n = KChr 10 200"
proof -
  obtain r t where v: "verifyTunDevice w = (r, t)" by force
  have "\<exists>u. verifyTunDevice u = (Ok (), w')"
  proof (cases r)
    case (Err e)
    then show ?thesis using assms v by (auto simp: SetupTunDev_def seq_Ok_iff)
  qed (use assms v in \<open>auto simp: SetupTunDev_def\<close>)
  then obtain u where u: "verifyTunDevice u = (Ok (), w')" by blast
  then obtain k where "w' = u\<lparr>w_tick := k\<rparr>" using verifyTunDevice_state by blast
  with verifyTunDevice_Ok [OF u] show ?thesis by simp
qed

lemma SetupTunDev_never_overwrites:
  "preserves (\<lambda>w. fs_get w tun_node = Some n) SetupTunDev"
proof (rule preserves_tun)
  let ?P = "\<lambda>w. fs_get w tun_node = Some n"
  have stat: "preserves ?P (os_Stat p)" for p
    by (rule preservesI) (auto dest!: os_Stat_state)
  show "preserves ?P (os_Stat tun_path)" "preserves ?P (os_Stat ''/dev/net'')" by (rule stat)+
  show "preserves ?P (os_Mkdir ''/dev/net'' (octal3 7 5 5))"
    unfolding os_Mkdir_def
    by (intro preserves_at_path preserves_syscall) (auto simp: preserves_def create_entry_def exists_at_def)
  show "preserves ?P (sys_Mknod tun_path (octal3 6 6 6) 10 200)"
    unfolding sys_Mknod_def
    by (intro preserves_at_path preserves_syscall) (auto simp: preserves_def create_entry_def exists_at_def)
qed

lemma SetupTunDev_present:
  assumes "fs_get w tun_node = Some n" and "i_kind n \<noteq> KChr 10 200"
  shows "fst (SetupTunDev w) \<noteq> Ok ()"
proof
  assume "fst (SetupTunDev w) = Ok ()"
  then obtain w' where run: "SetupTunDev w = (Ok (), w')" by (metis prod.collapse)
  then have "fs_get w' tun_node = Some n"
    using preservesD [OF SetupTunDev_never_overwrites run] assms(1) by blast
  with SetupTunDev_Ok [OF run] assms(2) show False by simp
qed

subsection \<open>The contract\<close>

lemma nablaTapName_pure: "snd (nablaTapName cid s) = s"
  by (simp add: nablaTapName_def)

lemma stored_tap_pure: "snd (stored_tap i s) = s"
  by (simp add: stored_tap_def split: option.split)

lemmas tap_pure [pres] = preserves_pure [OF nablaTapName_pure] preserves_pure [OF stored_tap_pure]

lemma preserves_tapbr:
  assumes "preserves P SetupTunDev" and "\<And>m :: ('n, Link) io. preserves P (net_op m)"
    and "\<And>m :: ('n, unit) io. preserves P (net_op m)"
  shows "preserves P (tapBr_CreateFunc nl i)" and "preserves P (tapBr_DestroyFunc nl i)"
  unfolding tapBr_CreateFunc_def tapBr_DestroyFunc_def CreateTapInterface_def RemoveTapDevice_def
    add_address_def
  by (auto intro!: preserves_seq preserves_map_err assms preserves_ret tap_pure)

lemma net_pure [pres]: "preserves P (first_addr as)" "preserves P (first_route rs)"
  by (auto simp: preserves_def first_addr_def first_route_def split: list.split)

lemma preserves_tapbr_run:
  assumes "net_blind P"
  shows "preserves P (tapBr_RunFunc nl i)"
proof -
  note keep = SetupTunDev_pres(3) [OF net_blind_fs [OF assms]] net_blind_op [OF assms]
  have details: "preserves P (getMasterDetails nl m)" for m
    unfolding getMasterDetails_def by (intro preserves_seq preserves_ret net_pure keep)
  have bridge: "preserves P (CreateBridge nl b)" for b
    unfolding CreateBridge_def by (intro preserves_map_err keep)
  have docker: "preserves P (CreateTapInterfaceDocker nl a b)" for a b
    unfolding CreateTapInterfaceDocker_def
    by (intro preserves_seq preserves_map_err preserves_case_prod preserves_ignore preserves_ret details bridge keep)
  show ?thesis
    unfolding tapBr_RunFunc_def
    by (intro preserves_seq preserves_map_err preserves_case_prod preserves_if preserves_ret preserves_fail tap_pure docker)
qed

interpretation tapbr: network_handler "tapBrNetworkHandler nl" for nl
proof unfold_locales
  fix i :: NetworkGenericInput and P :: "'a world \<Rightarrow> bool" and c f
  show "preserves fs_wf (NetworkCreateFunc (tapBrNetworkHandler nl) i)"
    "preserves fs_wf (NetworkDestroyFunc (tapBrNetworkHandler nl) i)"
    unfolding tapBrNetworkHandler_def NetworkHandler.simps
    by (rule preserves_tapbr SetupTunDev_pres net_op_pres)+
  show "preserves (fs_agrees c dev_net f) (NetworkCreateFunc (tapBrNetworkHandler nl) i)"
    "preserves (fs_agrees c dev_net f) (NetworkDestroyFunc (tapBrNetworkHandler nl) i)"
    unfolding tapBrNetworkHandler_def NetworkHandler.simps
    by (rule preserves_tapbr SetupTunDev_pres net_op_pres)+
  assume P: "net_blind P"
  note keep = SetupTunDev_pres(3) [OF net_blind_fs [OF P]] net_blind_op [OF P]
  show "preserves P (NetworkCreateFunc (tapBrNetworkHandler nl) i)"
    "preserves P (NetworkDestroyFunc (tapBrNetworkHandler nl) i)"
    unfolding tapBrNetworkHandler_def NetworkHandler.simps
    by (rule preserves_tapbr keep)+
  show "preserves P (NetworkRunFunc (tapBrNetworkHandler nl) i)"
    unfolding tapBrNetworkHandler_def NetworkHandler.simps by (rule preserves_tapbr_run [OF P])
qed

interpretation noopnet: network_handler noopNetworkHandler
  by unfold_locales (simp_all add: noopNetworkHandler_def preserves_ret)

subsection \<open>Tap names\<close>

lemma nablaTapName_Ok:
  "12 \<le> length cid \<Longrightarrow> nablaTapName cid s = (Ok (''tap'' @ take 12 cid), s)"
  by (simp add: nablaTapName_def IFNAMSIZ_def)

lemma nablaTapName_panics: "length cid < 12 \<Longrightarrow> \<exists>m. nablaTapName cid s = (Stop (Panic m), s)"
  by (simp add: nablaTapName_def IFNAMSIZ_def)

end
