(* ===== verification/Json.thy ===== *)
theory Json
  imports Paths GoNet
begin

text \<open>
  Go's \<open>encoding/json\<close>, as far as the program relies on it: values as trees, the compact printer of
  \<open>Marshal\<close> with its HTML-safe escaping, and the decoder, which reads one value and leaves the
  rest of its input. Numbers keep their literal text. The theorem \<open>parse_print\<close> is that decoding
  undoes encoding. Text is bytes; the replacement of invalid UTF-8 is not modelled.
\<close>

datatype json =
    JNull
  | JBool bool
  | JNum string
  | JStr string
  | JArr "json list"
  | JObj "(string \<times> json) list"

subsection \<open>Strings\<close>

definition quote :: char where "quote = CHR 0x22"
definition backslash :: char where "backslash = CHR 0x5C"

definition code_of :: "char \<Rightarrow> nat" where "code_of c = of_char c"

definition escape_char :: "char \<Rightarrow> string" where
  "escape_char c =
     (if c = quote \<or> c = backslash then [backslash, c]
      else if c = CHR 0x0A then [backslash, CHR ''n'']
      else if c = CHR 0x0D then [backslash, CHR ''r'']
      else if c = CHR 0x09 then [backslash, CHR ''t'']
      else if code_of c < 32 \<or> c = CHR ''<'' \<or> c = CHR ''>'' \<or> c = CHR ''&''
        then [backslash, CHR ''u'', CHR ''0'', CHR ''0'', hex_digit (code_of c div 16), hex_digit (code_of c mod 16)]
      else [c])"

definition print_string :: "string \<Rightarrow> string" where
  "print_string s = quote # concat (map escape_char s) @ [quote]"

definition hex_val :: "char \<Rightarrow> nat option" where
  "hex_val c = (let n = code_of c in
     if 48 \<le> n \<and> n \<le> 57 then Some (n - 48)
     else if 97 \<le> n \<and> n \<le> 102 then Some (n - 87)
     else if 65 \<le> n \<and> n \<le> 70 then Some (n - 55) else None)"

fun hex4 :: "char \<Rightarrow> char \<Rightarrow> char \<Rightarrow> char \<Rightarrow> nat option" where
  "hex4 a b c d = (case (hex_val a, hex_val b, hex_val c, hex_val d) of
     (Some w, Some x, Some y, Some z) \<Rightarrow> Some (4096 * w + 256 * x + 16 * y + z) | _ \<Rightarrow> None)"

definition utf8 :: "nat \<Rightarrow> string" where
  "utf8 n = map char_of
     (if n < 0x80 then [n]
      else if n < 0x800 then [0xC0 + n div 64, 0x80 + n mod 64]
      else if 0xD800 \<le> n \<and> n < 0xE000 then [0xEF, 0xBF, 0xBD]
      else if n < 0x10000 then [0xE0 + n div 4096, 0x80 + n div 64 mod 64, 0x80 + n mod 64]
      else [0xF0 + n div 262144, 0x80 + n div 4096 mod 64, 0x80 + n div 64 mod 64, 0x80 + n mod 64])"

definition unescape_char :: "char \<Rightarrow> char option" where
  "unescape_char e = map_of [(quote, quote), (backslash, backslash), (CHR ''/'', CHR ''/''),
     (CHR ''b'', CHR 0x08), (CHR ''f'', CHR 0x0C), (CHR ''n'', CHR 0x0A), (CHR ''r'', CHR 0x0D),
     (CHR ''t'', CHR 0x09)] e"

text \<open>The second half of a surrogate pair, with the text after it.\<close>

fun low_surrogate :: "string \<Rightarrow> (nat \<times> string) option" where
  "low_surrogate (x # y # a # b # c # d # t) =
     (if x = backslash \<and> y = CHR ''u'' then (case hex4 a b c d of
        Some n \<Rightarrow> if 0xDC00 \<le> n \<and> n < 0xE000 then Some (n, t) else None | None \<Rightarrow> None) else None)"
| "low_surrogate _ = None"

lemma low_surrogate_shorter: "low_surrogate s = Some (n, t) \<Longrightarrow> length t < length s"
  by (induction s rule: low_surrogate.induct) (auto split: if_splits option.splits)

text \<open>The body of a string after its opening quote, with the text after the closing quote.\<close>

function parse_string :: "string \<Rightarrow> (string \<times> string) option" where
  "parse_string s = (case s of [] \<Rightarrow> None | c # t \<Rightarrow>
     if c = quote then Some ([], t)
     else if c = backslash then
       (case t of
          x # a # b # d # e # u \<Rightarrow>
            if x = CHR ''u'' then (case hex4 a b d e of None \<Rightarrow> None | Some n \<Rightarrow>
              (case (if 0xD800 \<le> n \<and> n < 0xDC00 then low_surrogate u else None) of
                 Some (m, v) \<Rightarrow> map_option (\<lambda>(r, z). (utf8 (0x10000 + 1024 * (n - 0xD800) + (m - 0xDC00)) @ r, z))
                   (parse_string v)
               | None \<Rightarrow> map_option (\<lambda>(r, z). (utf8 n @ r, z)) (parse_string u)))
            else (case unescape_char x of None \<Rightarrow> None
              | Some y \<Rightarrow> map_option (\<lambda>(r, z). (y # r, z)) (parse_string (a # b # d # e # u)))
        | x # u \<Rightarrow> (case unescape_char x of None \<Rightarrow> None
              | Some y \<Rightarrow> map_option (\<lambda>(r, z). (y # r, z)) (parse_string u))
        | [] \<Rightarrow> None)
     else if code_of c < 32 then None
     else map_option (\<lambda>(r, z). (c # r, z)) (parse_string t))"
  by pat_completeness auto

termination
  by (relation "measure length") (auto dest: low_surrogate_shorter split: if_splits)

declare parse_string.simps [simp del]

lemma code_of_less [simp]: "code_of c < 256"
  by (simp add: code_of_def)

lemma backslash_quote [simp]: "backslash \<noteq> quote" "quote \<noteq> backslash"
  by (simp_all add: quote_def backslash_def)

lemma hex_val_digit: "d < 16 \<Longrightarrow> hex_val (hex_digit d) = Some d"
proof -
  assume "d < 16"
  then have "d \<in> set [0..<16]" by simp
  moreover have "list_all (\<lambda>d. hex_val (hex_digit d) = Some d) [0..<16]" by code_simp
  ultimately show ?thesis by (simp only: list_all_iff)
qed

lemma hex4_code: "hex4 (CHR ''0'') (CHR ''0'') (hex_digit (code_of c div 16)) (hex_digit (code_of c mod 16))
   = Some (code_of c)"
proof -
  have "hex_val (CHR ''0'') = Some 0" by code_simp
  moreover have "code_of c div 16 < 16" using code_of_less [of c] by linarith
  ultimately show ?thesis by (simp add: hex_val_digit)
qed

lemma utf8_ascii: "code_of c < 128 \<Longrightarrow> utf8 (code_of c) = [c]"
  by (simp add: utf8_def code_of_def)

lemma unescape_simple:
  "unescape_char quote = Some quote" "unescape_char backslash = Some backslash"
  "unescape_char (CHR ''n'') = Some (CHR 0x0A)" "unescape_char (CHR ''r'') = Some (CHR 0x0D)"
  "unescape_char (CHR ''t'') = Some (CHR 0x09)"
  by code_simp+

lemma parse_string_plain:
  "c \<noteq> quote \<Longrightarrow> c \<noteq> backslash \<Longrightarrow> \<not> code_of c < 32 \<Longrightarrow>
   parse_string (c # t) = map_option (\<lambda>(r, z). (c # r, z)) (parse_string t)"
  by (simp add: parse_string.simps [of "c # t"])

lemma parse_string_escaped:
  "x \<noteq> CHR ''u'' \<Longrightarrow> unescape_char x = Some y \<Longrightarrow>
   parse_string (backslash # x # u) = map_option (\<lambda>(r, z). (y # r, z)) (parse_string u)"
  by (simp add: parse_string.simps [of "backslash # x # u"] split: list.split)

lemma parse_string_unicode:
  "hex4 a b d e = Some n \<Longrightarrow> n < 0xD800 \<Longrightarrow>
   parse_string (backslash # CHR ''u'' # a # b # d # e # u) =
     map_option (\<lambda>(r, z). (utf8 n @ r, z)) (parse_string u)"
  by (simp add: parse_string.simps [of "backslash # CHR ''u'' # a # b # d # e # u"] del: hex4.simps)

lemma parse_string_escape:
  "parse_string (escape_char c @ s) = map_option (\<lambda>(r, z). (c # r, z)) (parse_string s)"
proof -
  have ne: "quote \<noteq> CHR ''u''" "backslash \<noteq> CHR ''u''" "CHR ''n'' \<noteq> CHR ''u''" "CHR ''r'' \<noteq> CHR ''u''"
    "CHR ''t'' \<noteq> CHR ''u''"
    by (simp_all add: quote_def backslash_def)
  have small: "code_of c < 128" if "code_of c < 32 \<or> c = CHR ''<'' \<or> c = CHR ''>'' \<or> c = CHR ''&''"
    using that by (auto simp: code_of_def)
  show ?thesis
    unfolding escape_char_def
    using unescape_simple small utf8_ascii
    by (auto simp: ne parse_string_escaped parse_string_plain
        parse_string_unicode [OF hex4_code])
qed

lemma parse_print_string: "parse_string (concat (map escape_char s) @ quote # r) = Some (s, r)"
  by (induction s) (simp_all add: parse_string_escape parse_string.simps [of "quote # r"])

subsection \<open>Numbers\<close>

fun exponent_ok :: "string \<Rightarrow> bool" where
  "exponent_ok [] = True"
| "exponent_ok (c # s) = ((c = CHR ''e'' \<or> c = CHR ''E'') \<and>
     (let t = (case s of [] \<Rightarrow> [] | d # u \<Rightarrow> if d = CHR ''+'' \<or> d = CHR ''-'' then u else s)
      in t \<noteq> [] \<and> list_all is_digit t))"

fun fraction_ok :: "string \<Rightarrow> bool" where
  "fraction_ok [] = True"
| "fraction_ok (c # s) = (if c = CHR ''.'' then s \<noteq> [] \<and> is_digit (hd s) \<and> exponent_ok (dropWhile is_digit s)
     else exponent_ok (c # s))"

fun unsigned_ok :: "string \<Rightarrow> bool" where
  "unsigned_ok [] = False"
| "unsigned_ok (c # s) = (if c = CHR ''0'' then fraction_ok s
     else is_digit c \<and> fraction_ok (dropWhile is_digit s))"

definition number_ok :: "string \<Rightarrow> bool" where
  "number_ok s = unsigned_ok (case s of [] \<Rightarrow> [] | c # t \<Rightarrow> if c = CHR ''-'' then t else s)"

definition number_char :: "char \<Rightarrow> bool" where
  "number_char c = (is_digit c \<or> c \<in> {CHR ''+'', CHR ''-'', CHR ''.'', CHR ''e'', CHR ''E''})"

subsection \<open>Values\<close>

definition json_space :: "char \<Rightarrow> bool" where
  "json_space c = (c \<in> {CHR '' '', CHR 0x09, CHR 0x0A, CHR 0x0D})"

abbreviation skip :: "string \<Rightarrow> string" where "skip \<equiv> dropWhile json_space"

text \<open>\<open>Marshal\<close>: no white space; the members in the order given.\<close>

fun print_json :: "json \<Rightarrow> string" where
  "print_json JNull = ''null''"
| "print_json (JBool b) = (if b then ''true'' else ''false'')"
| "print_json (JNum s) = s"
| "print_json (JStr s) = print_string s"
| "print_json (JArr js) = CHR ''['' # join_with '','' (map print_json js) @ '']''"
| "print_json (JObj ms) = CHR ''{'' # join_with '','' (map (\<lambda>(k, v). print_string k @ CHR '':'' # print_json v) ms) @ ''}''"

text \<open>
  The recursive descent, with a bound on the depth of calls (\<open>n\<close>): each call is made on a shorter
  text, so the length of the input is enough.
\<close>

fun parse_value :: "nat \<Rightarrow> string \<Rightarrow> (json \<times> string) option"
  and parse_elems :: "nat \<Rightarrow> string \<Rightarrow> (json list \<times> string) option"
  and parse_members :: "nat \<Rightarrow> string \<Rightarrow> ((string \<times> json) list \<times> string) option" where
  "parse_value 0 s = None"
| "parse_value (Suc n) s = (case skip s of [] \<Rightarrow> None | c # t \<Rightarrow>
     if c = quote then map_option (\<lambda>(x, r). (JStr x, r)) (parse_string t)
     else if c = CHR ''['' then
       (case skip t of d # u \<Rightarrow> if d = CHR '']'' then Some (JArr [], u)
            else map_option (\<lambda>(xs, r). (JArr xs, r)) (parse_elems n (d # u))
        | [] \<Rightarrow> None)
     else if c = CHR ''{'' then
       (case skip t of d # u \<Rightarrow> if d = CHR ''}'' then Some (JObj [], u)
            else map_option (\<lambda>(xs, r). (JObj xs, r)) (parse_members n (d # u))
        | [] \<Rightarrow> None)
     else if HasPrefix (c # t) ''null'' then Some (JNull, drop 4 (c # t))
     else if HasPrefix (c # t) ''true'' then Some (JBool True, drop 4 (c # t))
     else if HasPrefix (c # t) ''false'' then Some (JBool False, drop 5 (c # t))
     else (let l = takeWhile number_char (c # t) in
       if number_ok l then Some (JNum l, dropWhile number_char (c # t)) else None))"
| "parse_elems 0 s = None"
| "parse_elems (Suc n) s = (case parse_value n s of None \<Rightarrow> None | Some (x, r) \<Rightarrow>
     (case skip r of [] \<Rightarrow> None | c # t \<Rightarrow>
       if c = CHR '']'' then Some ([x], t)
       else if c = CHR '','' then map_option (\<lambda>(xs, z). (x # xs, z)) (parse_elems n t)
       else None))"
| "parse_members 0 s = None"
| "parse_members (Suc n) s = (case skip s of [] \<Rightarrow> None | q # s' \<Rightarrow>
     if q \<noteq> quote then None
     else (case parse_string s' of None \<Rightarrow> None | Some (k, r) \<Rightarrow>
       (case skip r of [] \<Rightarrow> None | c # t \<Rightarrow>
         if c \<noteq> CHR '':'' then None
         else (case parse_value n t of None \<Rightarrow> None | Some (x, r') \<Rightarrow>
           (case skip r' of [] \<Rightarrow> None | c' # t' \<Rightarrow>
             if c' = CHR ''}'' then Some ([(k, x)], t')
             else if c' = CHR '','' then map_option (\<lambda>(xs, z). ((k, x) # xs, z)) (parse_members n t')
             else None)))))"

declare parse_value.simps [simp del] parse_elems.simps [simp del] parse_members.simps [simp del]

text \<open>\<open>json.NewDecoder(r).Decode\<close>: the first value of the input; what follows it is left unread.\<close>

definition parse_json :: "string \<Rightarrow> json option" where
  "parse_json s = map_option fst (parse_value (Suc (length s)) s)"

subsection \<open>Decoding undoes encoding\<close>

fun json_ok :: "json \<Rightarrow> bool" where
  "json_ok (JNum s) = (number_ok s \<and> list_all number_char s)"
| "json_ok (JArr js) = list_all json_ok js"
| "json_ok (JObj ms) = list_all (\<lambda>(k, v). json_ok v) ms"
| "json_ok _ = True"

definition stops :: "string \<Rightarrow> bool" where
  "stops r = (case r of [] \<Rightarrow> True | c # _ \<Rightarrow> \<not> number_char c)"

lemma number_ok_nonempty: "number_ok s \<Longrightarrow> s \<noteq> []"
  by (auto simp: number_ok_def)

lemma number_char_start:
  "number_char c \<Longrightarrow> \<not> json_space c \<and> c \<noteq> quote \<and> c \<noteq> CHR ''['' \<and> c \<noteq> CHR ''{'' \<and> c \<noteq> CHR '']'' \<and> c \<noteq> CHR ''}''
     \<and> c \<noteq> CHR ''n'' \<and> c \<noteq> CHR ''t'' \<and> c \<noteq> CHR ''f''"
  by (auto simp: number_char_def json_space_def is_digit_def quote_def)

lemma print_head:
  assumes "json_ok j"
  shows "\<exists>c t. print_json j = c # t \<and> \<not> json_space c \<and> c \<noteq> CHR '']'' \<and> c \<noteq> CHR ''}''"
proof (cases j)
  case (JNum s)
  with assms obtain c t where "s = c # t" "number_char c"
    using number_ok_nonempty by (cases s) auto
  with JNum number_char_start show ?thesis by simp
qed (auto simp: json_space_def print_string_def quote_def)

lemma parse_number:
  assumes "number_ok s" "list_all number_char s" "stops r"
  shows "parse_value (Suc n) (s @ r) = Some (JNum s, r)"
proof -
  obtain c t where s: "s = c # t" using number_ok_nonempty [OF assms(1)] by (cases s) auto
  then have c: "number_char c" using assms(2) by simp
  have pre: "\<not> HasPrefix (c # u) ''null''" "\<not> HasPrefix (c # u) ''true''" "\<not> HasPrefix (c # u) ''false''" for u
    using number_char_start [OF c] by (auto simp: HasPrefix_def)
  have tw: "takeWhile number_char (s @ r) = s" "dropWhile number_char (s @ r) = r"
    using assms(2,3) by (auto simp: stops_def list_all_iff takeWhile_append dropWhile_append split: list.splits)
  show ?thesis
    using number_char_start [OF c] pre tw assms(1)
    by (simp add: parse_value.simps s Let_def)
qed

lemma stops_simps [simp]: "stops []" "stops (CHR '','' # r)" "stops (CHR '']'' # r)" "stops (CHR ''}'' # r)"
  by (auto simp: stops_def number_char_def is_digit_def)

lemma space_simps [simp]:
  "\<not> json_space quote" "\<not> json_space (CHR '','')" "\<not> json_space (CHR '']'')" "\<not> json_space (CHR ''}'')"
  "\<not> json_space (CHR '':'')" "\<not> json_space (CHR ''['')" "\<not> json_space (CHR ''{'')"
  by (auto simp: json_space_def quote_def)

lemma parse_elems_print:
  assumes "\<And>j n r. j \<in> set js \<Longrightarrow> stops r \<Longrightarrow> length (print_json j) < n \<Longrightarrow>
      parse_value n (print_json j @ r) = Some (j, r)"
    and "js \<noteq> []" and "Suc (length (join_with '','' (map print_json js))) < n"
  shows "parse_elems n (join_with '','' (map print_json js) @ CHR '']'' # r) = Some (js, r)"
  using assms
proof (induction js arbitrary: n)
  case (Cons j js)
  then obtain m where n: "n = Suc m" by (cases n) auto
  show ?case
  proof (cases js)
    case Nil
    then show ?thesis using Cons.prems n by (simp add: parse_elems.simps)
  next
    case (Cons k ks)
    then have join: "join_with '','' (map print_json (j # js)) = print_json j @ CHR '','' # join_with '','' (map print_json js)"
      by simp
    have "parse_elems m (join_with '','' (map print_json js) @ CHR '']'' # r) = Some (js, r)"
      using Cons.IH [of m] Cons.prems Cons n join by simp
    moreover have "parse_value m (print_json j @ CHR '','' # join_with '','' (map print_json js) @ CHR '']'' # r)
        = Some (j, CHR '','' # join_with '','' (map print_json js) @ CHR '']'' # r)"
      using Cons.prems(1) [of j] Cons.prems(3) n join by simp
    ultimately show ?thesis
      by (simp add: n join parse_elems.simps del: join_with.simps list.map)
  qed
qed simp

definition print_member :: "string \<times> json \<Rightarrow> string" where
  "print_member kv = print_string (fst kv) @ CHR '':'' # print_json (snd kv)"

lemma parse_members_print:
  assumes "\<And>k j n r. (k, j) \<in> set ms \<Longrightarrow> stops r \<Longrightarrow> length (print_json j) < n \<Longrightarrow>
      parse_value n (print_json j @ r) = Some (j, r)"
    and "ms \<noteq> []" and "Suc (length (join_with '','' (map print_member ms))) < n"
  shows "parse_members n (join_with '','' (map print_member ms) @ CHR ''}'' # r) = Some (ms, r)"
  using assms
proof (induction ms arbitrary: n)
  case (Cons kv ms)
  obtain k j where kv: "kv = (k, j)" by force
  obtain m where n: "n = Suc m" using Cons.prems by (cases n) auto
  have member: "print_member kv @ u = quote # concat (map escape_char k) @ quote # CHR '':'' # print_json j @ u" for u
    by (simp add: kv print_member_def print_string_def)
  show ?case
  proof (cases ms)
    case Nil
    then have "parse_value m (print_json j @ CHR ''}'' # r) = Some (j, CHR ''}'' # r)"
      using Cons.prems(1) [of k j "CHR ''}'' # r" m] Cons.prems(3) n kv by (simp add: print_member_def)
    then show ?thesis
      by (simp add: n kv member [unfolded kv] parse_members.simps parse_print_string Nil)
  next
    case (Cons x xs)
    then have join: "join_with '','' (map print_member (kv # ms)) = print_member kv @ CHR '','' # join_with '','' (map print_member ms)"
      by simp
    have "parse_members m (join_with '','' (map print_member ms) @ CHR ''}'' # r) = Some (ms, r)"
    proof (rule Cons.IH)
      show "parse_value n' (print_json j' @ r') = Some (j', r')"
        if "(k', j') \<in> set ms" "stops r'" "length (print_json j') < n'" for k' j' n' r'
        using Cons.prems(1) [of k' j' r' n'] that by simp
    qed (use Cons Cons.prems(3) n join in \<open>auto simp del: join_with.simps list.map\<close>)
    moreover have "parse_value m (print_json j @ CHR '','' # join_with '','' (map print_member ms) @ CHR ''}'' # r)
        = Some (j, CHR '','' # join_with '','' (map print_member ms) @ CHR ''}'' # r)"
    proof (rule Cons.prems(1) [of k j])
      have "length (print_json j) < length (print_member kv)" by (simp add: kv print_member_def)
      moreover have "length (print_member kv) < m"
        using Cons.prems(3) n join by (simp del: join_with.simps list.map)
      ultimately show "length (print_json j) < m" by simp
    qed (simp_all add: kv)
    ultimately show ?thesis
      by (simp add: n kv join [unfolded kv] member [unfolded kv] parse_members.simps parse_print_string
          del: join_with.simps list.map)
  qed
qed simp


lemma print_object: "print_json (JObj ms) = CHR ''{'' # join_with '','' (map print_member ms) @ ''}''"
proof -
  have "(\<lambda>(k, v). print_string k @ CHR '':'' # print_json v) = print_member"
    by (rule ext) (simp add: print_member_def split: prod.split)
  then show ?thesis by simp
qed

lemma join_with_head: "xs \<noteq> [] \<Longrightarrow> hd xs = c # t \<Longrightarrow> \<exists>u. join_with s xs = c # u"
  by (cases xs; cases "tl xs") auto

lemma parse_value_print:
  "json_ok j \<Longrightarrow> stops r \<Longrightarrow> length (print_json j) < n \<Longrightarrow> parse_value n (print_json j @ r) = Some (j, r)"
proof (induction j arbitrary: n r)
  case (JNum s)
  then show ?case using parse_number [of s r] by (cases n) auto
next
  case (JStr s)
  then show ?case
    by (cases n) (auto simp: parse_value.simps print_string_def parse_print_string)
next
  case (JArr js)
  then obtain m where n: "n = Suc m" by (cases n) auto
  show ?case
  proof (cases "js = []")
    case False
    obtain c t where c: "print_json (hd js) = c # t" "\<not> json_space c" "c \<noteq> CHR '']''"
      using print_head [of "hd js"] JArr.prems(1) False by (cases js) auto
    then obtain u where u: "join_with '','' (map print_json js) = c # u"
      using join_with_head [of "map print_json js"] False by (auto simp: hd_map)
    have "parse_elems m (join_with '','' (map print_json js) @ CHR '']'' # r) = Some (js, r)"
      using JArr False n by (intro parse_elems_print) (auto simp: list_all_iff)
    then show ?thesis
      using c by (simp add: n parse_value.simps u) (simp add: quote_def)
  qed (simp add: n parse_value.simps, simp add: quote_def)
next
  case (JObj ms)
  then obtain m where n: "n = Suc m" by (cases n) auto
  show ?case
  proof (cases "ms = []")
    case False
    have hd: "print_member (hd ms) = quote # tl (print_member (hd ms))"
      by (simp add: print_member_def print_string_def)
    then obtain u where u: "join_with '','' (map print_member ms) = quote # u"
      using join_with_head [of "map print_member ms" quote "tl (print_member (hd ms))" "'',''"] False
      by (auto simp: hd_map)
    have "parse_members m (join_with '','' (map print_member ms) @ CHR ''}'' # r) = Some (ms, r)"
    proof (rule parse_members_print)
      fix k j n' and r' :: string
      assume "(k, j) \<in> set ms" "stops r'" "length (print_json j) < n'"
      then show "parse_value n' (print_json j @ r') = Some (j, r')"
        using JObj.IH [of "(k, j)" j r' n'] JObj.prems(1) by (auto simp: list_all_iff)
    qed (use False JObj.prems(3) n in \<open>auto simp: print_object simp del: print_json.simps\<close>)
    then show ?thesis
      by (simp add: n parse_value.simps u print_object del: print_json.simps) (simp add: quote_def)
  qed (simp add: n parse_value.simps, simp add: quote_def)
qed (case_tac n; auto simp: parse_value.simps HasPrefix_def json_space_def quote_def)+

theorem parse_print: "json_ok j \<Longrightarrow> stops r \<Longrightarrow> parse_json (print_json j @ r) = Some j"
  by (simp add: parse_json_def parse_value_print)

end
