(* ===== verification/State.thy ===== *)
theory State
  imports Json Llif "HOL-Library.Monad_Syntax"
begin

text \<open>
  What a container keeps on disk: the status values, \<open>BaseState\<close> and \<open>State\<close> of
  \<open>libcontainer/container.go\<close> and \<open>container_nabla.go\<close>, the \<open>initConfig\<close> sent to the init
  process, and their JSON forms as \<open>encoding/json\<close> derives them from the field tags. A nil slice
  is the empty one and is written \<open>[]\<close>. Field names are matched ignoring the case of ASCII
  letters, unknown members are ignored, \<open>null\<close> leaves a field at its zero value.
\<close>

subsection \<open>Status\<close>

datatype Status = Created | Running | Pausing | Paused | Stopped | UnknownStatus int

fun Status_String :: "Status \<Rightarrow> string" where
  "Status_String Created = ''created''"
| "Status_String Running = ''running''"
| "Status_String Pausing = ''pausing''"
| "Status_String Paused = ''paused''"
| "Status_String Stopped = ''stopped''"
| "Status_String (UnknownStatus n) = ''unknown''"

fun Status_int :: "Status \<Rightarrow> int" where
  "Status_int Created = 0"
| "Status_int Running = 1"
| "Status_int Pausing = 2"
| "Status_int Paused = 3"
| "Status_int Stopped = 4"
| "Status_int (UnknownStatus n) = n"

definition int_Status :: "int \<Rightarrow> Status" where
  "int_Status n = (if n = 0 then Created else if n = 1 then Running else if n = 2 then Pausing
     else if n = 3 then Paused else if n = 4 then Stopped else UnknownStatus n)"

subsection \<open>The state records\<close>

record BaseState =
  st_ID :: string
  st_InitProcessPid :: int
  st_InitProcessStartTime :: string
  st_Created :: string
  st_Config :: Config

record State = BaseState +
  st_FsState :: LLState
  st_NetworkState :: LLState
  st_ExecState :: LLState
  st_Status :: Status

record initConfig =
  ic_Id :: string
  ic_BundlePath :: string
  ic_Root :: string
  ic_Args :: "string list"
  ic_Cwd :: string
  ic_Env :: "string list"
  ic_TapName :: string
  ic_NetnsPath :: string
  ic_Hooks :: "Hooks option"
  ic_Memory :: int
  ic_Mounts :: "Mount list"
  ic_Config :: "Config option"
  ic_FsState :: LLState
  ic_NetworkState :: LLState
  ic_ExecState :: LLState

definition zero_time :: string where "zero_time = ''0001-01-01T00:00:00Z''"

subsection \<open>Encoding\<close>

text \<open>The members of an object; one that is omitted when empty is \<open>None\<close>.\<close>

definition members :: "(string \<times> json option) list \<Rightarrow> (string \<times> json) list" where
  "members xs = List.map_filter (\<lambda>(k, v). map_option (Pair k) v) xs"

definition j_int :: "int \<Rightarrow> json" where "j_int n = JNum (int_text n)"
definition j_strings :: "string list \<Rightarrow> json" where "j_strings ss = JArr (map JStr ss)"

definition nonempty :: "('a list \<Rightarrow> json) \<Rightarrow> 'a list \<Rightarrow> json option" where
  "nonempty f xs = (if xs = [] then None else Some (f xs))"

definition enc_Mount :: "Mount \<Rightarrow> json" where
  "enc_Mount m = JObj (members [(''destination'', Some (JStr (mnt_Destination m))),
     (''type'', nonempty JStr (mnt_Type m)), (''source'', nonempty JStr (mnt_Source m)),
     (''options'', nonempty j_strings (mnt_Options m))])"

definition enc_Hook :: "Hook \<Rightarrow> json" where
  "enc_Hook h = JObj (members [(''path'', Some (JStr (hook_Path h))), (''args'', nonempty j_strings (hook_Args h)),
     (''env'', nonempty j_strings (hook_Env h)), (''timeout'', map_option j_int (hook_Timeout h))])"

definition enc_Hooks :: "Hooks \<Rightarrow> json" where
  "enc_Hooks h = JObj (members [(''prestart'', nonempty (JArr \<circ> map enc_Hook) (hooks_Prestart h)),
     (''poststart'', nonempty (JArr \<circ> map enc_Hook) (hooks_Poststart h)),
     (''poststop'', nonempty (JArr \<circ> map enc_Hook) (hooks_Poststop h))])"

definition enc_Config :: "Config \<Rightarrow> json" where
  "enc_Config c = JObj (members [(''args'', Some (j_strings (cfg_Args c))), (''rootfs'', Some (JStr (cfg_Rootfs c))),
     (''env'', Some (j_strings (cfg_Env c))), (''cwd'', Some (JStr (cfg_Cwd c))),
     (''version'', Some (JStr (cfg_Version c))), (''labels'', Some (j_strings (cfg_Labels c))),
     (''netnspath'', Some (JStr (cfg_NetnsPath c))), (''hooks'', map_option enc_Hooks (cfg_Hooks c)),
     (''memory'', if cfg_Memory c = 0 then None else Some (j_int (cfg_Memory c))),
     (''mounts'', nonempty (JArr \<circ> map enc_Mount) (cfg_Mounts c))])"

text \<open>A map is written with its keys sorted; the in-memory objects (\<open>json:"-"\<close>) are not written.\<close>

definition enc_LLState :: "LLState \<Rightarrow> json" where
  "enc_LLState s = JObj (members [(''options'',
     Some (JObj (map (\<lambda>(k, v). (k, JStr v)) (sort_key fst (ll_Options s)))))])"

definition enc_State :: "State \<Rightarrow> json" where
  "enc_State s = JObj (members [(''id'', Some (JStr (st_ID s))), (''init_process_pid'', Some (j_int (st_InitProcessPid s))),
     (''init_process_start'', Some (JStr (st_InitProcessStartTime s))), (''created'', Some (JStr (st_Created s))),
     (''config'', Some (enc_Config (st_Config s))), (''fsstate'', Some (enc_LLState (st_FsState s))),
     (''netstate'', Some (enc_LLState (st_NetworkState s))), (''execstate'', Some (enc_LLState (st_ExecState s))),
     (''status'', Some (j_int (Status_int (st_Status s))))])"

definition or_null :: "json option \<Rightarrow> json" where
  "or_null v = (case v of None \<Rightarrow> JNull | Some j \<Rightarrow> j)"

text \<open>The tag of \<open>ExecState\<close> in \<open>initConfig\<close> lacks its opening quote, so the field's own name is used.\<close>

definition enc_initConfig :: "initConfig \<Rightarrow> json" where
  "enc_initConfig c = JObj (members [(''id'', Some (JStr (ic_Id c))), (''bundlepath'', Some (JStr (ic_BundlePath c))),
     (''root'', Some (JStr (ic_Root c))), (''args'', Some (j_strings (ic_Args c))), (''cwd'', Some (JStr (ic_Cwd c))),
     (''env'', Some (j_strings (ic_Env c))), (''tap'', Some (JStr (ic_TapName c))),
     (''netnspath'', Some (JStr (ic_NetnsPath c))), (''hooks'', Some (or_null (map_option enc_Hooks (ic_Hooks c)))),
     (''mem'', Some (j_int (ic_Memory c))), (''Mounts'', Some (JArr (map enc_Mount (ic_Mounts c)))),
     (''config'', Some (or_null (map_option enc_Config (ic_Config c)))), (''fsstate'', Some (enc_LLState (ic_FsState c))),
     (''netstate'', Some (enc_LLState (ic_NetworkState c))), (''ExecState'', Some (enc_LLState (ic_ExecState c)))])"

subsection \<open>Decoding\<close>

text \<open>\<open>None\<close> is an \<open>UnmarshalTypeError\<close> or a malformed number or time.\<close>

definition to_lower_char :: "char \<Rightarrow> char" where
  "to_lower_char c = (let n = code_of c in if 65 \<le> n \<and> n \<le> 90 then char_of (n + 32) else c)"

definition fold_name :: "string \<Rightarrow> string" where
  "fold_name s = map to_lower_char s"

definition field :: "string \<Rightarrow> (string \<times> json) list \<Rightarrow> json" where
  "field k ms = (case filter (\<lambda>kv. fold_name (fst kv) = fold_name k \<and> snd kv \<noteq> JNull) (rev ms) of
     [] \<Rightarrow> JNull | kv # _ \<Rightarrow> snd kv)"

fun dec_string :: "json \<Rightarrow> string option" where
  "dec_string JNull = Some ''''"
| "dec_string (JStr s) = Some s"
| "dec_string _ = None"

fun dec_int :: "json \<Rightarrow> int option" where
  "dec_int JNull = Some 0"
| "dec_int (JNum s) = Atoi s"
| "dec_int _ = None"

fun those_of :: "('a \<Rightarrow> 'b option) \<Rightarrow> 'a list \<Rightarrow> 'b list option" where
  "those_of f [] = Some []"
| "those_of f (x # xs) = (case f x of None \<Rightarrow> None | Some y \<Rightarrow> map_option ((#) y) (those_of f xs))"

fun dec_list :: "(json \<Rightarrow> 'a option) \<Rightarrow> json \<Rightarrow> 'a list option" where
  "dec_list d JNull = Some []"
| "dec_list d (JArr js) = those_of d js"
| "dec_list d _ = None"

definition dec_ptr :: "(json \<Rightarrow> 'a option) \<Rightarrow> json \<Rightarrow> 'a option option" where
  "dec_ptr d j = (if j = JNull then Some None else map_option Some (d j))"

fun dec_struct :: "((string \<times> json) list \<Rightarrow> 'a option) \<Rightarrow> json \<Rightarrow> 'a option" where
  "dec_struct f JNull = f []"
| "dec_struct f (JObj ms) = f ms"
| "dec_struct f _ = None"

definition dec_Mount :: "json \<Rightarrow> Mount option" where
  "dec_Mount = dec_struct (\<lambda>ms. do {
     d \<leftarrow> dec_string (field ''destination'' ms); t \<leftarrow> dec_string (field ''type'' ms);
     s \<leftarrow> dec_string (field ''source'' ms); opts \<leftarrow> dec_list dec_string (field ''options'' ms);
     Some \<lparr>mnt_Destination = d, mnt_Type = t, mnt_Source = s, mnt_Options = opts\<rparr>})"

definition dec_Hook :: "json \<Rightarrow> Hook option" where
  "dec_Hook = dec_struct (\<lambda>ms. do {
     p \<leftarrow> dec_string (field ''path'' ms); a \<leftarrow> dec_list dec_string (field ''args'' ms);
     e \<leftarrow> dec_list dec_string (field ''env'' ms); t \<leftarrow> dec_ptr dec_int (field ''timeout'' ms);
     Some \<lparr>hook_Path = p, hook_Args = a, hook_Env = e, hook_Timeout = t\<rparr>})"

definition dec_Hooks :: "json \<Rightarrow> Hooks option" where
  "dec_Hooks = dec_struct (\<lambda>ms. do {
     a \<leftarrow> dec_list dec_Hook (field ''prestart'' ms); b \<leftarrow> dec_list dec_Hook (field ''poststart'' ms);
     c \<leftarrow> dec_list dec_Hook (field ''poststop'' ms);
     Some \<lparr>hooks_Prestart = a, hooks_Poststart = b, hooks_Poststop = c\<rparr>})"

definition dec_Config :: "json \<Rightarrow> Config option" where
  "dec_Config = dec_struct (\<lambda>ms. do {
     args \<leftarrow> dec_list dec_string (field ''args'' ms); rootfs \<leftarrow> dec_string (field ''rootfs'' ms);
     envs \<leftarrow> dec_list dec_string (field ''env'' ms); cwd \<leftarrow> dec_string (field ''cwd'' ms);
     version \<leftarrow> dec_string (field ''version'' ms); labels \<leftarrow> dec_list dec_string (field ''labels'' ms);
     netns \<leftarrow> dec_string (field ''netnspath'' ms); hooks \<leftarrow> dec_ptr dec_Hooks (field ''hooks'' ms);
     memory \<leftarrow> dec_int (field ''memory'' ms); mounts \<leftarrow> dec_list dec_Mount (field ''mounts'' ms);
     Some \<lparr>cfg_Args = args, cfg_Rootfs = rootfs, cfg_Env = envs, cfg_Cwd = cwd, cfg_Version = version,
       cfg_Labels = labels, cfg_NetnsPath = netns, cfg_Hooks = hooks, cfg_Memory = memory, cfg_Mounts = mounts\<rparr>})"

definition dec_options :: "json \<Rightarrow> (string \<times> string) list option" where
  "dec_options = dec_struct (\<lambda>ms. map_option (\<lambda>vs. fold (\<lambda>(k, v). AList.update k v) (zip (map fst ms) vs) [])
     (those_of dec_string (map snd ms)))"

definition dec_LLState :: "json \<Rightarrow> LLState option" where
  "dec_LLState = dec_struct (\<lambda>ms. map_option (\<lambda>opts. \<lparr>ll_Options = opts, ll_InMemoryObjects = []\<rparr>)
     (dec_options (field ''options'' ms)))"

text \<open>The RFC 3339 form \<open>time.Time\<close> is written in and read from.\<close>

definition num2 :: "string \<Rightarrow> nat option" where
  "num2 s = (if length s = 2 \<and> list_all is_digit s then Some (nat_of_digits 0 s) else None)"

definition days_in :: "nat \<Rightarrow> nat \<Rightarrow> nat" where
  "days_in y m = (if m = 2 then (if y mod 4 = 0 \<and> (y mod 100 \<noteq> 0 \<or> y mod 400 = 0) then 29 else 28)
     else if m \<in> {4, 6, 9, 11} then 30 else 31)"

definition below :: "nat \<Rightarrow> nat option \<Rightarrow> bool" where
  "below n x = (case x of None \<Rightarrow> False | Some v \<Rightarrow> v < n)"

definition zone_ok :: "string \<Rightarrow> bool" where
  "zone_ok z = (z = ''Z'' \<or> (length z = 6 \<and> (z ! 0 = CHR ''+'' \<or> z ! 0 = CHR ''-'') \<and> z ! 3 = CHR '':''
     \<and> below 24 (num2 (take 2 (drop 1 z))) \<and> below 60 (num2 (drop 4 z))))"

definition fraction_zone_ok :: "string \<Rightarrow> bool" where
  "fraction_zone_ok s = (case s of [] \<Rightarrow> False | c # t \<Rightarrow>
     if c = CHR ''.'' then takeWhile is_digit t \<noteq> [] \<and> zone_ok (dropWhile is_digit t) else zone_ok s)"

definition rfc3339_ok :: "string \<Rightarrow> bool" where
  "rfc3339_ok s = (20 \<le> length s \<and> list_all is_digit (take 4 s) \<and> s ! 4 = CHR ''-'' \<and> s ! 7 = CHR ''-''
     \<and> s ! 10 = CHR ''T'' \<and> s ! 13 = CHR '':'' \<and> s ! 16 = CHR '':''
     \<and> below 24 (num2 (take 2 (drop 11 s))) \<and> below 60 (num2 (take 2 (drop 14 s)))
     \<and> below 60 (num2 (take 2 (drop 17 s)))
     \<and> (case (num2 (take 2 (drop 5 s)), num2 (take 2 (drop 8 s))) of
          (Some m, Some d) \<Rightarrow> 1 \<le> m \<and> m \<le> 12 \<and> 1 \<le> d \<and> d \<le> days_in (nat_of_digits 0 (take 4 s)) m
        | _ \<Rightarrow> False)
     \<and> fraction_zone_ok (drop 19 s))"

fun dec_time :: "json \<Rightarrow> string option" where
  "dec_time JNull = Some zero_time"
| "dec_time (JStr s) = (if rfc3339_ok s then Some s else None)"
| "dec_time _ = None"

definition dec_State :: "json \<Rightarrow> State option" where
  "dec_State = dec_struct (\<lambda>ms. do {
     i \<leftarrow> dec_string (field ''id'' ms); pid \<leftarrow> dec_int (field ''init_process_pid'' ms);
     start \<leftarrow> dec_string (field ''init_process_start'' ms); created \<leftarrow> dec_time (field ''created'' ms);
     cfg \<leftarrow> dec_Config (field ''config'' ms); fs \<leftarrow> dec_LLState (field ''fsstate'' ms);
     net \<leftarrow> dec_LLState (field ''netstate'' ms); ex \<leftarrow> dec_LLState (field ''execstate'' ms);
     status \<leftarrow> dec_int (field ''status'' ms);
     Some \<lparr>st_ID = i, st_InitProcessPid = pid, st_InitProcessStartTime = start, st_Created = created,
       st_Config = cfg, st_FsState = fs, st_NetworkState = net, st_ExecState = ex,
       st_Status = int_Status status\<rparr>})"

text \<open>\<open>Decode(&state)\<close> of a \<open>*State\<close>: \<open>null\<close> makes the pointer nil.\<close>

definition dec_State_ptr :: "json \<Rightarrow> State option option" where
  "dec_State_ptr = dec_ptr dec_State"

subsection \<open>Decoding undoes encoding\<close>

lemma field_members:
  assumes "distinct (map (fold_name \<circ> fst) xs)" and "(k, v) \<in> set xs"
  shows "field k (members xs) = or_null v"
proof -
  let ?Q = "\<lambda>kv. fold_name (fst kv) = fold_name k \<and> snd kv \<noteq> JNull"
  have one: "filter (\<lambda>kv. fold_name (fst kv) = fold_name k) xs = [(k, v)]" if
    "distinct (map (fold_name \<circ> fst) xs)" "(k, v) \<in> set xs" for xs :: "(string \<times> json option) list"
    using that
  proof (induction xs)
    case (Cons x xs)
    show ?case
    proof (cases "x = (k, v)")
      case True
      then have "filter (\<lambda>kv. fold_name (fst kv) = fold_name k) xs = []"
        using Cons.prems(1) by (force simp: filter_empty_conv)
      then show ?thesis using True by simp
    next
      case False
      then have "(k, v) \<in> set xs" using Cons.prems(2) by simp
      moreover have "fold_name (fst x) \<noteq> fold_name k" using Cons.prems(1) calculation by force
      ultimately show ?thesis using Cons by simp
    qed
  qed simp
  have only: "filter ?Q (members ys) = filter ?Q (members (filter (\<lambda>kv. fold_name (fst kv) = fold_name k) ys))" for ys
    by (induction ys) (auto simp: members_def List.map_filter_def)
  from only [of xs, unfolded one [OF assms]] show ?thesis
    by (cases v) (auto simp: field_def rev_filter [symmetric] members_def List.map_filter_def or_null_def)
qed

lemma those_of_map: "(\<And>x. x \<in> set xs \<Longrightarrow> d (e x) = Some x) \<Longrightarrow> those_of d (map e xs) = Some xs"
  by (induction xs) auto

lemma dec_strings [simp]: "dec_list dec_string (j_strings ss) = Some ss"
  by (simp add: j_strings_def those_of_map)

lemma dec_nonempty_strings [simp]: "dec_list dec_string (or_null (nonempty j_strings ss)) = Some ss"
  by (simp add: nonempty_def or_null_def)

lemma dec_nonempty_string [simp]: "dec_string (or_null (nonempty JStr s)) = Some s"
  by (simp add: nonempty_def or_null_def)

lemma or_null_Some [simp]: "or_null (Some j) = j"
  by (simp add: or_null_def)

lemma dec_nonempty_list:
  "(\<And>x. x \<in> set xs \<Longrightarrow> d (e x) = Some x) \<Longrightarrow> dec_list d (or_null (nonempty (JArr \<circ> map e) xs)) = Some xs"
  by (simp add: nonempty_def or_null_def those_of_map)

lemma dec_j_int [simp]: "int64_ok n \<Longrightarrow> dec_int (j_int n) = Some n"
  by (simp add: j_int_def Atoi_int_text)

lemma dec_ptr_map:
  "(\<And>x. v = Some x \<Longrightarrow> d (e x) = Some x \<and> e x \<noteq> JNull) \<Longrightarrow> dec_ptr d (or_null (map_option e v)) = Some v"
  by (cases v) (simp_all add: dec_ptr_def or_null_def)

lemma dec_Mount_enc [simp]: "dec_Mount (enc_Mount m) = Some m"
proof -
  let ?xs = "[(''destination'', Some (JStr (mnt_Destination m))), (''type'', nonempty JStr (mnt_Type m)),
     (''source'', nonempty JStr (mnt_Source m)), (''options'', nonempty j_strings (mnt_Options m))]"
  have d: "distinct (map (fold_name \<circ> fst) ?xs)"
    by (simp add: fold_name_def to_lower_char_def Let_def code_of_def)
  show ?thesis
    by (simp add: dec_Mount_def enc_Mount_def field_members [OF d])
qed

subsection \<open>Values that survive\<close>

definition Hook_ok :: "Hook \<Rightarrow> bool" where
  "Hook_ok h = (case hook_Timeout h of None \<Rightarrow> True | Some n \<Rightarrow> int64_ok n)"

definition Hooks_ok :: "Hooks \<Rightarrow> bool" where
  "Hooks_ok h = (list_all Hook_ok (hooks_Prestart h) \<and> list_all Hook_ok (hooks_Poststart h)
     \<and> list_all Hook_ok (hooks_Poststop h))"

definition Config_ok :: "Config \<Rightarrow> bool" where
  "Config_ok c = (int64_ok (cfg_Memory c) \<and> (case cfg_Hooks c of None \<Rightarrow> True | Some h \<Rightarrow> Hooks_ok h))"

text \<open>A state whose options are in key order, without in-memory objects.\<close>

definition LLState_ok :: "LLState \<Rightarrow> bool" where
  "LLState_ok s = (sorted (map fst (ll_Options s)) \<and> distinct (map fst (ll_Options s))
     \<and> ll_InMemoryObjects s = [])"

definition Status_ok :: "Status \<Rightarrow> bool" where
  "Status_ok s = (int64_ok (Status_int s) \<and> int_Status (Status_int s) = s)"

definition State_ok :: "State \<Rightarrow> bool" where
  "State_ok s = (int64_ok (st_InitProcessPid s) \<and> rfc3339_ok (st_Created s) \<and> Config_ok (st_Config s)
     \<and> LLState_ok (st_FsState s) \<and> LLState_ok (st_NetworkState s) \<and> LLState_ok (st_ExecState s)
     \<and> Status_ok (st_Status s))"

lemmas fold_name_defs = fold_name_def to_lower_char_def Let_def code_of_def

lemma dec_Hook_enc: "Hook_ok h \<Longrightarrow> dec_Hook (enc_Hook h) = Some h"
proof -
  assume ok: "Hook_ok h"
  let ?xs = "[(''path'', Some (JStr (hook_Path h))), (''args'', nonempty j_strings (hook_Args h)),
     (''env'', nonempty j_strings (hook_Env h)), (''timeout'', map_option j_int (hook_Timeout h))]"
  have d: "distinct (map (fold_name \<circ> fst) ?xs)"
    by (simp add: fold_name_defs)
  have "dec_ptr dec_int (or_null (map_option j_int (hook_Timeout h))) = Some (hook_Timeout h)"
    using ok by (intro dec_ptr_map) (auto simp: Hook_ok_def, simp add: j_int_def)
  then show ?thesis
    by (simp add: dec_Hook_def enc_Hook_def field_members [OF d])
qed

lemma dec_Hooks_enc: "Hooks_ok h \<Longrightarrow> dec_Hooks (enc_Hooks h) = Some h"
proof -
  assume ok: "Hooks_ok h"
  let ?xs = "[(''prestart'', nonempty (JArr \<circ> map enc_Hook) (hooks_Prestart h)),
     (''poststart'', nonempty (JArr \<circ> map enc_Hook) (hooks_Poststart h)),
     (''poststop'', nonempty (JArr \<circ> map enc_Hook) (hooks_Poststop h))]"
  have d: "distinct (map (fold_name \<circ> fst) ?xs)"
    by (simp add: fold_name_defs)
  have "dec_list dec_Hook (or_null (nonempty (JArr \<circ> map enc_Hook) hs)) = Some hs" if "list_all Hook_ok hs" for hs
    using that by (intro dec_nonempty_list) (auto simp: list_all_iff dec_Hook_enc)
  then show ?thesis
    using ok by (simp add: dec_Hooks_def enc_Hooks_def field_members [OF d] Hooks_ok_def)
qed

lemma enc_Hooks_not_null [simp]: "enc_Hooks h \<noteq> JNull"
  by (simp add: enc_Hooks_def)

lemma dec_Config_enc: "Config_ok c \<Longrightarrow> dec_Config (enc_Config c) = Some c"
proof -
  assume ok: "Config_ok c"
  let ?xs = "[(''args'', Some (j_strings (cfg_Args c))), (''rootfs'', Some (JStr (cfg_Rootfs c))),
     (''env'', Some (j_strings (cfg_Env c))), (''cwd'', Some (JStr (cfg_Cwd c))),
     (''version'', Some (JStr (cfg_Version c))), (''labels'', Some (j_strings (cfg_Labels c))),
     (''netnspath'', Some (JStr (cfg_NetnsPath c))), (''hooks'', map_option enc_Hooks (cfg_Hooks c)),
     (''memory'', if cfg_Memory c = 0 then None else Some (j_int (cfg_Memory c))),
     (''mounts'', nonempty (JArr \<circ> map enc_Mount) (cfg_Mounts c))]"
  have d: "distinct (map (fold_name \<circ> fst) ?xs)"
    by (simp add: fold_name_defs)
  have hooks: "dec_ptr dec_Hooks (or_null (map_option enc_Hooks (cfg_Hooks c))) = Some (cfg_Hooks c)"
    using ok by (intro dec_ptr_map) (auto simp: Config_ok_def dec_Hooks_enc)
  have mem: "dec_int (or_null (if cfg_Memory c = 0 then None else Some (j_int (cfg_Memory c)))) = Some (cfg_Memory c)"
    using ok by (simp add: Config_ok_def or_null_def)
  have mounts: "dec_list dec_Mount (or_null (nonempty (JArr \<circ> map enc_Mount) (cfg_Mounts c))) = Some (cfg_Mounts c)"
    by (intro dec_nonempty_list) simp
  show ?thesis
    by (simp add: dec_Config_def enc_Config_def field_members [OF d] hooks mem mounts)
qed

lemma update_fresh: "k \<notin> fst ` set al \<Longrightarrow> AList.update k v al = al @ [(k, v)]"
  by (induction al) auto

lemma fold_update_distinct:
  "distinct (map fst (acc @ al)) \<Longrightarrow> fold (\<lambda>(k, v). AList.update k v) al acc = acc @ al"
proof (induction al arbitrary: acc)
  case (Cons kv al)
  then show ?case by (cases kv) (auto simp: update_fresh)
qed simp

lemma dec_LLState_enc: "LLState_ok s \<Longrightarrow> dec_LLState (enc_LLState s) = Some s"
proof -
  assume ok: "LLState_ok s"
  have sort: "sort_key fst (ll_Options s) = ll_Options s"
    using ok by (simp add: LLState_ok_def sorted_sort_id sort_key_id_if_sorted)
  let ?js = "JObj (map (\<lambda>(k, v). (k, JStr v)) (ll_Options s))"
  have 1: "map fst (map (\<lambda>(k, v). (k, JStr v)) (ll_Options s)) = map fst (ll_Options s)"
    "map snd (map (\<lambda>(k, v). (k, JStr v)) (ll_Options s)) = map JStr (map snd (ll_Options s))"
    by auto
  have "those_of dec_string (map JStr (map snd (ll_Options s))) = Some (map snd (ll_Options s))"
    by (rule those_of_map) simp
  then have "dec_options ?js = Some (ll_Options s)"
    using ok by (simp only: dec_options_def dec_struct.simps 1 option.map zip_map_fst_snd)
      (simp add: fold_update_distinct [of "[]"] LLState_ok_def)
  moreover have "field ''options'' (members [(''options'', Some ?js)]) = ?js"
    using field_members [of "[(''options'', Some ?js)]" "''options''" "Some ?js"] by (simp add: or_null_def)
  ultimately show ?thesis
    using ok by (simp add: dec_LLState_def enc_LLState_def sort LLState_ok_def)
qed

lemma dec_State_enc: "State_ok s \<Longrightarrow> dec_State (enc_State s) = Some s"
proof -
  assume ok: "State_ok s"
  let ?xs = "[(''id'', Some (JStr (st_ID s))), (''init_process_pid'', Some (j_int (st_InitProcessPid s))),
     (''init_process_start'', Some (JStr (st_InitProcessStartTime s))), (''created'', Some (JStr (st_Created s))),
     (''config'', Some (enc_Config (st_Config s))), (''fsstate'', Some (enc_LLState (st_FsState s))),
     (''netstate'', Some (enc_LLState (st_NetworkState s))), (''execstate'', Some (enc_LLState (st_ExecState s))),
     (''status'', Some (j_int (Status_int (st_Status s))))]"
  have d: "distinct (map (fold_name \<circ> fst) ?xs)"
    by (simp add: fold_name_defs)
  show ?thesis
    using ok
    by (simp add: dec_State_def enc_State_def field_members [OF d] State_ok_def Status_ok_def dec_Config_enc
        dec_LLState_enc)
qed


subsection \<open>The file's text\<close>

lemma json_ok_members:
  "(\<And>k j. (k, Some j) \<in> set xs \<Longrightarrow> json_ok j) \<Longrightarrow> json_ok (JObj (members xs))"
proof -
  assume "\<And>k j. (k, Some j) \<in> set xs \<Longrightarrow> json_ok j"
  then have "\<forall>kv \<in> set xs. \<forall>j. snd kv = Some j \<longrightarrow> json_ok j" by (metis prod.collapse)
  then have "list_all (\<lambda>(k, v). json_ok v) (members xs)"
    by (induction xs) (auto simp: members_def List.map_filter_def)
  then show ?thesis by simp
qed

lemma drop_digits: "list_all is_digit s \<Longrightarrow> dropWhile is_digit s = []"
  by (induction s) auto

lemma hd_nat_text_zero: "hd (nat_text n) = CHR ''0'' \<Longrightarrow> n = 0"
proof (induction n rule: nat_text.induct)
  case (1 n)
  show ?case
  proof (cases "n < 10")
    case True
    then have "digit_char n = CHR ''0''" using "1.prems" by (simp add: nat_text.simps [of n])
    then have "digit_val (digit_char n) = 0" by (simp add: digit_val_def)
    with True show ?thesis by simp
  next
    case False
    then have "n div 10 = 0" using 1 by (simp add: nat_text.simps [of n])
    with False show ?thesis by simp
  qed
qed

lemma unsigned_nat_text: "unsigned_ok (nat_text n)"
proof (cases "nat_text n")
  case (Cons c s)
  then have d: "is_digit c" "list_all is_digit s" using nat_text_digits [of n] by simp_all
  show ?thesis
  proof (cases "c = CHR ''0''")
    case True
    then have "n = 0" using hd_nat_text_zero [of n] Cons by simp
    then have "s = []" using Cons by (simp add: nat_text.simps)
    with True Cons show ?thesis by simp
  next
    case False
    then show ?thesis using Cons d by (simp add: drop_digits)
  qed
qed simp

lemma number_nat_text: "number_ok (nat_text n)"
proof -
  obtain c s where c: "nat_text n = c # s" by (cases "nat_text n") auto
  then have "c \<noteq> CHR ''-''" using hd_nat_text [of n] by auto
  with c show ?thesis using unsigned_nat_text [of n] by (simp add: number_ok_def)
qed

lemma json_ok_int [simp]: "json_ok (j_int n)"
proof -
  have "list_all number_char (nat_text k)" for k
    using nat_text_digits [of k] by (auto simp: list_all_iff number_char_def)
  moreover have "number_char (CHR ''-'')" by (simp add: number_char_def)
  ultimately show ?thesis
    using number_nat_text unsigned_nat_text by (auto simp: j_int_def int_text_def number_ok_def)
qed

lemma json_ok_strings [simp]: "json_ok (j_strings ss)"
  by (simp add: j_strings_def list_all_iff)

lemma json_ok_nonempty:
  "nonempty f xs = Some j \<Longrightarrow> json_ok (f xs) \<Longrightarrow> json_ok j"
  by (auto simp: nonempty_def split: if_splits)

lemma json_ok_enc [simp]:
  "json_ok (enc_Mount m)" "json_ok (enc_Hook h)" "json_ok (enc_Hooks hs)" "json_ok (enc_Config c)"
  "json_ok (enc_LLState l)" "json_ok (enc_State s)" "json_ok (enc_initConfig i)"
proof -
  show m: "json_ok (enc_Mount m)" for m
    unfolding enc_Mount_def by (rule json_ok_members) (auto dest!: sym [of "Some _"] json_ok_nonempty)
  show h: "json_ok (enc_Hook h)" for h
    unfolding enc_Hook_def by (rule json_ok_members) (auto dest!: sym [of "Some _"] json_ok_nonempty)
  show hs: "json_ok (enc_Hooks hs)" for hs
    unfolding enc_Hooks_def
    by (rule json_ok_members) (auto dest!: sym [of "Some _"] json_ok_nonempty simp: list_all_iff h)
  show c: "json_ok (enc_Config c)" for c
    unfolding enc_Config_def
    by (rule json_ok_members)
      (auto dest!: sym [of "Some _"] json_ok_nonempty simp: list_all_iff m hs split: if_splits)
  show l: "json_ok (enc_LLState l)" for l
    unfolding enc_LLState_def by (rule json_ok_members) (auto simp: list_all_iff)
  show "json_ok (enc_State s)"
    unfolding enc_State_def by (rule json_ok_members) (auto simp: c l)
  show "json_ok (enc_initConfig i)"
    unfolding enc_initConfig_def
    by (rule json_ok_members) (auto simp: list_all_iff c l m hs or_null_def split: option.split)
qed

lemma State_text:
  assumes "State_ok s" and "stops r"
  shows "Option.bind (parse_json (print_json (enc_State s) @ r)) dec_State_ptr = Some (Some s)"
proof -
  have "enc_State s \<noteq> JNull" by (simp add: enc_State_def)
  then show ?thesis
    using assms by (simp add: parse_print dec_State_ptr_def dec_ptr_def dec_State_enc)
qed

end
