(* ===== verification/RunncCont.thy ===== *)
theory RunncCont
  imports IsoFs TapBridge State
begin

text \<open>
  \<open>llruntimes/nabla\<close>: the execution handler and \<open>runnc-cont\<close>, which turns the container's
  configuration and the handlers' options into the arguments of \<open>nabla-run\<close> and executes it.
\<close>

subsection \<open>The rumprun arguments\<close>

record rumpArgsNetwork =
  ra_If :: string
  ra_Cloner :: string
  ra_Type :: string
  ra_Method :: string
  ra_Addr :: string
  ra_Mask :: string
  ra_Gw :: string

record rumpArgsBlock =
  rb_Source :: string
  rb_Path :: string
  rb_Fstype :: string
  rb_Mount :: string

record rumpArgs =
  ra_Cmdline :: string
  ra_Net :: rumpArgsNetwork
  ra_Blk :: "rumpArgsBlock option"
  ra_Env :: "string list"
  ra_Cwd :: string
  ra_Mem :: string

definition enc_rumpNet :: "rumpArgsNetwork \<Rightarrow> json" where
  "enc_rumpNet n = JObj [(''if'', JStr (ra_If n)), (''cloner'', JStr (ra_Cloner n)), (''type'', JStr (ra_Type n)),
     (''method'', JStr (ra_Method n)), (''addr'', JStr (ra_Addr n)), (''mask'', JStr (ra_Mask n)),
     (''gw'', JStr (ra_Gw n))]"

definition enc_rumpBlock :: "rumpArgsBlock \<Rightarrow> json" where
  "enc_rumpBlock b = JObj [(''source'', JStr (rb_Source b)), (''path'', JStr (rb_Path b)),
     (''fstype'', JStr (rb_Fstype b)), (''mountpoint'', JStr (rb_Mount b))]"

text \<open>The structure without its \<open>Env\<close>, as the alias of \<open>MarshalJSON\<close> encodes it.\<close>

definition enc_rest :: "rumpArgs \<Rightarrow> json" where
  "enc_rest ra = JObj (members [(''cmdline'', Some (JStr (ra_Cmdline ra))), (''net'', Some (enc_rumpNet (ra_Net ra))),
     (''blk'', map_option enc_rumpBlock (ra_Blk ra)), (''cwd'', nonempty JStr (ra_Cwd ra)),
     (''mem'', nonempty JStr (ra_Mem ra))])"

text \<open>One variable: the encoding of \<open>EnvAlias\<close> without its braces, and a comma.\<close>

definition env_bytes :: "string \<Rightarrow> string" where
  "env_bytes v = butlast (tl (print_json (JObj (members [(''env'', nonempty JStr v)])))) @ '',''"

text \<open>
  \<open>MarshalJSON\<close> splices the variables in after the opening brace, so that the key is repeated.
\<close>

definition MarshalJSON :: "rumpArgs \<Rightarrow> string" where
  "MarshalJSON ra =
     (let addString = concat (map env_bytes (ra_Env ra)); otherBytes = print_json (enc_rest ra)
      in take 1 otherBytes @ addString @ drop 1 otherBytes)"

definition json_valid :: "string \<Rightarrow> bool" where
  "json_valid s = (case parse_value (Suc (length s)) s of None \<Rightarrow> False | Some (_, r) \<Rightarrow> skip r = '''')"

text \<open>\<open>json.Marshal\<close> of a \<open>Marshaler\<close> refuses what its method returns unless it is valid JSON.\<close>

definition Marshal_rumpArgs :: "rumpArgs \<Rightarrow> string res" where
  "Marshal_rumpArgs ra = (if json_valid (MarshalJSON ra) then Ok (MarshalJSON ra)
     else Err (Msg ''json: error calling MarshalJSON''))"

text \<open>A mask of 32 is written as 1.\<close>

definition rump_mask :: "IPMask \<Rightarrow> string" where
  "rump_mask m = (let cidr = int_text (MaskCIDR m) in if cidr = ''32'' then ''1'' else cidr)"

definition rump_args ::
  "IP \<Rightarrow> IPMask \<Rightarrow> IP \<Rightarrow> string \<Rightarrow> string list \<Rightarrow> string \<Rightarrow> string \<Rightarrow> string list \<Rightarrow> rumpArgs" where
  "rump_args ip ipmask gw mountPoint envVars cwd unikernel cmdargs =
     \<lparr>ra_Cmdline = join_with '' '' (unikernel # cmdargs),
      ra_Net = \<lparr>ra_If = ''ukvmif0'', ra_Cloner = ''True'', ra_Type = ''inet'', ra_Method = ''static'',
        ra_Addr = IP_String ip, ra_Mask = rump_mask ipmask, ra_Gw = IP_String gw\<rparr>,
      ra_Blk = (if mountPoint \<noteq> '''' then Some \<lparr>rb_Source = ''etfs'', rb_Path = ''/dev/ld0a'',
        rb_Fstype = ''blk'', rb_Mount = mountPoint\<rparr> else None),
      ra_Env = envVars, ra_Cwd = cwd, ra_Mem = ''''\<rparr>"

definition CreateRumprunArgs ::
  "IP \<Rightarrow> IPMask \<Rightarrow> IP \<Rightarrow> string \<Rightarrow> string list \<Rightarrow> string \<Rightarrow> string \<Rightarrow> string list \<Rightarrow> string res" where
  "CreateRumprunArgs ip ipmask gw mountPoint envVars cwd unikernel cmdargs =
     (case Marshal_rumpArgs (rump_args ip ipmask gw mountPoint envVars cwd unikernel cmdargs) of
        Err e \<Rightarrow> Err (Errorf ''error with rumprun json: '' e '''') | r \<Rightarrow> r)"

subsection \<open>The container\<close>

record ContConfig =
  cc_NablaRunBin :: string
  cc_NablaRunArgs :: "string list"
  cc_UniKernelBin :: string
  cc_Tap :: string
  cc_IPAddress :: string
  cc_IPMask :: int
  cc_Gateway :: string
  cc_Mac :: string
  cc_Memory :: int
  cc_Disk :: "string list"
  cc_WorkingDir :: string
  cc_Env :: "string list"
  cc_Mounts :: "Mount list"

record RunncCont =
  rc_NablaRunBin :: string
  rc_NablaRunArgs :: "string list"
  rc_UniKernelBin :: string
  rc_Tap :: string
  rc_IPAddress :: IP
  rc_IPMask :: IPMask
  rc_Gateway :: IP
  rc_Mac :: string
  rc_Memory :: int
  rc_Disk :: string
  rc_WorkingDir :: string
  rc_Env :: "string list"
  rc_Mounts :: "Mount list"

definition NewRunncCont :: "ContConfig \<Rightarrow> RunncCont res" where
  "NewRunncCont cfg =
     (if cc_Disk cfg = [] then Err (Msg ''No disk provided'')
      else if cc_IPAddress cfg = '''' \<or> cc_Gateway cfg = '''' \<or> cc_Tap cfg = ''''
        then Err (Msg ''Insufficient network arguments set'')
      else let netstr = cc_IPAddress cfg @ ''/'' @ int_text (cc_IPMask cfg) in
        (case ParseCIDR netstr of
           None \<Rightarrow> Err (Msg (''not a valid IP address: '' @ netstr))
         | Some (ipAddress, ipMask) \<Rightarrow> (case ParseIP (cc_Gateway cfg) of
             None \<Rightarrow> Err (Msg (''not a valid gateway address: '' @ cc_Gateway cfg))
           | Some gateway \<Rightarrow>
               if cc_Mac cfg \<noteq> '''' \<and> ParseMAC (cc_Mac cfg) = None
               then Err (Msg (''not a valid mac addr: '' @ cc_Mac cfg))
               else Ok \<lparr>rc_NablaRunBin = cc_NablaRunBin cfg, rc_NablaRunArgs = cc_NablaRunArgs cfg,
                 rc_UniKernelBin = cc_UniKernelBin cfg, rc_Tap = cc_Tap cfg, rc_IPAddress = ipAddress,
                 rc_IPMask = ipMask, rc_Gateway = gateway, rc_Mac = cc_Mac cfg, rc_Memory = cc_Memory cfg,
                 rc_Disk = hd (cc_Disk cfg), rc_WorkingDir = cc_WorkingDir cfg, rc_Env = cc_Env cfg,
                 rc_Mounts = cc_Mounts cfg\<rparr>)))"

definition setupDisk :: "string \<Rightarrow> ('n world, string) io" where
  "setupDisk path =
     (if path = '''' then CreateDummy
      else try_io (os_Stat path)
        (\<lambda>_. fail (Msg (''can not find the disk or directory '' @ path)))
        (\<lambda>pathInfo. if i_kind pathInfo = KDir then fail (Msg (''input storage '' @ path @ '' is not an ISO''))
          else ret path))"

text \<open>\<open>exec.LookPath\<close>.\<close>

definition any_exec :: "mode \<Rightarrow> bool" where
  "any_exec m = (m AND octal3 1 1 1 \<noteq> 0)"

definition findExecutable :: "string \<Rightarrow> ('n world, unit) io" where
  "findExecutable p = seq (os_Stat p) (\<lambda>st.
     if i_kind st \<noteq> KDir \<and> any_exec (i_mode st) then ret () else fail (Errno EACCES))"

fun search_path :: "string \<Rightarrow> string list \<Rightarrow> ('n world, string) io" where
  "search_path name [] = fail (Msg ''executable file not found in $PATH'')"
| "search_path name (d # ds) =
     (let p = Join [if d = '''' then ''.'' else d, name]
      in try_io (findExecutable p) (\<lambda>_. search_path name ds) (\<lambda>_. ret p))"

definition exec_LookPath :: "string \<Rightarrow> ('n world, string) io" where
  "exec_LookPath name =
     (if CHR ''/'' \<in> set name then seq (findExecutable name) (\<lambda>_. ret name)
      else seq (os_Getenv ''PATH'') (\<lambda>path. search_path name (if path = '''' then [] else split_on (CHR '':'') path)))"

text \<open>\<open>syscall.Exec\<close>: it returns only when it fails.\<close>

definition sys_Exec :: "string \<Rightarrow> string list \<Rightarrow> string list \<Rightarrow> ('n world, unit) io" where
  "sys_Exec path args envs = at_path path (\<lambda>q. syscall (OpExec path args) (\<lambda>w. case fs_get w q of
       None \<Rightarrow> (Err (Errno (missing_err w q)), w)
     | Some n \<Rightarrow> (case i_kind n of
           KFile _ \<Rightarrow> if any_exec (i_mode n) then (Stop (Execed path args envs), w) else (Err (Errno EACCES), w)
         | _ \<Rightarrow> (Err (Errno EACCES), w))))"

definition os_Environ :: "('n world, string list) io" where
  "os_Environ = gets (\<lambda>w. map (\<lambda>(k, v). k @ ''='' @ v) (e_vars (w_env w)))"

definition exec_env :: "string list \<Rightarrow> string list" where
  "exec_env envs = filter (\<lambda>v. \<not> HasPrefix v ''LD_LIBRARY_PATH='') envs @ [''LD_LIBRARY_PATH=/lib64'']"

text \<open>
  The arguments of \<open>nabla-run\<close>. The \<open>mac\<close> the source tests is a local variable that nothing
  assigns, so the branch with \<open>--net-mac\<close> is never taken, whatever \<open>rc_Mac\<close> is.
\<close>

definition run_args :: "RunncCont \<Rightarrow> string \<Rightarrow> string \<Rightarrow> string \<Rightarrow> string list" where
  "run_args r disk unikernel unikernelArgs =
     (let mac = '''' in
      if mac \<noteq> '''' then [rc_NablaRunBin r, ''--x-exec-heap'', ''--mem='' @ int_text (rc_Memory r),
        ''--net-mac='' @ mac, ''--net='' @ rc_Tap r, ''--disk='' @ disk, unikernel, unikernelArgs]
      else [rc_NablaRunBin r, ''--x-exec-heap'', ''--mem='' @ int_text (rc_Memory r),
        ''--net='' @ rc_Tap r, ''--disk='' @ disk, unikernel, unikernelArgs])"

definition find_unikernel :: "RunncCont \<Rightarrow> ('n world, string) io" where
  "find_unikernel r = try_io (os_Stat (rc_UniKernelBin r))
     (\<lambda>_. map_err (\<lambda>e. Errorf (''could not find the nabla file '' @ rc_UniKernelBin r @ '': '') e '''')
        (exec_LookPath (rc_UniKernelBin r)))
     (\<lambda>_. ret (rc_UniKernelBin r))"

definition Run :: "RunncCont \<Rightarrow> ('n world, unit) io" where
  "Run r =
     seq (map_err (\<lambda>e. Errorf ''could not setup the disk: '' e '''') (setupDisk (rc_Disk r))) (\<lambda>disk.
     seq (find_unikernel r) (\<lambda>unikernel.
     case CreateRumprunArgs (rc_IPAddress r) (rc_IPMask r) (rc_Gateway r) ''/'' (rc_Env r)
         (rc_WorkingDir r) unikernel (rc_NablaRunArgs r) of
       Err e \<Rightarrow> fail (Errorf ''could not create the unikernel cmdline: '' e [CHR 0x0A])
     | Stop x \<Rightarrow> halt x
     | Ok unikernelArgs \<Rightarrow>
         seq os_Environ (\<lambda>envs.
         map_err (\<lambda>e. Errorf ''Err from execve: '' e [CHR 0x0A])
           (sys_Exec (rc_NablaRunBin r) (run_args r disk unikernel unikernelArgs) (exec_env envs)))))"

subsection \<open>The execution handler\<close>

definition NablaBinDir :: string where "NablaBinDir = ''/opt/runnc/bin/''"
definition NablaRunBin :: string where "NablaRunBin = NablaBinDir @ ''nabla-run''"

definition option_of :: "(string \<times> string) list \<Rightarrow> string \<Rightarrow> string" where
  "option_of m k = (case map_of m k of None \<Rightarrow> '''' | Some v \<Rightarrow> v)"

text \<open>The message for a bad mask prints the zero \<open>Atoi\<close> returned, not its error.\<close>

definition newRunncCont ::
  "string \<Rightarrow> Config \<Rightarrow> (string \<times> string) list \<Rightarrow> (string \<times> string) list \<Rightarrow> RunncCont res" where
  "newRunncCont containerRoot cfg networkMap fsMap =
     (case cfg_Args cfg of
        [] \<Rightarrow> Err (Msg ''OCI process args are empty'')
      | arg # rest \<Rightarrow>
          if \<not> HasSuffix arg ''.nabla'' then Err (Msg ''entrypoint is not a .nabla file'')
          else (case Atoi (option_of networkMap ''IPMask'') of
              None \<Rightarrow> Err (Msg ''Unablae to parse IPMask: 0'')
            | Some cidr \<Rightarrow> NewRunncCont \<lparr>cc_NablaRunBin = NablaRunBin, cc_NablaRunArgs = rest,
                cc_UniKernelBin = Join [containerRoot, arg], cc_Tap = option_of networkMap ''TapName'',
                cc_IPAddress = option_of networkMap ''IPAddress'', cc_IPMask = cidr,
                cc_Gateway = option_of networkMap ''Gateway'', cc_Mac = option_of networkMap ''Mac'',
                cc_Memory = cfg_Memory cfg, cc_Disk = [option_of fsMap ''FsPath''],
                cc_WorkingDir = cfg_Cwd cfg, cc_Env = cfg_Env cfg, cc_Mounts = cfg_Mounts cfg\<rparr>))"

definition nabla_ExecRunFunc :: "ExecGenericInput \<Rightarrow> ('n world, unit) io" where
  "nabla_ExecRunFunc i =
     (case (gi_NetworkState i, gi_FsState i) of
        (Some net, Some fs) \<Rightarrow> (case newRunncCont (gi_ContainerRoot i) (gi_Config i) (ll_Options net) (ll_Options fs) of
            Err e \<Rightarrow> fail (Wrap e ''Unable to construct nabla run args'')
          | Stop x \<Rightarrow> halt x
          | Ok r \<Rightarrow> Run r)
      | _ \<Rightarrow> halt (Panic ''nil pointer dereference''))"

definition nablaExecHandler :: "'n ExecHandler" where
  "nablaExecHandler = \<lparr>ExecCreateFunc = \<lambda>_. ret (Some empty_LLState), ExecRunFunc = nabla_ExecRunFunc,
     ExecDestroyFunc = \<lambda>_. ret (Some empty_LLState)\<rparr>"

lemma Run_blind: "fs_blind P \<Longrightarrow> preserves P (Run r)"
proof -
  assume P: "fs_blind P"
  have exe: "preserves P (findExecutable p)" for p
    unfolding findExecutable_def by (intro preserves_seq preserves_if preserves_ret preserves_fail blind_os_ops P)
  have search: "preserves P (search_path n ds)" for n ds
    by (induction ds; unfold search_path.simps Let_def; intro preserves_try_io preserves_ret preserves_fail exe; assumption)
  have disk: "preserves P (setupDisk d)" for d
    unfolding setupDisk_def CreateDummy_def
    by (intro preserves_if preserves_seq preserves_try_io preserves_ret preserves_fail blind_TempFile blind_os_ops blind_os_more P)
  have uk: "preserves P (find_unikernel r)"
    unfolding find_unikernel_def exec_LookPath_def
    by (intro preserves_try_io preserves_map_err preserves_if preserves_seq preserves_ret preserves_os_Getenv exe search blind_os_ops P)
  have env: "preserves P os_Environ"
    unfolding os_Environ_def by (rule preserves_gets)
  have call: "preserves P (sys_Exec p a e)" for p a e
    unfolding sys_Exec_def by (intro preserves_at_path blind_syscall P) (simp add: preserves_def split: option.split kind.split)
  show ?thesis
    unfolding Run_def
    by (intro preserves_seq preserves_map_err disk uk) (auto split: res.split intro!: preserves_seq preserves_map_err preserves_fail preserves_halt env call)
qed

interpretation nablaexec: exec_handler nablaExecHandler
proof unfold_locales
  fix i :: ExecGenericInput and l
  show "preserves (\<lambda>w. w_log w = l) (ExecRunFunc nablaExecHandler i)"
    unfolding nablaExecHandler_def ExecHandler.simps nabla_ExecRunFunc_def
    by (auto split: option.split res.split intro!: preserves_fail preserves_halt Run_blind fs_blind_log)
qed (simp_all add: nablaExecHandler_def)

subsection \<open>The arguments are valid JSON\<close>

definition env_member :: "string \<Rightarrow> string \<times> json" where
  "env_member v = (''env'', JStr v)"

lemma env_bytes_some: "v \<noteq> '''' \<Longrightarrow> env_bytes v = print_member (env_member v) @ '',''"
  by (simp add: env_bytes_def env_member_def members_def List.map_filter_def nonempty_def print_object
      butlast_append del: print_json.simps(6))

lemma env_bytes_empty: "env_bytes '''' = '',''"
  by (simp add: env_bytes_def members_def List.map_filter_def nonempty_def)

lemma join_members_append:
  "ms \<noteq> [] \<Longrightarrow> concat (map (\<lambda>m. print_member m @ '','') es) @ join_with '','' (map print_member ms)
    = join_with '','' (map print_member (es @ ms))"
proof (induction es)
  case (Cons e es)
  then show ?case by (cases "es @ ms") auto
qed simp

definition rest_members :: "rumpArgs \<Rightarrow> (string \<times> json) list" where
  "rest_members ra = members [(''cmdline'', Some (JStr (ra_Cmdline ra))), (''net'', Some (enc_rumpNet (ra_Net ra))),
     (''blk'', map_option enc_rumpBlock (ra_Blk ra)), (''cwd'', nonempty JStr (ra_Cwd ra)),
     (''mem'', nonempty JStr (ra_Mem ra))]"

lemma rest_members_nonempty [simp]: "rest_members ra \<noteq> []"
  by (simp add: rest_members_def members_def List.map_filter_def)

lemma env_bytes_all:
  "'''' \<notin> set vs \<Longrightarrow> concat (map env_bytes vs) = concat (map (\<lambda>m. print_member m @ '','') (map env_member vs))"
proof (induction vs)
  case (Cons v vs)
  then have "v \<noteq> ''''" by auto
  with Cons show ?case by (simp add: env_bytes_some)
qed simp

lemma MarshalJSON_object:
  assumes "'''' \<notin> set (ra_Env ra)"
  shows "MarshalJSON ra = print_json (JObj (map env_member (ra_Env ra) @ rest_members ra))"
proof -
  have "MarshalJSON ra = CHR ''{'' # concat (map env_bytes (ra_Env ra)) @ join_with '','' (map print_member (rest_members ra)) @ ''}''"
    by (simp add: MarshalJSON_def enc_rest_def rest_members_def [symmetric] print_object Let_def del: print_json.simps)
  then show ?thesis
    unfolding print_object env_bytes_all [OF assms]
    using join_members_append [of "rest_members ra" "map env_member (ra_Env ra)"] by simp
qed


lemma rest_members_ok: "list_all (\<lambda>(k, v). json_ok v) (rest_members ra)"
  by (cases "ra_Blk ra") (simp_all add: rest_members_def members_def List.map_filter_def enc_rumpNet_def enc_rumpBlock_def nonempty_def)

lemma Marshal_nonempty:
  assumes "'''' \<notin> set (ra_Env ra)"
  shows "Marshal_rumpArgs ra = Ok (print_json (JObj (map env_member (ra_Env ra) @ rest_members ra)))"
proof -
  let ?j = "JObj (map env_member (ra_Env ra) @ rest_members ra)"
  have "list_all (\<lambda>(k, v). json_ok v) (map env_member (ra_Env ra))"
    by (simp add: list_all_iff env_member_def)
  then have "json_ok ?j" using rest_members_ok [of ra] by simp
  then have "parse_value (Suc (length (print_json ?j))) (print_json ?j @ '''') = Some (?j, '''')"
    by (intro parse_value_print) (simp_all add: stops_def)
  then have "json_valid (print_json ?j)" by (simp add: json_valid_def)
  then show ?thesis by (simp add: Marshal_rumpArgs_def MarshalJSON_object [OF assms])
qed

lemma parse_members_comma: "parse_members n (CHR '','' # r) = None"
  by (cases n) (simp_all add: parse_members.simps json_space_def quote_def)

lemma parse_members_string:
  assumes "parse_members m t = None"
  shows "parse_members (Suc m) (print_member (k, JStr v) @ CHR '','' # t) = None"
proof -
  have shape: "print_member (k, JStr v) @ u = quote # concat (map escape_char k) @ quote # CHR '':'' #
      quote # concat (map escape_char v) @ quote # u" for u
    by (simp add: print_member_def print_string_def)
  have space: "\<not> json_space quote" "\<not> json_space CHR '':''" "\<not> json_space CHR '',''"
    by (simp_all add: json_space_def quote_def)
  have "parse_value m (quote # concat (map escape_char v) @ quote # CHR '','' # t) \<in>
      {None, Some (JStr v, CHR '','' # t)}"
    by (cases m) (auto simp: parse_value.simps parse_print_string space)
  then show ?thesis
    using assms unfolding shape
    by (auto simp: parse_members.simps parse_print_string space)
qed

lemma parse_members_double_comma:
  "parse_members n (concat (map (\<lambda>m. print_member m @ '','') (map env_member vs)) @ CHR '','' # r) = None"
proof (induction vs arbitrary: n)
  case (Cons v vs)
  then show ?case
    using parse_members_string [OF Cons.IH] by (cases n) (simp_all add: parse_members.simps env_member_def)
qed (simp add: parse_members_comma)
lemma Marshal_empty:
  assumes "'''' \<in> set (ra_Env ra)"
  shows "\<exists>e. Marshal_rumpArgs ra = Err e"
proof -
  obtain vs ws where env: "ra_Env ra = vs @ '''' # ws" and vs: "'''' \<notin> set vs"
    using split_list_first [OF assms] by blast
  obtain r where shape: "MarshalJSON ra = CHR ''{'' # concat (map (\<lambda>m. print_member m @ '','') (map env_member vs)) @ CHR '','' # r"
    by (simp add: MarshalJSON_def enc_rest_def print_object Let_def env env_bytes_all [OF vs] env_bytes_empty del: print_json.simps)
  let ?X = "concat (map (\<lambda>m. print_member m @ '','') (map env_member vs)) @ CHR '','' # r"
  obtain d u where X: "?X = d # u" "d = CHR '','' \<or> d = quote"
    by (cases vs) (auto simp: print_member_def print_string_def)
  have "\<not> json_space d" "d \<noteq> CHR ''}''" "\<not> json_space CHR ''{''" "CHR ''{'' \<noteq> quote"
    using X(2) by (auto simp: json_space_def quote_def)
  moreover have "parse_members n (d # u) = None" for n
    using parse_members_double_comma [of n vs r] unfolding X(1) .
  ultimately have "\<not> json_valid (MarshalJSON ra)"
    unfolding shape X(1) by (simp add: json_valid_def parse_value.simps)
  then show ?thesis by (simp add: Marshal_rumpArgs_def)
qed

end
