(* ===== verification/Container.thy ===== *)
theory Container
  imports State
begin

text \<open>
  \<open>libcontainer/container_nabla.go\<close>: the container object and its operations. The object's
  methods run on the pair of the object and the world. The mutex that serialises the methods of
  one object within a process is added in \<open>Api\<close>; the unused \<open>created\<close> field is left out, and the
  handler is an argument. The functions of runc's \<open>libcontainer\<close>
  packages, and the decoding of a specification into the types of \<open>specs-go\<close> (\<open>None\<close>: the text is
  \<open>null\<close>), are the record \<open>runclib\<close>.
\<close>

subsection \<open>runc's helper packages\<close>

record 'n runclib =
  rl_WriteJSON :: "json \<Rightarrow> string"
  rl_GetProcessStartTime :: "int \<Rightarrow> ('n world, string) io"
  rl_SearchLabels :: "string list \<Rightarrow> string \<Rightarrow> string"
  rl_ExitStatus :: "int \<Rightarrow> int"
  rl_SetSubreaper :: "('n world, unit) io"
  rl_DecodeSpec :: "string \<Rightarrow> Spec option res"

text \<open>\<open>utils.WriteJSON\<close> writes the JSON encoding of its argument.\<close>

definition WriteJSON_encodes :: "'n runclib \<Rightarrow> bool" where
  "WriteJSON_encodes R \<longleftrightarrow> (\<forall>j. json_ok j \<longrightarrow> parse_json (rl_WriteJSON R j) = Some j)"

text \<open>\<open>system.GetProcessStartTime\<close> reads \<open>/proc/<pid>/stat\<close>: it changes nothing.\<close>

definition StartTime_reads :: "'n runclib \<Rightarrow> bool" where
  "StartTime_reads R \<longleftrightarrow> (\<forall>pid w. snd (rl_GetProcessStartTime R pid w) = w)"

subsection \<open>Processes and commands\<close>

text \<open>
  \<open>Process\<close> of \<open>libcontainer/process.go\<close>; \<open>p_ops\<close> is the id of the process its operations act
  on, once there is one. Open files are named by what they are.
\<close>

datatype osfile = StdFile nat | ExtraFd nat | PipeEnd nat | InitPipeChild | StateDir path | ConsoleSlave string

record Process =
  p_Args :: "string list"
  p_Env :: "string list"
  p_User :: string
  p_AdditionalGroups :: "string list"
  p_Cwd :: string
  p_Stdin :: "osfile option"
  p_Stdout :: "osfile option"
  p_Stderr :: "osfile option"
  p_ExtraFiles :: "osfile list"
  p_consolePath :: string
  p_Capabilities :: "string list"
  p_AppArmorProfile :: string
  p_Label :: string
  p_NoNewPrivileges :: "bool option"
  p_ops :: "int option"
  p_OOMScoreAdj :: "int option"

definition MinInt32 :: int where "MinInt32 = - (2 ^ 31)"

text \<open>The operations of a started process, \<open>nablaProcess\<close>, of which only the id matters.\<close>

definition nablaProcess_pid :: "int \<Rightarrow> int" where
  [simp]: "nablaProcess_pid pid = pid"

definition nablaProcess_signal :: "int \<Rightarrow> int \<Rightarrow> ('n world, unit) io" where
  [simp]: "nablaProcess_signal pid sig = sys_Kill (nablaProcess_pid pid) sig"

definition nablaProcess_wait :: "int \<Rightarrow> ('n world, unit) io" where
  [simp]: "nablaProcess_wait pid = proc_Wait pid"

definition Process_Pid :: "Process \<Rightarrow> int \<times> goerr option" where
  "Process_Pid p = (case p_ops p of
     None \<Rightarrow> (MinInt32, Some (Msg ''invalid process'')) | Some ops \<Rightarrow> (nablaProcess_pid ops, None))"

definition Process_Signal :: "Process \<Rightarrow> int \<Rightarrow> ('n world, unit) io" where
  "Process_Signal p sig = (case p_ops p of
     None \<Rightarrow> fail (Msg ''invalid process'') | Some ops \<Rightarrow> nablaProcess_signal ops sig)"

definition Process_Wait :: "Process \<Rightarrow> ('n world, unit) io" where
  "Process_Wait p = (case p_ops p of
     None \<Rightarrow> fail (Msg ''invalid process'') | Some ops \<Rightarrow> nablaProcess_wait ops)"
record Cmd =
  cmd_Path :: string
  cmd_Args :: "string list"
  cmd_Env :: "string list"
  cmd_Dir :: string
  cmd_Stdin :: "osfile option"
  cmd_Stdout :: "osfile option"
  cmd_Stderr :: "osfile option"
  cmd_ExtraFiles :: "osfile list"
  cmd_Setpgid :: bool

subsection \<open>The object\<close>

record nablaContainer =
  nc_id :: string
  nc_root :: string
  nc_config :: Config
  nc_state :: State

type_synonym ('n, 'a) meth = "(nablaContainer \<times> 'n world, 'a) io"

definition on_world :: "('n world, 'a) io \<Rightarrow> ('n, 'a) meth" where
  "on_world m = zoom snd (\<lambda>w (c, _). (c, w)) m"

definition this :: "(nablaContainer \<Rightarrow> 'a) \<Rightarrow> ('n, 'a) meth" where
  "this f = gets (\<lambda>(c, w). f c)"

definition set_state :: "(State \<Rightarrow> State) \<Rightarrow> ('n, unit) meth" where
  "set_state f = modify (\<lambda>(c, w). (c\<lparr>nc_state := f (nc_state c)\<rparr>, w))"

definition stateFilename :: string where "stateFilename = ''state.json''"
definition execFifoFilename :: string where "execFifoFilename = ''exec.fifo''"
definition pauseNablaName :: string where "pauseNablaName = ''pause.nabla''"
definition stdioFdCount :: nat where "stdioFdCount = 3"

subsection \<open>Operations\<close>

text \<open>\<open>defer f.Close()\<close>: after \<open>m\<close>, whatever it returned; the error of the close is dropped.\<close>

definition deferred :: "('s, unit) io \<Rightarrow> ('s, 'a) io \<Rightarrow> ('s, 'a) io" where
  "deferred d m = try_io m (\<lambda>e. seq (ignore d) (\<lambda>_. fail e)) (\<lambda>a. seq (ignore d) (\<lambda>_. ret a))"

definition write_state :: "'n runclib \<Rightarrow> string \<Rightarrow> State \<Rightarrow> ('n world, unit) io" where
  "write_state R root s =
     seq (os_Create (Join [root, stateFilename])) (\<lambda>f.
     deferred (file_Close f) (file_Write f (rl_WriteJSON R (enc_State s))))"

definition saveState :: "'n runclib \<Rightarrow> ('n, unit) meth" where
  "saveState R = seq (this id) (\<lambda>c. on_world (write_state R (nc_root c) (nc_state c)))"

definition currentState :: "'n runclib \<Rightarrow> ('n, State) meth" where
  "currentState R =
     seq (this (st_InitProcessPid \<circ> nc_state)) (\<lambda>pid.
     try_io (on_world (os_Process_Signal pid 0))
       (\<lambda>_. seq (set_state (\<lambda>s. s\<lparr>st_Status := Stopped\<rparr>)) (\<lambda>_.
            seq (ignore (saveState R)) (\<lambda>_. this nc_state)))
       (\<lambda>_. this nc_state))"

definition currentStatus :: "'n runclib \<Rightarrow> ('n, Status) meth" where
  "currentStatus R = seq (currentState R) (\<lambda>s. ret (st_Status s))"

definition container_Signal :: "int \<Rightarrow> bool \<Rightarrow> ('n, unit) meth" where
  "container_Signal sig al =
     seq (this (st_InitProcessPid \<circ> nc_state)) (\<lambda>pid. on_world (sys_Kill (if al then - pid else pid) sig))"

text \<open>The number a file passed in \<open>ExtraFiles\<close> has in the child: its position after the standard three.\<close>

definition fd_env :: "string \<Rightarrow> Cmd \<Rightarrow> string" where
  "fd_env name cmd = name @ ''='' @ int_text (int (stdioFdCount + length (cmd_ExtraFiles cmd)) - 1)"

definition commandTemplate :: "nablaContainer \<Rightarrow> Process \<Rightarrow> Cmd" where
  "commandTemplate c p =
     (let cmd = \<lparr>cmd_Path = ''/proc/self/exe'', cmd_Args = [''/proc/self/exe'', ''init''], cmd_Env = [],
            cmd_Dir = cfg_Rootfs (nc_config c), cmd_Stdin = p_Stdin p, cmd_Stdout = p_Stdout p,
            cmd_Stderr = p_Stderr p, cmd_ExtraFiles = p_ExtraFiles p @ [InitPipeChild], cmd_Setpgid = True\<rparr>
      in cmd\<lparr>cmd_Env := cmd_Env cmd @ [fd_env ''_LIBCONTAINER_INITPIPE'' cmd]\<rparr>)"

definition add_state_dir :: "path \<Rightarrow> Cmd \<Rightarrow> Cmd" where
  "add_state_dir d cmd0 = (let cmd = cmd0\<lparr>cmd_ExtraFiles := cmd_ExtraFiles cmd0 @ [StateDir d]\<rparr>
     in cmd\<lparr>cmd_Env := cmd_Env cmd @ [fd_env ''_LIBCONTAINER_STATEDIR'' cmd]\<rparr>)"

definition init_config :: "nablaContainer \<Rightarrow> initConfig" where
  "init_config c = \<lparr>ic_Id = nc_id c, ic_BundlePath = nc_root c, ic_Root = cfg_Rootfs (nc_config c),
     ic_Args = cfg_Args (nc_config c), ic_Cwd = cfg_Cwd (nc_config c), ic_Env = cfg_Env (nc_config c),
     ic_TapName = '''', ic_NetnsPath = cfg_NetnsPath (nc_config c), ic_Hooks = cfg_Hooks (nc_config c),
     ic_Memory = cfg_Memory (nc_config c), ic_Mounts = cfg_Mounts (nc_config c),
     ic_Config = Some (nc_config c), ic_FsState = st_FsState (nc_state c),
     ic_NetworkState = st_NetworkState (nc_state c), ic_ExecState = st_ExecState (nc_state c)\<rparr>"

text \<open>The two ends of a socket pair, by the names they are given.\<close>

definition NewSockPair :: "string \<Rightarrow> ('n world, string \<times> string) io" where
  "NewSockPair name = seq sys_Socketpair (\<lambda>_. ret (name @ ''-p'', name @ ''-c''))"

text \<open>
  \<open>start\<close>: it returns the process with its operations set. The configuration is written to the
  pipe before the child exists. Once the child runs, the only error left is that of reading its
  start time, and then the state is not saved.
\<close>

definition start :: "'n runclib \<Rightarrow> Process \<Rightarrow> ('n, Process) meth" where
  "start R p =
     seq (map_err (\<lambda>e. newSystemErrorWithCause e ''creating new init pipe'') (on_world (NewSockPair ''init''))) (\<lambda>_.
     seq (this id) (\<lambda>c.
     seq (on_world (os_Open (nc_root c))) (\<lambda>rootDir.
     let cmd = add_state_dir rootDir (commandTemplate c p) in
     seq (on_world (sock_Write (print_json (enc_initConfig (init_config c)) @ [CHR 0x0A]))) (\<lambda>_.
     seq (on_world (proc_Start (cmd_Path cmd) (cmd_Args cmd) (cmd_Dir cmd))) (\<lambda>pid.
     seq (on_world time_Now) (\<lambda>now.
     seq (set_state (\<lambda>s. s\<lparr>st_InitProcessPid := pid, st_Created := now, st_Status := Created\<rparr>)) (\<lambda>_.
     try_io (on_world (rl_GetProcessStartTime R pid))
       (\<lambda>e. seq (set_state (\<lambda>s. s\<lparr>st_InitProcessStartTime := ''''\<rparr>)) (\<lambda>_. fail e))
       (\<lambda>t. seq (set_state (\<lambda>s. s\<lparr>st_InitProcessStartTime := t\<rparr>)) (\<lambda>_.
            seq (ignore (saveState R)) (\<lambda>_. ret (p\<lparr>p_ops := Some pid\<rparr>)))))))))))"

text \<open>Reading an open file to its end: a FIFO waits for its writer.\<close>

definition read_all :: "path \<Rightarrow> ('n world, string) io" where
  "read_all f = (\<lambda>w. (case fs_get w f of
     Some n \<Rightarrow> if i_kind n = KFifo then fifo_ReadAll f else file_ReadAll f
   | None \<Rightarrow> file_ReadAll f) w)"

definition exec :: "'n runclib \<Rightarrow> ('n, unit) meth" where
  "exec R =
     seq (this (\<lambda>c. Join [nc_root c, execFifoFilename])) (\<lambda>path.
     seq (map_err (\<lambda>e. newSystemErrorWithCause e ''open exec fifo for reading'') (on_world (os_Open path))) (\<lambda>f.
     deferred (on_world (file_Close f)) (
     seq (on_world (read_all f)) (\<lambda>data.
     if data \<noteq> [] then
       seq (set_state (\<lambda>s. s\<lparr>st_Status := Running\<rparr>)) (\<lambda>_.
       seq (ignore (saveState R)) (\<lambda>_.
       ignore (on_world (os_Remove path))))
     else fail (Msg ''cannot start an already running container'')))))"

definition or_empty :: "LLState option \<Rightarrow> LLState" where
  "or_empty s = (case s of None \<Rightarrow> empty_LLState | Some l \<Rightarrow> l)"

definition destroy_input :: "nablaContainer \<Rightarrow> LLState option \<Rightarrow> LLState option \<Rightarrow> GenericInput" where
  "destroy_input c fsState execState = \<lparr>gi_ContainerId = nc_id c, gi_ContainerRoot = nc_root c,
     gi_Config = nc_config c, gi_FsState = fsState,
     gi_NetworkState = Some (st_NetworkState (nc_state c)), gi_ExecState = execState\<rparr>"

text \<open>The handlers run in the order Exec, Fs, Network, each with the states the earlier ones returned.\<close>

definition destroy_handlers :: "'n RunllcHandler \<Rightarrow> nablaContainer \<Rightarrow> ('n, unit) meth" where
  "destroy_handlers H c =
     seq (on_world (ExecDestroyFunc (ExecH H)
       (destroy_input c (Some (st_FsState (nc_state c))) (Some (st_ExecState (nc_state c)))))) (\<lambda>execState.
     seq (set_state (\<lambda>s. s\<lparr>st_ExecState := or_empty execState\<rparr>)) (\<lambda>_.
     seq (on_world (FsDestroyFunc (FsH H)
       (destroy_input c (Some (st_FsState (nc_state c))) execState))) (\<lambda>fsState.
     seq (set_state (\<lambda>s. s\<lparr>st_FsState := or_empty fsState\<rparr>)) (\<lambda>_.
     seq (on_world (NetworkDestroyFunc (NetworkH H) (destroy_input c fsState execState))) (\<lambda>networkState.
     set_state (\<lambda>s. s\<lparr>st_NetworkState := or_empty networkState\<rparr>))))))"

definition destroy :: "'n RunllcHandler \<Rightarrow> ('n, unit) meth" where
  "destroy H =
     seq (set_state (\<lambda>s. s\<lparr>st_InitProcessPid := 0, st_Status := Stopped\<rparr>)) (\<lambda>_.
     seq (this id) (destroy_handlers H))"

end
