(* ===== verification/Factory.thy ===== *)
theory Factory
  imports Container TapBridge
begin

text \<open>
  \<open>libcontainer/factory_nabla.go\<close>: the factory that creates containers and loads them back from
  their \<open>state.json\<close>.
\<close>

subsection \<open>Definitions\<close>

record 'n NablaFactory =
  fac_Root :: string
  fac_LLCHandler :: "'n RunllcHandler"

fun apply_options ::
  "('n NablaFactory \<Rightarrow> ('n world, 'n NablaFactory) io) list \<Rightarrow> 'n NablaFactory \<Rightarrow> ('n world, 'n NablaFactory) io" where
  "apply_options [] l = ret l"
| "apply_options (opt # opts) l = seq (opt l) (apply_options opts)"

definition New ::
  "string \<Rightarrow> 'n RunllcHandler \<Rightarrow> ('n NablaFactory \<Rightarrow> ('n world, 'n NablaFactory) io) list \<Rightarrow>
   ('n world, 'n NablaFactory) io" where
  "New root H options =
     seq (if root \<noteq> '''' then os_MkdirAll root (octal3 7 0 0) else ret ()) (\<lambda>_.
     apply_options options \<lparr>fac_Root = root, fac_LLCHandler = H\<rparr>)"

definition isPauseContainer :: "Config \<Rightarrow> bool" where
  "isPauseContainer config = (cfg_Args config = [''/pause''])"

definition applyPauseHack :: "Config \<Rightarrow> string \<Rightarrow> Config res" where
  "applyPauseHack config containerRoot =
     (if \<not> isPauseContainer config then Err (Msg ''Trying to make pause changes on non-pause container'')
      else Ok (config\<lparr>cfg_Args := [pauseNablaName]\<rparr>))"

text \<open>
  \<open>^[\w+-\.]+$\<close>: word characters and the range from \<open>+\<close> to \<open>.\<close>, which also has \<open>,\<close> and \<open>-\<close>.
\<close>

definition id_char :: "char \<Rightarrow> bool" where
  "id_char c = (let n = code_of c in
     (48 \<le> n \<and> n \<le> 57) \<or> (65 \<le> n \<and> n \<le> 90) \<or> (97 \<le> n \<and> n \<le> 122) \<or> n = 95 \<or> (43 \<le> n \<and> n \<le> 46))"

definition maxIdLen :: nat where "maxIdLen = 1024"

definition validateID :: "string \<Rightarrow> unit res" where
  "validateID cid =
     (if \<not> (cid \<noteq> '''' \<and> list_all id_char cid) then Err (Msg (''invalid id format: '' @ cid))
      else if maxIdLen < length cid then Err (Msg (''id length: '' @ nat_text (length cid) @
        '', greater than max length: '' @ nat_text maxIdLen))
      else Ok ())"

definition lift_res :: "'a res \<Rightarrow> ('s, 'a) io" where
  "lift_res r = (\<lambda>s. (r, s))"

text \<open>The container's directory and its FIFO, made with the umask cleared and then restored.\<close>

definition make_fifo :: "string \<Rightarrow> ('n world, unit) io" where
  "make_fifo fifoName =
     seq (sys_Umask 0) (\<lambda>oldMask.
     try_io (sys_Mkfifo fifoName (octal3 6 2 2))
       (\<lambda>e. seq (sys_Umask oldMask) (\<lambda>_. fail e))
       (\<lambda>_. seq (sys_Umask oldMask) (\<lambda>_. ret ())))"

definition create_root :: "string \<Rightarrow> string \<Rightarrow> int \<Rightarrow> int \<Rightarrow> ('n world, unit) io" where
  "create_root cid containerRoot uid gid =
     seq (try_io (os_Stat containerRoot)
         (\<lambda>e. if \<not> IsNotExist e then fail e else ret ())
         (\<lambda>_. fail (Msg (''container with id exists: '' @ cid)))) (\<lambda>_.
     seq (os_MkdirAll containerRoot (octal3 7 1 1)) (\<lambda>_.
     seq (os_Chown containerRoot uid gid) (\<lambda>_.
     seq (make_fifo (Join [containerRoot, execFifoFilename])) (\<lambda>_.
     os_Chown (Join [containerRoot, execFifoFilename]) uid gid))))"

definition create_input ::
  "string \<Rightarrow> string \<Rightarrow> Config \<Rightarrow> LLState option \<Rightarrow> LLState option \<Rightarrow> GenericInput" where
  "create_input cid containerRoot config fsState networkState = \<lparr>gi_ContainerId = cid,
     gi_ContainerRoot = containerRoot, gi_Config = config, gi_FsState = fsState,
     gi_NetworkState = networkState, gi_ExecState = Some empty_LLState\<rparr>"

definition create_fs ::
  "'n RunllcHandler \<Rightarrow> string \<Rightarrow> string \<Rightarrow> Config \<Rightarrow> ('n world, Config \<times> LLState option) io" where
  "create_fs H cid containerRoot config =
     (if isPauseContainer config then
        seq (lift_res (applyPauseHack config containerRoot)) (\<lambda>config'. ret (config', None))
      else
        seq (map_err (\<lambda>e. Errorf ''Error running FsCreateFunc: '' e '''')
          (FsCreateFunc (FsH H) (create_input cid containerRoot config (Some empty_LLState) (Some empty_LLState))))
        (\<lambda>fsState. ret (config, fsState)))"

definition new_container ::
  "string \<Rightarrow> string \<Rightarrow> Config \<Rightarrow> LLState option \<Rightarrow> LLState option \<Rightarrow> LLState option \<Rightarrow> nablaContainer" where
  "new_container cid containerRoot config fsState networkState execState =
     \<lparr>nc_id = cid, nc_root = containerRoot, nc_config = config,
      nc_state = \<lparr>st_ID = cid, st_InitProcessPid = 0, st_InitProcessStartTime = '''', st_Created = zero_time,
        st_Config = config, st_FsState = or_empty fsState, st_NetworkState = or_empty networkState,
        st_ExecState = or_empty execState, st_Status = Stopped\<rparr>\<rparr>"

definition Create :: "'n NablaFactory \<Rightarrow> string \<Rightarrow> Config \<Rightarrow> ('n world, nablaContainer) io" where
  "Create l cid config0 =
     (if fac_Root l = '''' then fail (Msg ''invalid root'')
      else seq (lift_res (validateID cid)) (\<lambda>_.
        seq (lift_res (HostUID config0)) (\<lambda>uid.
        seq (lift_res (HostGID config0)) (\<lambda>gid.
        let containerRoot = Join [fac_Root l, cid]; H = fac_LLCHandler l in
        seq (create_root cid containerRoot uid gid) (\<lambda>_.
        seq (create_fs H cid containerRoot config0) (\<lambda>(config, fsState).
        seq (map_err (\<lambda>e. Errorf ''Error running NetworkCreateFunc: '' e '''')
          (NetworkCreateFunc (NetworkH H)
            (create_input cid containerRoot config fsState (Some empty_LLState)))) (\<lambda>networkState.
        seq (map_err (\<lambda>e. Errorf ''Error running ExecCreateFunc: '' e '''')
          (ExecCreateFunc (ExecH H)
            (create_input cid containerRoot config fsState networkState))) (\<lambda>execState.
        ret (new_container cid containerRoot config fsState networkState execState)))))))))"

definition decode_state :: "string \<Rightarrow> ('s, State option) io" where
  "decode_state text = (case Option.bind (parse_json text) dec_State_ptr of
     None \<Rightarrow> fail (newGenericError (Msg ''invalid state.json'') SystemError) | Some s \<Rightarrow> ret s)"

definition loadState :: "string \<Rightarrow> string \<Rightarrow> ('n world, State option) io" where
  "loadState root cid =
     seq (map_err (\<lambda>e. if IsNotExist e
            then newGenericError (Msg (''container '' @ cid @ '' does not exist'')) ContainerNotExists
            else newGenericError e SystemError)
          (os_Open (Join [root, stateFilename]))) (\<lambda>f.
     deferred (file_Close f) (
       seq (map_err (\<lambda>e. newGenericError e SystemError) (file_ReadAll f)) decode_state))"

definition Load :: "'n NablaFactory \<Rightarrow> string \<Rightarrow> ('n world, nablaContainer) io" where
  "Load l cid =
     (if fac_Root l = '''' then fail (newGenericError (Msg ''invalid root'') ConfigInvalid)
      else let containerRoot = Join [fac_Root l, cid] in
        seq (loadState containerRoot cid) (\<lambda>st. case st of
          None \<Rightarrow> halt (Panic ''nil pointer dereference'')
        | Some s \<Rightarrow> ret \<lparr>nc_id = cid, nc_root = containerRoot, nc_config = st_Config s, nc_state = s\<rparr>))"

definition factory_Type :: string where "factory_Type = ''nabla''"

end
