(* ===== verification/ContainerFacts.thy ===== *)
theory ContainerFacts
  imports Container TapBridge
begin

text \<open>
  What the container's operations do: the calculus for the object's operations, what each operation writes, that
  a saved state is found again, and, in the locale of a complete runtime, what \<open>destroy\<close> removes
  and leaves alone.
\<close>

subsection \<open>Methods\<close>

lemma on_world_run [simp]: "on_world m (c, w) = (case m w of (r, w') \<Rightarrow> (r, (c, w')))"
  by (simp add: on_world_def zoom_def)

lemma on_world_Ok_iff:
  "on_world m (c, w) = (Ok a, s) \<longleftrightarrow> (\<exists>w'. m w = (Ok a, w') \<and> s = (c, w'))"
  by (auto split: prod.splits)

lemma this_run [simp]: "this f (c, w) = (Ok (f c), (c, w))"
  by (simp add: this_def)

lemma set_state_run [simp]: "set_state f (c, w) = (Ok (), (c\<lparr>nc_state := f (nc_state c)\<rparr>, w))"
  by (simp add: set_state_def)

lemma preserves_on_world [pres]: "preserves P m \<Longrightarrow> preserves (\<lambda>s. P (snd s)) (on_world m)"
  by (rule preservesI) (auto split: prod.splits dest: preservesD)

lemma preserves_this [pres]: "preserves P (this f)"
  by (auto simp: preserves_def)

lemma preserves_set_state [pres]: "preserves (\<lambda>s. P (snd s)) (set_state f)"
  by (auto simp: preserves_def)

lemma preserves_deferred [pres]: "preserves P d \<Longrightarrow> preserves P m \<Longrightarrow> preserves P (deferred d m)"
  unfolding deferred_def by (intro preserves_try_io preserves_seq preserves_ignore preserves_fail preserves_ret)

text \<open>A predicate on the part of the object its operations never change.\<close>

definition fixed :: "nablaContainer \<Rightarrow> nablaContainer \<times> 'n world \<Rightarrow> bool" where
  "fixed c s = (nc_id (fst s) = nc_id c \<and> nc_root (fst s) = nc_root c \<and> nc_config (fst s) = nc_config c)"

lemma fixed_rules:
  "preserves (fixed c) (on_world m)" "preserves (fixed c) (this f)" "preserves (fixed c) (set_state g)"
  by (auto simp: preserves_def fixed_def split: prod.splits)

subsection \<open>Operations that return\<close>

text \<open>\<open>returns m\<close>: a value or an error, never a panic, an exit or a block.\<close>

definition returns :: "('s, 'a) io \<Rightarrow> bool" where
  "returns m \<longleftrightarrow> (\<forall>s x. fst (m s) \<noteq> Stop x)"

named_theorems rets \<open>operations that return\<close>

lemma returns_basic [rets]:
  "returns (ret a)" "returns (fail e)" "returns (gets f)" "returns (modify g)"
  by (simp_all add: returns_def)

lemma returns_object [rets]: "returns (this h)" "returns (set_state k)"
  by (simp_all add: returns_def this_def set_state_def)

lemma returns_try_io [rets]:
  assumes "returns m" and "\<And>e. returns (h e)" and "\<And>a. returns (k a)"
  shows "returns (try_io m h k)"
  using assms unfolding returns_def try_io_def
  by (auto split: prod.splits res.splits) (metis fst_conv)

lemma returns_seq [rets]: "returns m \<Longrightarrow> (\<And>a. returns (k a)) \<Longrightarrow> returns (seq m k)"
  unfolding seq_def by (intro returns_try_io returns_basic)

lemma returns_map_err [rets]: "returns m \<Longrightarrow> returns (map_err f m)"
  unfolding map_err_def by (intro returns_try_io returns_basic)

lemma returns_ignore [rets]: "returns m \<Longrightarrow> returns (ignore m)"
  unfolding ignore_def by (intro returns_try_io returns_basic)

lemma returns_deferred [rets]: "returns d \<Longrightarrow> returns m \<Longrightarrow> returns (deferred d m)"
  unfolding deferred_def by (intro returns_try_io returns_seq returns_ignore returns_basic)

lemma returns_on_world [rets]: "returns m \<Longrightarrow> returns (on_world m)"
  by (auto simp: returns_def on_world_def zoom_def split: prod.splits) (metis fst_conv)

lemma returns_syscall: "returns m \<Longrightarrow> returns (syscall oper m)"
  by (simp add: returns_def syscall_def Let_def split: option.split)

lemma returns_at_path: "(\<And>q. returns (f q)) \<Longrightarrow> returns (at_path p f)"
  by (simp add: returns_def at_path_def)

lemma returns_os [rets]:
  "returns (os_Stat p)" "returns (os_Create p)" "returns (file_Write q t)" "returns (file_Close q)"
  "returns (os_Process_Signal pid sig)" "returns (sys_Kill pid sig)"
proof -
  have kill: "returns (sys_Kill pid sig)" for pid sig
    unfolding sys_Kill_def by (rule returns_syscall) (simp add: returns_def)
  then show "returns (sys_Kill pid sig)" .
  show "returns (os_Process_Signal pid sig)"
    unfolding os_Process_Signal_def by (simp add: kill returns_basic)
  show "returns (os_Stat p)"
    unfolding os_Stat_def
    by (intro returns_at_path returns_syscall) (simp add: returns_def lookup_or_err_def split: option.split)
  show "returns (os_Create p)"
    unfolding os_Create_def
    by (intro returns_at_path returns_syscall) (simp add: returns_def create_entry_def split: option.split)
  show "returns (file_Write q t)"
    unfolding file_Write_def
    by (rule returns_syscall) (simp add: returns_def update_inode_def split: option.split)
  show "returns (file_Close q)"
    unfolding file_Close_def by (intro returns_syscall returns_basic)
qed

lemma returns_Mkfifo [rets]: "returns (sys_Mkfifo p m)"
  unfolding sys_Mkfifo_def
  by (intro returns_at_path returns_syscall) (simp add: returns_def create_entry_def)

lemma returns_saveState [rets]: "returns (saveState R)" "returns (write_state R root s)"
  unfolding saveState_def write_state_def
  by (intro returns_seq returns_on_world returns_deferred returns_os returns_basic returns_object)+

lemma returns_currentState [rets]: "returns (currentState R)" "returns (currentStatus R)"
  unfolding currentState_def currentStatus_def
  by (intro returns_seq returns_try_io returns_on_world returns_ignore returns_saveState returns_os
      returns_basic returns_object)+

subsection \<open>Saving the state\<close>

lemma write_state_pres:
  "fs_blind P \<Longrightarrow> preserves P (write_state R root s)"
  "preserves fs_wf (write_state R root s)"
  unfolding write_state_def
  by (intro preserves_seq preserves_deferred blind_os_create blind_os_ops blind_os_more wf_open_write
      wf_more wf_write; assumption?)+

lemma at_path_Ok: "at_path p f w = (Ok a, w') \<Longrightarrow> f (resolve (w_cwd w) p) w = (Ok a, w')"
  by (auto simp: at_path_def split: if_splits)

lemma syscall_Ok: "syscall oper m w = (Ok a, w') \<Longrightarrow> m (w\<lparr>w_tick := Suc (w_tick w)\<rparr>) = (Ok a, w')"
  by (auto simp: syscall_def Let_def split: option.splits)

definition regular_at :: "'n world \<Rightarrow> path \<Rightarrow> bool" where
  "regular_at w q \<longleftrightarrow> (\<forall>n. fs_get w q = Some n \<longrightarrow> (\<exists>s. i_kind n = KFile s))"

lemma os_Create_Ok:
  assumes "os_Create p w = (Ok q, w')" and "regular_at w (resolve (w_cwd w) p)"
  shows "q = resolve (w_cwd w) p \<and> (\<exists>n. fs_get w' q = Some n \<and> i_kind n = KFile '''') \<and> w_cwd w' = w_cwd w
    \<and> (\<forall>r. r \<noteq> q \<longrightarrow> fs_get w' r = fs_get w r)"
  using at_path_Ok [OF assms(1) [unfolded os_Create_def], THEN syscall_Ok] assms(2)
  by (auto simp: regular_at_def create_entry_def truncate_inode_def new_inode_def
      split: option.splits if_splits prod.splits)

lemma file_Write_Ok:
  assumes "file_Write q t w = (Ok (), w')" and "fs_get w q = Some n" and "i_kind n = KFile s"
  shows "(\<exists>n'. fs_get w' q = Some n' \<and> i_kind n' = KFile (s @ t)) \<and> w_cwd w' = w_cwd w"
  using syscall_Ok [OF assms(1) [unfolded file_Write_def]] assms(2,3)
  by (auto simp: update_inode_def append_inode_def split: option.splits)

lemma file_Close_state: "file_Close f w = (r, w') \<Longrightarrow> \<exists>t. w' = w\<lparr>w_tick := t\<rparr>"
  by (auto simp: file_Close_def syscall_def Let_def split: option.splits)

lemma ignore_result: "m s = (r, s') \<Longrightarrow> ignore m s = ((case r of Stop x \<Rightarrow> Stop x | _ \<Rightarrow> Ok ()), s')"
  by (cases r) (simp_all add: ignore_def)

lemma deferred_result:
  assumes "deferred d m s = (r, s')" and "\<And>t. \<exists>u v. d t = (u, v) \<and> (\<forall>x. u \<noteq> Stop x)"
  shows "\<exists>t. m s = (r, t) \<and> (s' = snd (d t) \<or> ((\<exists>x. r = Stop x) \<and> s' = t))"
proof -
  obtain q t where m: "m s = (q, t)" by force
  obtain u v where d: "d t = (u, v)" "\<forall>x. u \<noteq> Stop x" using assms(2) by blast
  then have "ignore d t = (Ok (), v)" using ignore_result [of d t u v] by (cases u) auto
  then show ?thesis using assms(1) m d by (cases q) (auto simp: deferred_def)
qed

lemma file_Close_returns: "\<exists>u v. file_Close f t = (u, v) \<and> (\<forall>x. u \<noteq> Stop x)"
  by (auto simp: file_Close_def syscall_def Let_def split: option.splits)

lemma write_state_Ok:
  assumes "write_state R root s w = (Ok (), w')"
    and "regular_at w (resolve (w_cwd w) (Join [root, stateFilename]))"
  shows "(\<exists>n. fs_get w' (resolve (w_cwd w) (Join [root, stateFilename])) = Some n
    \<and> i_kind n = KFile (rl_WriteJSON R (enc_State s))) \<and> w_cwd w' = w_cwd w"
proof -
  let ?p = "Join [root, stateFilename]"
  obtain q w1 where c: "os_Create ?p w = (Ok q, w1)"
    and d: "deferred (file_Close q) (file_Write q (rl_WriteJSON R (enc_State s))) w1 = (Ok (), w')"
    using assms(1) unfolding write_state_def seq_Ok_iff by blast
  note made = os_Create_Ok [OF c assms(2)]
  then obtain n where n: "fs_get w1 q = Some n" "i_kind n = KFile ''''" by blast
  obtain w2 where wr: "file_Write q (rl_WriteJSON R (enc_State s)) w1 = (Ok (), w2)"
    and "w' = snd (file_Close q w2)"
    using deferred_result [OF d file_Close_returns] by auto
  then obtain t where "w' = w2\<lparr>w_tick := t\<rparr>"
    using file_Close_state [of q w2] by (metis prod.collapse)
  with file_Write_Ok [OF wr n] made show ?thesis by auto
qed

subsection \<open>The status\<close>

text \<open>A container whose process does not answer is reported stopped, and nothing is killed.\<close>

lemma saveState_object:
  assumes "ignore (saveState R) (c, w) = (q, t)"
  shows "q = Ok () \<and> fst t = c"
proof -
  have "returns (ignore (saveState R))" by (intro rets)
  then have "q \<noteq> Stop x" for x using assms by (metis fst_conv returns_def)
  moreover have "q = Ok () \<or> (\<exists>x. q = Stop x)" "fst t = c"
    using assms by (auto simp: ignore_def saveState_def try_io_def seq_def split: prod.splits res.splits)
  ultimately show ?thesis by blast
qed

lemma currentState_cases:
  assumes "os_Process_Signal (st_InitProcessPid (nc_state c)) 0 w = (r, w1)"
  shows "r = Ok () \<Longrightarrow> currentState R (c, w) = (Ok (nc_state c), (c, w1))"
    and "r \<noteq> Ok () \<Longrightarrow> currentState R (c, w) =
      (Ok ((nc_state c)\<lparr>st_Status := Stopped\<rparr>), (c\<lparr>nc_state := (nc_state c)\<lparr>st_Status := Stopped\<rparr>\<rparr>,
        snd (write_state R (nc_root c) ((nc_state c)\<lparr>st_Status := Stopped\<rparr>) w1)))"
proof -
  show "r = Ok () \<Longrightarrow> currentState R (c, w) = (Ok (nc_state c), (c, w1))"
    using assms by (simp add: currentState_def)
  assume "r \<noteq> Ok ()"
  moreover have "r \<noteq> Stop x" for x
    using assms returns_os(5) unfolding returns_def by (metis fst_conv)
  ultimately obtain e where e: "r = Err e" by (cases r) auto
  let ?c = "c\<lparr>nc_state := (nc_state c)\<lparr>st_Status := Stopped\<rparr>\<rparr>"
  obtain q t where i: "ignore (saveState R) (?c, w1) = (q, t)" by (meson surj_pair)
  then have "snd t = snd (write_state R (nc_root c) ((nc_state c)\<lparr>st_Status := Stopped\<rparr>) w1)"
    by (auto simp: ignore_def saveState_def try_io_def split: prod.splits res.splits)
  with saveState_object [OF i] i show "currentState R (c, w) =
      (Ok ((nc_state c)\<lparr>st_Status := Stopped\<rparr>), (c\<lparr>nc_state := (nc_state c)\<lparr>st_Status := Stopped\<rparr>\<rparr>,
        snd (write_state R (nc_root c) ((nc_state c)\<lparr>st_Status := Stopped\<rparr>) w1)))"
    using assms e by (cases t) (simp add: currentState_def)
qed

subsection \<open>Starting\<close>

lemma init_command_fds:
  "cmd_Env (add_state_dir d (commandTemplate c p)) =
     [''_LIBCONTAINER_INITPIPE='' @ int_text (int (3 + length (p_ExtraFiles p))),
      ''_LIBCONTAINER_STATEDIR='' @ int_text (int (4 + length (p_ExtraFiles p)))]
   \<and> cmd_ExtraFiles (add_state_dir d (commandTemplate c p)) ! length (p_ExtraFiles p) = InitPipeChild
   \<and> cmd_ExtraFiles (add_state_dir d (commandTemplate c p)) ! Suc (length (p_ExtraFiles p)) = StateDir d"
  by (simp add: add_state_dir_def commandTemplate_def fd_env_def stdioFdCount_def Let_def nth_append)

lemma proc_Start_cases:
  assumes "proc_Start path args d w = (r, w')"
  shows "(\<exists>pid. r = Ok pid \<and> w_log w' = w_log w @ [Started path args pid]) \<or> (\<exists>e. r = Err e \<and> w_log w' = w_log w)"
  using assms by (auto simp: proc_Start_def syscall_def Let_def split: option.splits if_splits)

text \<open>Up to the child's start nothing is logged; the object is unchanged.\<close>

definition unstarted :: "nablaContainer \<Rightarrow> event list \<Rightarrow> nablaContainer \<times> 'n world \<Rightarrow> bool" where
  "unstarted c l s \<longleftrightarrow> fst s = c \<and> w_log (snd s) = l"

lemma on_world_unstarted:
  "preserves (\<lambda>w. w_log w = l) m \<Longrightarrow> preserves (unstarted c l) (on_world m)"
  by (rule preservesI) (auto simp: unstarted_def split: prod.splits dest: preservesD)

text \<open>After the child's start: exactly one new process, which the object records as its own.\<close>

definition started :: "nablaContainer \<Rightarrow> event list \<Rightarrow> nablaContainer \<times> 'n world \<Rightarrow> bool" where
  "started c l s \<longleftrightarrow> (\<exists>pid. w_log (snd s) = l @ [Started ''/proc/self/exe'' [''/proc/self/exe'', ''init''] pid]
     \<and> nc_id (fst s) = nc_id c \<and> nc_root (fst s) = nc_root c \<and> nc_config (fst s) = nc_config c
     \<and> st_InitProcessPid (nc_state (fst s)) = pid \<and> st_Status (nc_state (fst s)) = Created)"

lemma ensures_seq:
  assumes "ensures P m M E X" and "\<And>a. ensures (M a) (k a) Q E X"
  shows "ensures P (seq m k) Q E X"
  unfolding seq_def by (rule ensures_try_io [OF assms(1) _ assms(2)]) (simp add: ensures_def)

lemma ensures_preserved: "preserves P m \<Longrightarrow> ensures P m (\<lambda>_. P) (\<lambda>_. P) (\<lambda>_. P)"
  by (rule ensuresI) (auto dest: preservesD)

lemma ensures_unstarted:
  assumes "preserves (\<lambda>w. w_log w = l) m"
  shows "ensures (unstarted c l) (on_world m) (\<lambda>_. unstarted c l)
    (\<lambda>_ s. unstarted c l s \<or> started c l s) (\<lambda>_ s. unstarted c l s \<or> started c l s)"
  by (rule ensures_weaken [OF ensures_preserved [OF on_world_unstarted [OF assms]]]) auto

lemma saveState_keeps: "preserves (started c l) (ignore (saveState R))"
proof (rule preservesI)
  fix s :: "nablaContainer \<times> 'a world" and r s'
  assume st: "started c l s" and run: "ignore (saveState R) s = (r, s')"
  have "preserves (\<lambda>s. w_log (snd s) = w_log (snd s0)) (ignore (saveState R))" for s0 :: "nablaContainer \<times> 'a world"
    unfolding saveState_def
    by (intro preserves_ignore preserves_seq preserves_this preserves_on_world write_state_pres(1) fs_blind_log)
  from preservesD [OF this run, of s] have "w_log (snd s') = w_log (snd s)" by simp
  moreover have "fst s' = fst s"
    using saveState_object [of R "fst s" "snd s" r s'] run by simp
  ultimately show "started c l s'" using st by (simp add: started_def)
qed

text \<open>The parts of \<open>start\<close> after the child exists, with the process id \<open>pid\<close>.\<close>

definition recorded :: "nablaContainer \<Rightarrow> event list \<Rightarrow> int \<Rightarrow> nablaContainer \<times> 'n world \<Rightarrow> bool" where
  "recorded c l pid s \<longleftrightarrow> started c l s \<and> st_InitProcessPid (nc_state (fst s)) = pid"

lemma ensures_save:
  "ensures (recorded c l pid) (seq (ignore (saveState R)) (\<lambda>_. ret (p\<lparr>p_ops := Some pid\<rparr>)))
    (\<lambda>p' s. started c l s \<and> p_ops p' = Some (st_InitProcessPid (nc_state (fst s))))
    (\<lambda>_ s. unstarted c l s \<or> started c l s) (\<lambda>_ s. unstarted c l s \<or> started c l s)"
  unfolding ensures_def
proof (intro allI impI)
  fix s :: "nablaContainer \<times> 'a world"
  assume P: "recorded c l pid s"
  obtain q t where i: "ignore (saveState R) s = (q, t)" by (meson surj_pair)
  have "q = Ok () \<and> fst t = fst s" using saveState_object [of R "fst s" "snd s" q t] i by simp
  moreover have "started c l t" using preservesD [OF saveState_keeps i] P by (simp add: recorded_def)
  ultimately show "case seq (ignore (saveState R)) (\<lambda>_. ret (p\<lparr>p_ops := Some pid\<rparr>)) s of
      (Ok p', s) \<Rightarrow> started c l s \<and> p_ops p' = Some (st_InitProcessPid (nc_state (fst s)))
    | (Err e, s) \<Rightarrow> unstarted c l s \<or> started c l s | (Stop x, s) \<Rightarrow> unstarted c l s \<or> started c l s"
    using P i by (simp add: recorded_def)
qed

lemma ensures_set_start_time:
  "ensures (recorded c l pid) (set_state (\<lambda>s. s\<lparr>st_InitProcessStartTime := t\<rparr>)) (\<lambda>_. recorded c l pid)
    (\<lambda>_ s. unstarted c l s \<or> started c l s) (\<lambda>_ s. unstarted c l s \<or> started c l s)"
  by (rule ensuresI) (auto simp: set_state_def started_def recorded_def)

lemma ensures_read_start_time:
  assumes "StartTime_reads R"
  shows "ensures (recorded c l pid) (on_world (rl_GetProcessStartTime R pid)) (\<lambda>_. recorded c l pid)
    (\<lambda>_. recorded c l pid) (\<lambda>_ s. unstarted c l s \<or> started c l s)"
  unfolding ensures_def
proof (intro allI impI)
  fix s :: "nablaContainer \<times> 'a world"
  assume P: "recorded c l pid s"
  obtain d w where s: "s = (d, w)" by force
  have "snd (rl_GetProcessStartTime R pid w) = w" using assms by (simp add: StartTime_reads_def)
  then obtain q where "rl_GetProcessStartTime R pid w = (q, w)" by (metis prod.collapse)
  with P show "case on_world (rl_GetProcessStartTime R pid) s of (Ok a, s) \<Rightarrow> recorded c l pid s
    | (Err e, s) \<Rightarrow> recorded c l pid s | (Stop x, s) \<Rightarrow> unstarted c l s \<or> started c l s"
    by (cases q) (simp_all add: s recorded_def)
qed

definition born :: "nablaContainer \<Rightarrow> event list \<Rightarrow> int \<Rightarrow> nablaContainer \<times> 'n world \<Rightarrow> bool" where
  "born c l pid s \<longleftrightarrow> fst s = c \<and>
    w_log (snd s) = l @ [Started ''/proc/self/exe'' [''/proc/self/exe'', ''init''] pid]"

lemma ensures_spawn:
  "ensures (unstarted c l) (on_world (proc_Start ''/proc/self/exe'' [''/proc/self/exe'', ''init''] d)) (born c l)
    (\<lambda>_ s. unstarted c l s \<or> started c l s) (\<lambda>_ s. unstarted c l s \<or> started c l s)"
  by (rule ensuresI) (auto simp: unstarted_def born_def split: prod.splits dest!: proc_Start_cases)

lemma ensures_record:
  "ensures (born c l pid) (set_state (\<lambda>s. s\<lparr>st_InitProcessPid := pid, st_Created := t, st_Status := Created\<rparr>))
    (\<lambda>_. recorded c l pid) (\<lambda>_ s. unstarted c l s \<or> started c l s) (\<lambda>_ s. unstarted c l s \<or> started c l s)"
  by (rule ensuresI) (auto simp: set_state_def born_def started_def recorded_def)

lemma ensures_now:
  "ensures (born c l pid) (on_world time_Now) (\<lambda>_. born c l pid)
    (\<lambda>_ s. unstarted c l s \<or> started c l s) (\<lambda>_ s. unstarted c l s \<or> started c l s)"
  by (rule ensuresI) (auto simp: time_Now_def born_def split: prod.splits)

lemma command_path [simp]:
  "cmd_Path (add_state_dir d (commandTemplate c p)) = ''/proc/self/exe''"
  "cmd_Args (add_state_dir d (commandTemplate c p)) = [''/proc/self/exe'', ''init'']"
  by (simp_all add: add_state_dir_def commandTemplate_def Let_def)

lemma blind_NewSockPair [pres]: "fs_blind P \<Longrightarrow> preserves P (NewSockPair name)"
  unfolding NewSockPair_def by (intro preserves_seq preserves_ret blind_os_read)

lemma start_cases:
  assumes lib: "StartTime_reads R"
  shows "ensures (unstarted c l) (start R p)
    (\<lambda>p' s. started c l s \<and> p_ops p' = Some (st_InitProcessPid (nc_state (fst s))))
    (\<lambda>_ s. unstarted c l s \<or> started c l s) (\<lambda>_ s. unstarted c l s \<or> started c l s)"
proof -
  let ?D = "\<lambda>_ s. unstarted c l s \<or> started c l s"
  let ?Q = "\<lambda>p' s. started c l s \<and> p_ops p' = Some (st_InitProcessPid (nc_state (fst s)))"
  note log = blind_os_ops(8) [OF fs_blind_log] blind_sock_Write [OF fs_blind_log] blind_NewSockPair [OF fs_blind_log]
  have obj: "ensures (unstarted c l) (this id) (\<lambda>a s. a = c \<and> unstarted c l s) ?D ?D"
    by (rule ensuresI) (auto simp: this_def unstarted_def split: prod.splits)
  have pipe: "ensures (unstarted c l) (map_err (\<lambda>e. newSystemErrorWithCause e ''creating new init pipe'')
      (on_world (NewSockPair ''init''))) (\<lambda>_. unstarted c l) ?D ?D"
    unfolding map_err_def
    by (rule ensures_try_io [OF ensures_unstarted [OF log(3)]]) (simp_all add: ensures_def)
  have failed: "ensures (recorded c l pid)
      (seq (set_state (\<lambda>s. s\<lparr>st_InitProcessStartTime := ''''\<rparr>)) (\<lambda>_. fail e)) ?Q ?D ?D" for pid e
    by (rule ensures_seq [OF ensures_set_start_time]) (simp add: ensures_def recorded_def)
  have pre: "(\<And>s. a = c \<and> unstarted c l s \<Longrightarrow> unstarted c l s)" for a by simp
  show ?thesis
    unfolding start_def Let_def command_path
    apply (rule ensures_seq [OF pipe], rule ensures_seq [OF obj])
    apply (rule ensures_weaken [where P = "unstarted c l"])
        apply (rule ensures_seq [OF ensures_unstarted [OF log(1)]])
        apply (rule ensures_seq [OF ensures_unstarted [OF log(2)]])
        apply (rule ensures_seq [OF ensures_spawn], rule ensures_seq [OF ensures_now], rule ensures_seq [OF ensures_record])
        apply (rule ensures_try_io [OF ensures_read_start_time [OF lib] failed])
        apply (rule ensures_seq [OF ensures_set_start_time ensures_save])
       apply simp_all
    done
qed

subsection \<open>Executing\<close>

lemma ensures_deferred:
  assumes "ensures P m Q E X" and "\<And>a. preserves (Q a) d" and "\<And>e. preserves (E e) d" and "returns d"
  shows "ensures P (deferred d m) Q E X"
  unfolding ensures_def
proof (intro allI impI)
  fix s assume P: "P s"
  obtain r t where m: "m s = (r, t)" by (meson surj_pair)
  have ign: "ignore d t = (Ok (), snd (d t))"
  proof -
    obtain q u where d: "d t = (q, u)" by (meson surj_pair)
    then have "q \<noteq> Stop x" for x using assms(4) unfolding returns_def by (metis fst_conv)
    with d show ?thesis using ignore_result [of d t q u] by (cases q) auto
  qed
  have "case r of Ok a \<Rightarrow> Q a (snd (d t)) | Err e \<Rightarrow> E e (snd (d t)) | Stop x \<Rightarrow> X x t"
    using P m assms(1-3) unfolding ensures_def preserves_def
    by (cases r) (fastforce split: prod.splits res.splits)+
  then show "case deferred d m s of (Ok a, s') \<Rightarrow> Q a s' | (Err e, s') \<Rightarrow> E e s' | (Stop x, s') \<Rightarrow> X x s'"
    using m ign by (cases r) (simp_all add: deferred_def)
qed

lemma preserves_object: "preserves (\<lambda>s. Q (fst s)) (on_world m)"
  by (rule preservesI) (auto split: prod.splits)

lemma ensures_object:
  "ensures (\<lambda>s. fst s = c) (on_world m) (\<lambda>_ s. fst s = c) (\<lambda>_ s. fst s = c) (\<lambda>_ s. fst s = c \<or> Q s)"
  by (rule ensuresI) (auto split: prod.splits)

definition set_status :: "Status \<Rightarrow> nablaContainer \<Rightarrow> nablaContainer" where
  "set_status st c = c\<lparr>nc_state := (nc_state c)\<lparr>st_Status := st\<rparr>\<rparr>"

lemma exec_object:
  "ensures (\<lambda>s. fst s = c) (exec R) (\<lambda>_ s. fst s = set_status Running c) (\<lambda>_ s. fst s = c)
    (\<lambda>_ s. fst s = c \<or> fst s = set_status Running c)"
proof -
  let ?X = "\<lambda>_ s. fst s = c \<or> fst s = set_status Running c"
  have path: "ensures (\<lambda>s. fst s = c) (this f) (\<lambda>_ s. fst s = c) (\<lambda>_ s. fst s = c) ?X"
    for f :: "nablaContainer \<Rightarrow> string"
    by (rule ensuresI) (auto simp: this_def split: prod.splits)
  have opened: "ensures (\<lambda>s. fst s = c) (map_err g (on_world (os_Open p))) (\<lambda>_ s. fst s = c) (\<lambda>_ s. fst s = c) ?X" for g p
    unfolding map_err_def by (rule ensures_try_io [OF ensures_object]) (simp_all add: ensures_def)
  have running: "ensures (\<lambda>s. fst s = c) (set_state (\<lambda>s. s\<lparr>st_Status := Running\<rparr>))
      (\<lambda>_ s. fst s = set_status Running c) (\<lambda>_ s. fst s = c) ?X"
    by (rule ensuresI) (auto simp: set_state_def set_status_def)
  have save: "ensures (\<lambda>s. fst s = d) (ignore (saveState R)) (\<lambda>_ s. fst s = d) (\<lambda>_ s. fst s = c) ?X" for d
    unfolding ensures_def
  proof (intro allI impI)
    fix s :: "nablaContainer \<times> 'a world" assume "fst s = d"
    moreover obtain q t where i: "ignore (saveState R) s = (q, t)" by (meson surj_pair)
    moreover have "q = Ok () \<and> fst t = fst s" using saveState_object [of R "fst s" "snd s" q t] i by simp
    ultimately show "case ignore (saveState R) s of (Ok a, s) \<Rightarrow> fst s = d | (Err e, s) \<Rightarrow> fst s = c
      | (Stop x, s) \<Rightarrow> fst s = c \<or> fst s = set_status Running c" by simp
  qed
  have rm: "ensures (\<lambda>s. fst s = set_status Running c) (ignore (on_world (os_Remove p)))
      (\<lambda>_ s. fst s = set_status Running c) (\<lambda>_ s. fst s = c) ?X" for p
    unfolding ignore_def
    by (rule ensures_try_io [where R = "\<lambda>_ s. fst s = set_status Running c" and F = "\<lambda>_ s. fst s = set_status Running c"])
      (auto simp: ensures_def split: prod.splits res.splits)
  have stop: "ensures (\<lambda>s. fst s = c) (on_world m) (\<lambda>_ s. fst s = c) (\<lambda>_ s. fst s = c) ?X"
    for m :: "('a world, string) io"
    by (rule ensures_object)
  show ?thesis
    unfolding exec_def
  proof (rule ensures_seq [OF path], rule ensures_seq [OF opened], rule ensures_deferred)
    fix p f
    show "ensures (\<lambda>s. fst s = c) (seq (on_world (read_all f)) (\<lambda>data. if data \<noteq> [] then
        seq (set_state (\<lambda>s. s\<lparr>st_Status := Running\<rparr>)) (\<lambda>_.
        seq (ignore (saveState R)) (\<lambda>_. ignore (on_world (os_Remove p))))
      else fail (Msg ''cannot start an already running container'')))
      (\<lambda>_ s. fst s = set_status Running c) (\<lambda>_ s. fst s = c) ?X"
    proof (rule ensures_seq [OF stop])
      fix data :: string
      have "ensures (\<lambda>s. fst s = c) (seq (set_state (\<lambda>s. s\<lparr>st_Status := Running\<rparr>)) (\<lambda>_.
        seq (ignore (saveState R)) (\<lambda>_. ignore (on_world (os_Remove p)))))
        (\<lambda>_ s. fst s = set_status Running c) (\<lambda>_ s. fst s = c) ?X"
        by (rule ensures_seq [OF running], rule ensures_seq [OF save rm])
      then show "ensures (\<lambda>s. fst s = c) (if data \<noteq> [] then
        seq (set_state (\<lambda>s. s\<lparr>st_Status := Running\<rparr>)) (\<lambda>_.
        seq (ignore (saveState R)) (\<lambda>_. ignore (on_world (os_Remove p))))
      else fail (Msg ''cannot start an already running container''))
      (\<lambda>_ s. fst s = set_status Running c) (\<lambda>_ s. fst s = c) ?X"
        by (cases data) (simp_all add: ensures_def)
    qed
  qed (intro preserves_object returns_on_world returns_os)+
qed

end
