(* ===== verification/FactoryFacts.thy ===== *)
theory FactoryFacts
  imports Factory ContainerFacts
begin

text \<open>
  What the factory promises: which ids are accepted, what a failed or successful creation leaves,
  when a container is reported missing, that a saved container is loaded back as it was, and, in
  the locale of a complete runtime, which parts of the machine creation and destruction touch.
\<close>

subsection \<open>Loading\<close>

lemma os_Open_run:
  "os_Open p w =
    (if p = '''' then (Err (Errno ENOENT), w)
     else (case e_fault (w_env w) (w_tick w) (OpOpen (resolve (w_cwd w) p)) of
         Some f \<Rightarrow> (Err (Errno (fault_errno f)), w\<lparr>w_tick := Suc (w_tick w)\<rparr>)
       | None \<Rightarrow> (case fs_get w (resolve (w_cwd w) p) of
             Some n \<Rightarrow> (Ok (resolve (w_cwd w) p), w\<lparr>w_tick := Suc (w_tick w)\<rparr>)
           | None \<Rightarrow> (Err (Errno (missing_err w (resolve (w_cwd w) p))), w\<lparr>w_tick := Suc (w_tick w)\<rparr>))))"
  by (auto simp: os_Open_def at_path_def syscall_def lookup_or_err_def Let_def missing_err_def
      exists_at_def seq_def try_io_def split: option.split)

lemma file_ReadAll_regular:
  assumes "fs_get w q = Some n" and "i_kind n = KFile s"
  shows "file_ReadAll q w = ((case e_fault (w_env w) (w_tick w) (OpRead q) of
      Some f \<Rightarrow> Err (Errno (fault_errno f)) | None \<Rightarrow> Ok s), w\<lparr>w_tick := Suc (w_tick w)\<rparr>)"
  using assms by (simp add: file_ReadAll_def syscall_def Let_def split: option.split)

lemma deferred_fst:
  assumes "returns d"
  shows "fst (deferred d m s) = fst (m s)"
proof -
  obtain r s' where run: "deferred d m s = (r, s')" by (meson surj_pair)
  have "\<exists>u v. d t = (u, v) \<and> (\<forall>x. u \<noteq> Stop x)" for t
    using assms unfolding returns_def by (metis prod.collapse)
  from deferred_result [OF run this] run show ?thesis by auto
qed

lemma Err_fault_not_missing [simp]: "\<not> IsNotExist (Errno (fault_errno f))"
  by (simp add: IsNotExist_def)

text \<open>The result of loading, from what is at the place of the state file.\<close>

definition fault_answer :: "'a res \<Rightarrow> bool" where
  "fault_answer r \<longleftrightarrow> (\<exists>f. r = Err (Generic SystemError (Some (Errno (fault_errno f))) ''''))"

lemma loadState_regular:
  assumes "fs_get w (resolve (w_cwd w) (Join [root, stateFilename])) = Some n" and "i_kind n = KFile t"
    and "Join [root, stateFilename] \<noteq> ''''"
  shows "fst (loadState root cid w) = fst (decode_state t (w :: 'n world)) \<or> fault_answer (fst (loadState root cid w))"
proof -
  let ?q = "resolve (w_cwd w) (Join [root, stateFilename])"
  let ?w = "w\<lparr>w_tick := Suc (w_tick w)\<rparr>"
  have dec: "fst (decode_state t s) = fst (decode_state t w)" for s :: "'n world"
    by (simp add: decode_state_def split: option.split)
  show ?thesis
  proof (cases "e_fault (w_env w) (w_tick w) (OpOpen ?q)")
    case (Some f)
    then have "os_Open (Join [root, stateFilename]) w = (Err (Errno (fault_errno f)), ?w)"
      using assms by (simp add: os_Open_run)
    then have "fst (loadState root cid w) = Err (newGenericError (Errno (fault_errno f)) SystemError)"
      by (simp add: loadState_def)
    then show ?thesis by (auto simp: fault_answer_def)
  next
    case None
    then have open_ok: "os_Open (Join [root, stateFilename]) w = (Ok ?q, ?w)"
      using assms by (simp add: os_Open_run)
    have "fst (loadState root cid w) =
        fst (seq (map_err (\<lambda>e. newGenericError e SystemError) (file_ReadAll ?q)) decode_state ?w)"
      using open_ok by (simp add: loadState_def deferred_fst returns_os)
    moreover have "file_ReadAll ?q ?w = ((case e_fault (w_env w) (Suc (w_tick w)) (OpRead ?q) of
      Some f \<Rightarrow> Err (Errno (fault_errno f)) | None \<Rightarrow> Ok t), ?w\<lparr>w_tick := Suc (w_tick ?w)\<rparr>)"
      using assms(1,2) by (subst file_ReadAll_regular) simp_all
    ultimately show ?thesis
      using dec by (cases "e_fault (w_env w) (Suc (w_tick w)) (OpRead ?q)") (auto simp: fault_answer_def)
  qed
qed

lemma decode_saved:
  assumes "WriteJSON_encodes R" and "State_ok s"
  shows "decode_state (rl_WriteJSON R (enc_State s)) w = (Ok (Some s), w)"
proof -
  have "enc_State s \<noteq> JNull" by (simp add: enc_State_def)
  then have "Option.bind (parse_json (rl_WriteJSON R (enc_State s))) dec_State_ptr = Some (Some s)"
    using assms by (simp add: WriteJSON_encodes_def dec_State_ptr_def dec_ptr_def dec_State_enc)
  then show ?thesis by (simp add: decode_state_def)
qed

lemma load_after_save:
  assumes lib: "WriteJSON_encodes R" and ok: "State_ok s"
    and root: "IsAbs (fac_Root l)"
    and save: "write_state R (Join [fac_Root l, cid]) s w = (Ok (), w')"
    and reg: "regular_at w (resolve (w_cwd w) (Join [Join [fac_Root l, cid], stateFilename]))"
  shows "fst (Load l cid w') = Ok \<lparr>nc_id = cid, nc_root = Join [fac_Root l, cid], nc_config = st_Config s,
      nc_state = s\<rparr> \<or> fault_answer (fst (Load l cid w'))"
proof -
  let ?root = "Join [fac_Root l, cid]"
  obtain n where n: "fs_get w' (resolve (w_cwd w) (Join [?root, stateFilename])) = Some n"
      "i_kind n = KFile (rl_WriteJSON R (enc_State s))" "w_cwd w' = w_cwd w"
    using write_state_Ok [OF save reg] by blast
  have "Join [?root, stateFilename] \<noteq> ''''" using root by (intro IsAbs_nonempty IsAbs_Join)
  with loadState_regular [of w' ?root n "rl_WriteJSON R (enc_State s)" cid] n decode_saved [OF lib ok, of w']
  have "fst (loadState ?root cid w') = Ok (Some s) \<or> fault_answer (fst (loadState ?root cid w'))"
    by simp
  then show ?thesis
    using IsAbs_nonempty [OF root] by (cases "loadState ?root cid w'") (auto simp: Load_def fault_answer_def Let_def)
qed

text \<open>\<open>ContainerNotExists\<close> means exactly that the state file is not there.\<close>

lemma decode_state_code: "fst (decode_state t s) = Err e \<Longrightarrow> api_code e = Some SystemError"
  by (cases "Option.bind (parse_json t) dec_State_ptr") (auto simp: decode_state_def simp del: bind_eq_Some_conv)

lemma file_ReadAll_errno: "fst (file_ReadAll q w) = Err e \<Longrightarrow> \<exists>n. e = Errno n \<and> n \<noteq> ENOENT"
proof -
  assume err: "fst (file_ReadAll q w) = Err e"
  show ?thesis
  proof (cases "e_fault (w_env w) (w_tick w) (OpRead q)")
    case (Some f)
    then show ?thesis
      using err by (simp add: file_ReadAll_def syscall_def Let_def) (metis fault_not_missing(1))
  next
    case None
    show ?thesis
    proof (cases "fs_get w q")
      case (Some n)
      then have "e = Errno EISDIR"
        using err None by (cases "i_kind n") (simp_all add: file_ReadAll_def syscall_def Let_def)
      then show ?thesis by simp
    qed (use err None in \<open>simp add: file_ReadAll_def syscall_def Let_def\<close>)
  qed
qed

lemma read_decode_code:
  assumes "fst (seq (map_err (\<lambda>e. newGenericError e SystemError) (file_ReadAll f)) decode_state w) = Err e"
  shows "api_code e = Some SystemError"
proof -
  obtain r w' where m: "file_ReadAll f w = (r, w')" by (meson surj_pair)
  show ?thesis
  proof (cases r)
    case (Ok t)
    then show ?thesis using assms m decode_state_code by simp
  next
    case (Err d)
    then obtain n where "d = Errno n" using file_ReadAll_errno [of f w d] m by auto
    then show ?thesis using assms m Err by auto
  qed (use assms m in simp)
qed

lemma Load_not_exists:
  assumes "fac_Root l \<noteq> ''''" and "fst (Load l cid w) = Err e"
  shows "api_code e = Some ContainerNotExists \<longleftrightarrow>
    (\<exists>w'. os_Open (Join [Join [fac_Root l, cid], stateFilename]) w = (Err (Errno ENOENT), w'))"
proof -
  let ?root = "Join [fac_Root l, cid]"
  have e: "fst (loadState ?root cid w) = Err e"
    using assms by (cases "loadState ?root cid w"; cases "fst (loadState ?root cid w)")
      (auto simp: Load_def Let_def split: option.splits)
  obtain r w' where o: "os_Open (Join [?root, stateFilename]) w = (r, w')" by (meson surj_pair)
  then consider n where "r = Err (Errno n)" | f where "r = Ok f"
    by (auto simp: os_Open_run split: if_splits option.splits)
  then show ?thesis
  proof cases
    case (1 n)
    then show ?thesis using o e by (auto simp: loadState_def IsNotExist_def split: if_splits)
  next
    case (2 f)
    then have "fst (seq (map_err (\<lambda>e. newGenericError e SystemError) (file_ReadAll f)) decode_state w') = Err e"
      using o e by (simp add: loadState_def deferred_fst returns_os)
    then show ?thesis using o 2 read_decode_code by fastforce
  qed
qed

subsection \<open>Names\<close>

lemma validateID_Ok: "validateID cid = Ok () \<longleftrightarrow> cid \<noteq> '''' \<and> length cid \<le> 1024 \<and> list_all id_char cid"
  by (auto simp: validateID_def maxIdLen_def)

lemma valid_no_slash: "validateID cid = Ok () \<Longrightarrow> CHR ''/'' \<notin> set cid"
proof -
  have "\<not> id_char (CHR ''/'')" by code_simp
  then show "validateID cid = Ok () \<Longrightarrow> CHR ''/'' \<notin> set cid"
    by (auto simp: validateID_Ok list_all_iff)
qed

lemma valid_plain: "validateID cid = Ok () \<Longrightarrow> cid \<noteq> ''.'' \<Longrightarrow> cid \<noteq> ''..'' \<Longrightarrow> plain_elem cid"
  using valid_no_slash [of cid] by (simp add: plain_elem_def validateID_Ok)

subsection \<open>The container's directory\<close>

text \<open>What is neither a file nor a network device: environment, directory, umask and log.\<close>

definition outside :: "'n world \<Rightarrow> env \<times> string \<times> mode \<times> event list" where
  "outside w = (w_env w, w_cwd w, w_umask w, w_log w)"

lemma net_blind_outside: "net_blind (\<lambda>w. outside w = x)"
  by (simp add: net_blind_def outside_def)

lemmas fs_blind_outside = net_blind_fs [OF net_blind_outside]

lemma make_fifo_outside: "preserves (\<lambda>w. outside w = x) (make_fifo p)"
proof (rule preservesI)
  fix w :: "'n world" and r w' assume x: "outside w = x" and run: "make_fifo p w = (r, w')"
  obtain q w1 where m: "sys_Mkfifo p (octal3 6 2 2) (w\<lparr>w_umask := 0\<rparr>) = (q, w1)" by (meson surj_pair)
  have "outside w1 = outside (w\<lparr>w_umask := 0\<rparr>)"
    using preservesD [OF blind_os_ops(4) [OF fs_blind_outside] m] by blast
  moreover have "q \<noteq> Stop y" for y
    using m returns_Mkfifo unfolding returns_def by (metis fst_conv)
  ultimately show "outside w' = x"
    using x run m by (cases q) (auto simp: make_fifo_def sys_Umask_def outside_def)
qed

lemma make_fifo_pres:
  "preserves fs_wf (make_fifo p)" "R (resolve c p) \<Longrightarrow> preserves (fs_agrees c R f) (make_fifo p)"
  unfolding make_fifo_def
  by (intro preserves_seq preserves_try_io preserves_fail preserves_ret wf_read wf_write agrees_read
      agrees_write; assumption)+

lemma keep_create_root:
  assumes "preserves P (os_Stat r)" "preserves P (os_MkdirAll r (octal3 7 1 1))" "preserves P (os_Chown r u g)"
    and "preserves P (make_fifo (Join [r, execFifoFilename]))"
    and "preserves P (os_Chown (Join [r, execFifoFilename]) u g)"
  shows "preserves P (create_root cid r u g)"
  unfolding create_root_def
  by (intro preserves_seq preserves_try_io preserves_if preserves_fail preserves_ret assms)

lemma plain_names [simp]: "plain_elem execFifoFilename" "plain_elem stateFilename"
  by (simp_all add: plain_elem_def execFifoFilename_def stateFilename_def)

lemma create_root_pres:
  "preserves fs_wf (create_root cid r u g)"
  "preserves (\<lambda>w. outside w = x) (create_root cid r u g)"
  by (intro keep_create_root wf_read wf_MkdirAll wf_write make_fifo_pres make_fifo_outside
      blind_os_ops fs_blind_outside)+

text \<open>Of the files it may write only those below the container's directory, if what leads to it is there.\<close>

lemma create_root_region:
  assumes "IsAbs r" and "dirs_to f (butlast (resolve c r))"
  shows "preserves (fs_agrees c (under c r) f) (create_root cid r u g)"
proof -
  have fifo: "under c r (resolve c (Join [r, execFifoFilename]))"
    by (simp add: under_def resolve_Join_plain [OF assms(1)])
  have "preserves (fs_agrees c (under c r) f) (os_MkdirAll r (octal3 7 1 1))"
  proof (rule agrees_MkdirAll)
    fix q assume "prefix q (resolve c r)"
    then consider "q = resolve c r" | "prefix q (butlast (resolve c r))"
      using prefix_butlast_cases by blast
    then show "under c r q \<or> (\<exists>n. f q = Some n \<and> i_kind n = KDir)"
      using assms(2) by cases (auto simp: under_def dirs_to_def)
  qed
  moreover have "under c r (resolve c r)" by (simp add: under_def)
  ultimately show ?thesis
    using fifo by (intro keep_create_root make_fifo_pres agrees_read agrees_write)
qed

text \<open>A directory stays one.\<close>

lemma dirs_to_is_dir: "dirs_to (fs_get w) p \<longleftrightarrow> (\<forall>q. prefix q p \<longrightarrow> is_dir w q)"
  by (auto simp: dirs_to_def is_dir_def split: option.splits)

lemma dir_stays_put: "is_dir w q \<Longrightarrow> (\<forall>m. fs_get w p = Some m \<longrightarrow> i_kind m = KDir \<longrightarrow> i_kind n = KDir) \<Longrightarrow> is_dir (fs_put p n w) q"
  by (auto simp: is_dir_def split: option.splits)

lemma dir_stays:
  "preserves (\<lambda>w. is_dir w q) (os_Stat p)"
  "preserves (\<lambda>w. is_dir w q) (os_MkdirAll p m)"
  "preserves (\<lambda>w. is_dir w q) (os_Chown p u g)"
  "preserves (\<lambda>w. is_dir w q) (sys_Mkfifo p m)"
proof -
  show "preserves (\<lambda>w. is_dir w q) (os_Stat p)"
    unfolding os_Stat_def
    by (intro preserves_at_path preserves_syscall) (auto simp: preserves_def lookup_or_err_def split: option.splits)
  show "preserves (\<lambda>w. is_dir w q) (os_MkdirAll p m)"
    unfolding os_MkdirAll_def
    by (intro preserves_at_path preserves_syscall preserves_for_each) (auto simp: preserves_def mkdir_missing_def intro!: dir_stays_put split: option.splits)
  show "preserves (\<lambda>w. is_dir w q) (os_Chown p u g)"
    unfolding os_Chown_def
    by (intro preserves_at_path preserves_syscall) (auto simp: preserves_def update_inode_def intro!: dir_stays_put split: option.splits)
  show "preserves (\<lambda>w. is_dir w q) (sys_Mkfifo p m)"
    unfolding sys_Mkfifo_def
    by (intro preserves_at_path preserves_syscall) (auto simp: preserves_def create_entry_def exists_at_def intro!: dir_stays_put split: option.splits)
qed

lemma dir_stays_create_root: "preserves (\<lambda>w. is_dir w q) (create_root cid r u g)"
  by (rule keep_create_root) (auto simp: make_fifo_def intro!: dir_stays preserves_sys_Umask preserves_seq preserves_try_io preserves_fail preserves_ret)

lemma os_Chown_Ok:
  assumes "os_Chown p u g w = (Ok (), w')"
  shows "\<exists>n. fs_get w (resolve (w_cwd w) p) = Some n \<and>
    w' = fs_put (resolve (w_cwd w) p) (n\<lparr>i_uid := u, i_gid := g\<rparr>) (w\<lparr>w_tick := Suc (w_tick w)\<rparr>)"
  using at_path_Ok [OF assms [unfolded os_Chown_def], THEN syscall_Ok]
  by (auto simp: update_inode_def split: option.splits)

lemma sys_Mkfifo_Ok:
  assumes "sys_Mkfifo p m w = (Ok (), w')"
  shows "fs_get w (resolve (w_cwd w) p) = None \<and> w' = fs_put (resolve (w_cwd w) p) (new_inode w KFifo m)
    (w\<lparr>w_tick := Suc (w_tick w)\<rparr>)"
  using at_path_Ok [OF assms [unfolded sys_Mkfifo_def], THEN syscall_Ok]
  by (auto simp: create_entry_def exists_at_def new_inode_def split: if_splits)

lemma make_fifo_Ok:
  assumes "make_fifo p w = (Ok (), w')"
  shows "\<exists>n. fs_get w' (resolve (w_cwd w) p) = Some n \<and> i_kind n = KFifo \<and> i_mode n = octal3 6 2 2"
proof -
  obtain q w1 where m: "sys_Mkfifo p (octal3 6 2 2) (w\<lparr>w_umask := 0\<rparr>) = (q, w1)" by (meson surj_pair)
  with assms have q: "q = Ok ()" and w': "w' = w1\<lparr>w_umask := w_umask w\<rparr>"
    by (cases q; auto simp: make_fifo_def sys_Umask_def)+
  show ?thesis
    using sys_Mkfifo_Ok [OF m [unfolded q]] by (simp add: w' new_inode_def)
qed

lemma create_root_Ok:
  assumes "create_root cid r u g w = (Ok (), w')"
  shows "\<exists>n. fs_get w' (resolve (w_cwd w) (Join [r, execFifoFilename])) = Some n \<and> i_kind n = KFifo
    \<and> i_mode n = octal3 6 2 2 \<and> i_uid n = u \<and> i_gid n = g"
proof -
  let ?p = "Join [r, execFifoFilename]"
  obtain w1 w2 w3 w4 where
    s: "try_io (os_Stat r) (\<lambda>e. if \<not> IsNotExist e then fail e else ret ())
         (\<lambda>_. fail (Msg (''container with id exists: '' @ cid))) w = (Ok (), w1)"
    and d: "os_MkdirAll r (octal3 7 1 1) w1 = (Ok (), w2)" and o1: "os_Chown r u g w2 = (Ok (), w3)"
    and f: "make_fifo ?p w3 = (Ok (), w4)" and o2: "os_Chown ?p u g w4 = (Ok (), w')"
    using assms unfolding create_root_def seq_Ok_iff by auto
  have "preserves (\<lambda>v. outside v = outside w) (try_io (os_Stat r) (\<lambda>e. if \<not> IsNotExist e then fail e else ret ())
         (\<lambda>_. fail (Msg (''container with id exists: '' @ cid))))"
    by (intro preserves_try_io preserves_if preserves_fail preserves_ret blind_os_ops fs_blind_outside)
  from preservesD [OF this s] have "outside w1 = outside w" by simp
  then have "outside w2 = outside w"
    using preservesD [OF blind_os_ops(3) [OF fs_blind_outside] d] by blast
  then have "outside w3 = outside w"
    using preservesD [OF blind_os_ops(6) [OF fs_blind_outside] o1] by blast
  moreover from this have "outside w4 = outside w"
    using preservesD [OF make_fifo_outside f] by blast
  ultimately have cwd: "w_cwd w3 = w_cwd w" "w_cwd w4 = w_cwd w" by (simp_all add: outside_def)
  from make_fifo_Ok [OF f] os_Chown_Ok [OF o2] show ?thesis unfolding cwd by auto
qed

subsection \<open>Creation\<close>

lemma preserves_lift_res [pres]: "preserves P (lift_res r)"
  by (simp add: preserves_def lift_res_def)

lemma lift_res_run [simp]: "lift_res r s = (r, s)"
  by (simp add: lift_res_def)

lemma keep_Create:
  assumes "\<And>r u g. preserves P (create_root cid r u g)"
    and "\<And>i. preserves P (FsCreateFunc (FsH (fac_LLCHandler l)) i)"
    and "\<And>i. preserves P (NetworkCreateFunc (NetworkH (fac_LLCHandler l)) i)"
    and "\<And>i. preserves P (ExecCreateFunc (ExecH (fac_LLCHandler l)) i)"
  shows "preserves P (Create l cid config)"
  unfolding Create_def create_fs_def Let_def
  by (intro preserves_if preserves_fail preserves_seq preserves_lift_res preserves_map_err preserves_ret
      preserves_case_prod assms)

lemma seq_lift_Ok: "seq (lift_res (Ok a)) k = k a"
  by (rule ext) (simp add: seq_def try_io_def)

lemma ensures_create_fs:
  assumes "\<And>i. gi_ContainerRoot i = r \<Longrightarrow> gi_Config i = config \<Longrightarrow>
      ensures P (FsCreateFunc (FsH H) i) (\<lambda>_. Q) (\<lambda>_. Q) (\<lambda>_. Q)"
    and "\<And>w. P w \<Longrightarrow> Q w"
  shows "ensures P (create_fs H cid r config) (\<lambda>_. Q) (\<lambda>_. Q) (\<lambda>_. Q)"
proof (cases "isPauseContainer config")
  case True
  then show ?thesis using assms(2) by (simp add: create_fs_def ensures_def applyPauseHack_def)
next
  case False
  then show ?thesis
    unfolding create_fs_def if_not_P [OF False]
    by (intro ensures_seq [OF ensures_map_err] assms(1)) (simp_all add: create_input_def ensures_def)
qed

text \<open>Creation of a root, then whatever the file system handler does, then operations that keep \<open>Q\<close>.\<close>

lemma ensures_Create:
  assumes "\<And>x v'. create_root cid (Join [fac_Root l, cid]) 0 0 w = (x, v') \<Longrightarrow> P v'"
    and "\<And>i. gi_ContainerRoot i = Join [fac_Root l, cid] \<Longrightarrow> gi_Config i = config \<Longrightarrow>
      ensures P (FsCreateFunc (FsH (fac_LLCHandler l)) i) (\<lambda>_. Q) (\<lambda>_. Q) (\<lambda>_. Q)"
    and "\<And>w. P w \<Longrightarrow> Q w" and "Q w"
    and "\<And>i. preserves Q (NetworkCreateFunc (NetworkH (fac_LLCHandler l)) i)"
    and "\<And>i. preserves Q (ExecCreateFunc (ExecH (fac_LLCHandler l)) i)"
  shows "ensures (\<lambda>v. v = w) (Create l cid config) (\<lambda>_. Q) (\<lambda>_. Q) (\<lambda>_. Q)"
proof -
  have valid: "ensures (\<lambda>v. v = w) (lift_res (validateID cid)) (\<lambda>_ v. v = w) (\<lambda>_. Q) (\<lambda>_. Q)"
    using assms(4) by (simp add: ensures_def split: res.split)
  have root: "ensures (\<lambda>v. v = w) (create_root cid (Join [fac_Root l, cid]) 0 0) (\<lambda>_. P) (\<lambda>_. Q) (\<lambda>_. Q)"
    by (rule ensuresI) (auto dest: assms(1) intro: assms(3))
  have rest: "preserves Q (seq (map_err f (NetworkCreateFunc (NetworkH (fac_LLCHandler l)) i)) (\<lambda>netS.
      seq (map_err g (ExecCreateFunc (ExecH (fac_LLCHandler l)) (j netS))) (\<lambda>exS. ret (h netS exS))))" for f g h i j
    by (intro preserves_seq preserves_map_err preserves_ret assms)
  show ?thesis
    unfolding Create_def Let_def HostUID_def HostGID_def seq_lift_Ok
    using assms(4)
    apply (cases "fac_Root l = ''''")
     apply (simp add: ensures_def)
    apply (simp only: if_False)
    apply (rule ensures_seq [OF valid], rule ensures_seq [OF root])
    apply (rule ensures_seq [OF ensures_create_fs [OF assms(2,3)]])
      apply assumption+
    apply (split prod.split, intro allI impI)
    apply (rule ensures_preserved [OF rest])
    done
qed

text \<open>An existing entry of that name is left as it is: the call fails before it writes anything.\<close>

lemma create_root_existing:
  assumes "IsAbs r" and "fs_get w (resolve (w_cwd w) r) = Some n"
  shows "\<exists>e t. create_root cid r u g w = (Err e, w\<lparr>w_tick := t\<rparr>)"
proof -
  obtain x w' where s: "os_Stat r w = (x, w')" by (meson surj_pair)
  obtain t where t: "w' = w\<lparr>w_tick := t\<rparr>" using os_Stat_state [OF s] by blast
  from s assms IsAbs_nonempty [OF assms(1)]
  consider m where "x = Ok m" | f where "x = Err (Errno (fault_errno f))"
    by (auto simp: os_Stat_run split: if_splits option.splits)
  then show ?thesis
    by cases (use s t in \<open>auto simp: create_root_def\<close>)
qed

lemma Create_existing:
  assumes "IsAbs (fac_Root l)" and "fs_get w (resolve (w_cwd w) (Join [fac_Root l, cid])) = Some n"
  shows "\<exists>e t. Create l cid config w = (Err e, w\<lparr>w_tick := t\<rparr>)"
proof (cases "validateID cid")
  case (Ok u)
  obtain e t where "create_root cid (Join [fac_Root l, cid]) 0 0 w = (Err e, w\<lparr>w_tick := t\<rparr>)"
    using create_root_existing [OF IsAbs_Join [OF assms(1)] assms(2)] by blast
  then show ?thesis
    using IsAbs_nonempty [OF assms(1)] Ok by (auto simp: Create_def HostUID_def HostGID_def Let_def)
next
  case (Err e)
  then show ?thesis
    using IsAbs_nonempty [OF assms(1)] by (auto simp: Create_def intro: exI [where x = "w_tick w"])
next
  case (Stop x)
  then show ?thesis by (simp add: validateID_def split: if_splits)
qed

lemma Create_invalid:
  "validateID cid \<noteq> Ok () \<Longrightarrow> \<exists>e. Create l cid config w = (Err e, w)"
  by (cases "validateID cid") (auto simp: Create_def validateID_def split: if_splits)

lemma Create_Ok:
  assumes "Create l cid config w = (Ok c, w')"
  shows "validateID cid = Ok ()"
    and "nc_id c = cid \<and> nc_root c = Join [fac_Root l, cid] \<and> st_ID (nc_state c) = cid
      \<and> st_InitProcessPid (nc_state c) = 0 \<and> st_Status (nc_state c) = Stopped \<and> st_Config (nc_state c) = nc_config c"
    and "nc_config c = (if isPauseContainer config then config\<lparr>cfg_Args := [pauseNablaName]\<rparr> else config)"
    and "\<exists>w1. create_root cid (Join [fac_Root l, cid]) 0 0 w = (Ok (), w1)"
proof -
  obtain w1 w2 w3 cfg fsS netS execS where v: "validateID cid = Ok ()"
    and r: "create_root cid (Join [fac_Root l, cid]) 0 0 w = (Ok (), w1)"
    and f: "create_fs (fac_LLCHandler l) cid (Join [fac_Root l, cid]) config w1 = (Ok (cfg, fsS), w2)"
    and c: "c = new_container cid (Join [fac_Root l, cid]) cfg fsS netS execS"
    using assms
    by (auto simp: Create_def HostUID_def HostGID_def Let_def seq_Ok_iff split: if_splits)
  from v show "validateID cid = Ok ()" .
  from r show "\<exists>w1. create_root cid (Join [fac_Root l, cid]) 0 0 w = (Ok (), w1)" by blast
  from c show "nc_id c = cid \<and> nc_root c = Join [fac_Root l, cid] \<and> st_ID (nc_state c) = cid
      \<and> st_InitProcessPid (nc_state c) = 0 \<and> st_Status (nc_state c) = Stopped \<and> st_Config (nc_state c) = nc_config c"
    by (simp add: new_container_def)
  from f c show "nc_config c = (if isPauseContainer config then config\<lparr>cfg_Args := [pauseNablaName]\<rparr> else config)"
    by (auto simp: create_fs_def applyPauseHack_def new_container_def seq_Ok_iff split: if_splits)
qed

subsection \<open>A complete runtime\<close>

context runllc
begin

lemma Create_wf: "fac_LLCHandler l = H \<Longrightarrow> preserves fs_wf (Create l cid config)"
  by (rule keep_Create)
    (simp_all add: create_root_pres fs.fs_wf_keep net.net_wf_keep preserves_pure exec.exec_create_pure)

lemma Create_outside: "fac_LLCHandler l = H \<Longrightarrow> preserves (\<lambda>w. outside w = x) (Create l cid config)"
  by (rule keep_Create)
    (simp_all add: create_root_pres fs.fs_blind_keep net.net_blind_keep net_blind_outside fs_blind_outside
      preserves_pure exec.exec_create_pure)

text \<open>Creation writes in the container's directory, its root file system and below \<open>/dev/net\<close> only.\<close>

lemma Create_region:
  assumes H: "fac_LLCHandler l = H" and root: "IsAbs (fac_Root l)" and rootfs: "IsAbs (cfg_Rootfs config)"
    and dirs: "dirs_to (fs_get w) (resolve (w_cwd w) (cfg_Rootfs config))"
      "dirs_to (fs_get w) (butlast (resolve (w_cwd w) (Join [fac_Root l, cid])))"
    and run: "Create l cid config w = (r, w')"
    and out: "\<not> under (w_cwd w) (Join [fac_Root l, cid]) p" "\<not> under (w_cwd w) (cfg_Rootfs config) p" "\<not> dev_net p"
  shows "fs_get w' p = fs_get w p"
proof -
  let ?c = "w_cwd w" and ?r = "Join [fac_Root l, cid]"
  let ?S = "\<lambda>q. under ?c ?r q \<or> under ?c (cfg_Rootfs config) q"
  let ?A = "fs_agrees ?c (\<lambda>q. ?S q \<or> dev_net q) (fs_get w)"
  let ?P = "\<lambda>v. ?A v \<and> dirs_to (fs_get v) (resolve ?c (cfg_Rootfs config))"
  have "ensures (\<lambda>v. v = w) (Create l cid config) (\<lambda>_. ?A) (\<lambda>_. ?A) (\<lambda>_. ?A)"
  proof (rule ensures_Create [where P = ?P], goal_cases)
    case (1 x v')
    have "fs_agrees ?c (under ?c ?r) (fs_get w) v'"
      using preservesD [OF create_root_region [OF IsAbs_Join [OF root] dirs(2)] 1]
      by (simp add: fs_agrees_def)
    moreover have "dirs_to (fs_get v') (resolve ?c (cfg_Rootfs config))"
      using dirs(1) preservesD [OF dir_stays_create_root 1] by (auto simp: dirs_to_is_dir)
    ultimately show ?case by (simp add: fs_agrees_def)
  next
    case (2 i)
    have "?A v'" if v: "?P v" and m: "FsCreateFunc (FsH H) i v = (x, v')" for v x v'
    proof -
      have "fs_agrees ?c ?S (fs_get v) v" using v by (simp add: fs_agrees_def)
      then have "fs_agrees ?c ?S (fs_get v) v'"
        using fs.fs_create_region [of i "fs_get v" ?c, unfolded 2] IsAbs_Join [OF root] rootfs v m
        by (blast dest: preservesD)
      then show ?thesis using v by (simp add: fs_agrees_def)
    qed
    then show ?case unfolding H by (intro ensuresI) blast+
  next
    case (5 i)
    show ?case unfolding H by (rule fs_agrees_weaken [OF net.net_region(1)]) simp
  qed (simp_all add: fs_agrees_def H preserves_pure exec.exec_create_pure)
  then have "?A w'" using run by (auto dest: ensures_snd)
  then show ?thesis using out by (simp add: fs_agrees_def)
qed

lemma destroy_keeps:
  assumes "\<And>i. gi_ContainerRoot i = nc_root c \<Longrightarrow> preserves P (FsDestroyFunc (FsH H) i)"
    and "\<And>i. preserves P (NetworkDestroyFunc (NetworkH H) i)"
    and "P w" and "destroy H (c, w) = (r, (c', w'))"
  shows "P w'"
proof -
  let ?c = "c\<lparr>nc_state := (nc_state c)\<lparr>st_InitProcessPid := 0, st_Status := Stopped\<rparr>\<rparr>"
  have "preserves (\<lambda>s. P (snd s)) (destroy_handlers H ?c)"
    unfolding destroy_handlers_def
    by (intro preserves_seq preserves_on_world preserves_set_state assms
        preserves_pure exec.exec_destroy_pure) (simp add: destroy_input_def)
  moreover have "destroy_handlers H ?c (?c, w) = (r, (c', w'))"
    using assms(4) by (simp add: destroy_def)
  ultimately show "P w'" using assms(3) by (auto dest: preservesD)
qed

lemma destroy_wf: "destroy H (c, w) = (r, (c', w')) \<Longrightarrow> fs_wf w \<Longrightarrow> fs_wf w'"
  by (rule destroy_keeps [where P = fs_wf]) (simp_all add: fs.fs_wf_keep net.net_wf_keep)

lemma destroy_outside: "destroy H (c, w) = (r, (c', w')) \<Longrightarrow> outside w' = outside w"
  by (rule destroy_keeps [where P = "\<lambda>v. outside v = outside w"])
    (simp_all add: fs.fs_blind_keep net.net_blind_keep net_blind_outside fs_blind_outside)

lemma destroy_region:
  assumes "destroy H (c, w) = (r, (c', w'))" and "\<not> under (w_cwd w) (nc_root c) p" and "\<not> dev_net p"
  shows "fs_get w' p = fs_get w p"
proof -
  let ?R = "\<lambda>q. under (w_cwd w) (nc_root c) q \<or> dev_net q"
  have "fs_agrees (w_cwd w) ?R (fs_get w) w'"
  proof (rule destroy_keeps [OF _ _ _ assms(1)])
    fix i :: GenericInput assume root: "gi_ContainerRoot i = nc_root c"
    show "preserves (fs_agrees (w_cwd w) ?R (fs_get w)) (FsDestroyFunc (FsH H) i)"
    proof (rule fs_agrees_weaken)
      show "preserves (fs_agrees (w_cwd w) (under (w_cwd w) (nc_root c)) f) (FsDestroyFunc (FsH H) i)" for f
        using fs.fs_destroy_region [of "w_cwd w" i f] unfolding root .
    qed simp
  next
    fix i show "preserves (fs_agrees (w_cwd w) ?R (fs_get w)) (NetworkDestroyFunc (NetworkH H) i)"
      by (rule fs_agrees_weaken [OF net.net_region(2)]) simp
  qed (simp add: fs_agrees_def)
  with assms(2,3) show ?thesis by (simp add: fs_agrees_def)
qed

lemma destroy_removes:
  assumes "destroy H (c, w) = (Ok (), (c', w'))" and "IsAbs (nc_root c)"
    and "under (w_cwd w) (nc_root c) p" and "\<not> dev_net p"
  shows "fs_get w' p = None"
proof -
  let ?c = "c\<lparr>nc_state := (nc_state c)\<lparr>st_InitProcessPid := 0, st_Status := Stopped\<rparr>\<rparr>"
  obtain a w1 fsS w2 netS where
    e: "ExecDestroyFunc (ExecH H)
      (destroy_input ?c (Some (st_FsState (nc_state ?c))) (Some (st_ExecState (nc_state ?c)))) w = (Ok a, w1)"
    and f: "FsDestroyFunc (FsH H) (destroy_input ?c (Some (st_FsState (nc_state ?c))) a) w1 = (Ok fsS, w2)"
    and n: "NetworkDestroyFunc (NetworkH H) (destroy_input ?c fsS a) w2 = (Ok netS, w')"
    using assms(1)
    by (auto simp: destroy_def destroy_handlers_def seq_Ok_iff on_world_Ok_iff simp del: on_world_run)
  have "w1 = w" using exec.exec_destroy_pure e by (metis snd_conv)
  have "fs_get w2 p = None"
    using fs.fs_destroy_removes [OF _ f] assms(2,3) \<open>w1 = w\<close> by (simp add: destroy_input_def)
  then show ?thesis
    using agreesD(1) [OF net.net_region(2) n] assms(4) by metis
qed

end

end
