(* ===== verification/Commands.thy ===== *)
theory Commands
  imports FactoryFacts
begin

text \<open>
  \<open>llcli\<close>: the commands on an existing container, \<open>kill\<close>, \<open>delete\<close>, \<open>start\<close> and \<open>state\<close>. The
  command line package is the record of what it parsed. An action returns the bytes it writes to
  standard output; an error it returns is printed by the caller, which exits with status 1, as
  \<open>fatal\<close> does.
\<close>

subsection \<open>The command line\<close>

record cliContext =
  ctx_Args :: "string list"
  ctx_Strings :: "(string \<times> string) list"
  ctx_Bools :: "(string \<times> bool) list"
  ctx_GlobalStrings :: "(string \<times> string) list"
  ctx_GlobalBools :: "(string \<times> bool) list"
definition Args_Get :: "cliContext \<Rightarrow> nat \<Rightarrow> string" where
  "Args_Get ctx n = (if n < length (ctx_Args ctx) then ctx_Args ctx ! n else '''')"

definition ctx_String :: "cliContext \<Rightarrow> string \<Rightarrow> string" where
  "ctx_String ctx k = (case map_of (ctx_Strings ctx) k of None \<Rightarrow> '''' | Some v \<Rightarrow> v)"

definition ctx_GlobalString :: "cliContext \<Rightarrow> string \<Rightarrow> string" where
  "ctx_GlobalString ctx k = (case map_of (ctx_GlobalStrings ctx) k of None \<Rightarrow> '''' | Some v \<Rightarrow> v)"

definition ctx_Bool :: "cliContext \<Rightarrow> string \<Rightarrow> bool" where
  "ctx_Bool ctx k = (map_of (ctx_Bools ctx) k = Some True)"

definition ctx_GlobalBool :: "cliContext \<Rightarrow> string \<Rightarrow> bool" where
  "ctx_GlobalBool ctx k = (map_of (ctx_GlobalBools ctx) k = Some True)"

definition fatal :: "goerr \<Rightarrow> ('s, 'a) io" where
  "fatal e = halt (Exit 1)"

subsection \<open>Signals\<close>

definition SIGKILL :: int where "SIGKILL = 9"

definition signalMap :: "(string \<times> int) list" where
  "signalMap = [(''ABRT'', 6), (''ALRM'', 14), (''BUS'', 7), (''CHLD'', 17), (''CLD'', 17), (''CONT'', 18),
     (''FPE'', 8), (''HUP'', 1), (''ILL'', 4), (''INT'', 2), (''IO'', 29), (''IOT'', 6), (''KILL'', 9), (''PIPE'', 13),
     (''POLL'', 29), (''PROF'', 27), (''PWR'', 30), (''QUIT'', 3), (''SEGV'', 11), (''STKFLT'', 16), (''STOP'', 19),
     (''SYS'', 31), (''TERM'', 15), (''TRAP'', 5), (''TSTP'', 20), (''TTIN'', 21), (''TTOU'', 22), (''UNUSED'', 31),
     (''URG'', 23), (''USR1'', 10), (''USR2'', 12), (''VTALRM'', 26), (''WINCH'', 28), (''XCPU'', 24), (''XFSZ'', 25)]"

definition unknown_signal :: "string \<Rightarrow> 'a res" where
  "unknown_signal raw = Err (Msg (''unknown signal '' @ raw))"

definition parseSignal :: "string \<Rightarrow> int res" where
  "parseSignal rawSignal =
     (case Atoi rawSignal of
        Some s \<Rightarrow> if s \<in> snd ` set signalMap then Ok s else unknown_signal rawSignal
      | None \<Rightarrow> (case map_of signalMap (TrimPrefix (ToUpper rawSignal) ''SIG'') of
            None \<Rightarrow> unknown_signal rawSignal | Some s \<Rightarrow> Ok s))"

subsection \<open>Finding the container\<close>

text \<open>The methods of a loaded container run on the object, which the command drops at its end.\<close>

definition with_container :: "nablaContainer \<Rightarrow> ('n, 'a) meth \<Rightarrow> ('n world, 'a) io" where
  "with_container c m = (\<lambda>w. case m (c, w) of (r, (_, w')) \<Rightarrow> (r, w'))"

definition loadFactory :: "cliContext \<Rightarrow> 'n RunllcHandler \<Rightarrow> ('n world, 'n NablaFactory) io" where
  "loadFactory ctx H = seq (filepath_Abs (ctx_GlobalString ctx ''root'')) (\<lambda>abs. New abs H [])"

definition getContainer :: "cliContext \<Rightarrow> 'n RunllcHandler \<Rightarrow> ('n world, nablaContainer) io" where
  "getContainer ctx H =
     (let cid = Args_Get ctx 0 in
      if cid = '''' then fail (Msg ''container id cannot be empty'')
      else seq (loadFactory ctx H) (\<lambda>l. Load l cid))"

subsection \<open>The commands\<close>

definition kill_action :: "cliContext \<Rightarrow> 'n RunllcHandler \<Rightarrow> ('n world, unit) io" where
  "kill_action ctx H =
     seq (getContainer ctx H) (\<lambda>c.
     let sigstr = (if Args_Get ctx 1 = '''' then ''SIGTERM'' else Args_Get ctx 1) in
     seq (lift_res (parseSignal sigstr)) (\<lambda>sig.
     with_container c (container_Signal sig (ctx_Bool ctx ''all''))))"

text \<open>\<open>destroy(container)\<close> logs the error and drops it.\<close>

definition destroy_logged :: "'n RunllcHandler \<Rightarrow> ('n, unit) meth" where
  "destroy_logged H = ignore (destroy H)"

text \<open>The loop of \<open>killContainer\<close>: \<open>n\<close> probes, one every tenth of a second, until one fails.\<close>

fun await_exit :: "'n RunllcHandler \<Rightarrow> nat \<Rightarrow> ('n, unit) meth" where
  "await_exit H 0 = fail (Msg ''container init still running'')"
| "await_exit H (Suc n) =
     seq (on_world time_Sleep) (\<lambda>_.
     try_io (container_Signal 0 False) (\<lambda>_. destroy_logged H) (\<lambda>_. await_exit H n))"

definition killContainer :: "'n RunllcHandler \<Rightarrow> ('n, unit) meth" where
  "killContainer H = seq (ignore (container_Signal SIGKILL False)) (\<lambda>_. await_exit H 100)"

definition delete_found :: "'n runclib \<Rightarrow> 'n RunllcHandler \<Rightarrow> string \<Rightarrow> bool \<Rightarrow> ('n, unit) meth" where
  "delete_found R H cid force =
     seq (currentStatus R) (\<lambda>s. case s of
       Stopped \<Rightarrow> destroy_logged H
     | Created \<Rightarrow> killContainer H
     | _ \<Rightarrow> if force then killContainer H
            else fail (Msg (''cannot delete container '' @ cid @ '' that is not stopped: '' @ Status_String s @ [CHR 0x0A])))"

definition delete_action :: "cliContext \<Rightarrow> 'n runclib \<Rightarrow> 'n RunllcHandler \<Rightarrow> ('n world, unit) io" where
  "delete_action ctx R H =
     (let cid = Args_Get ctx 0 in
      try_io (getContainer ctx H)
        (\<lambda>e. if api_code e = Some ContainerNotExists
             then seq (ignore (os_RemoveAll (Join [ctx_GlobalString ctx ''root'', cid]))) (\<lambda>_. fail e)
             else fail e)
        (\<lambda>c. with_container c (delete_found R H cid (ctx_Bool ctx ''force''))))"

definition start_found :: "'n runclib \<Rightarrow> ('n, unit) meth" where
  "start_found R =
     seq (currentStatus R) (\<lambda>s. case s of
       Created \<Rightarrow> exec R
     | Stopped \<Rightarrow> fail (Msg ''cannot start a container that has stopped'')
     | Running \<Rightarrow> fail (Msg ''cannot start an already running container'')
     | _ \<Rightarrow> fail (Msg (''cannot start a container in the '' @ Status_String s @ '' state'' @ [CHR 0x0A])))"

definition start_action :: "cliContext \<Rightarrow> 'n runclib \<Rightarrow> 'n RunllcHandler \<Rightarrow> ('n world, unit) io" where
  "start_action ctx R H = seq (getContainer ctx H) (\<lambda>c. with_container c (start_found R))"

record containerState =
  cst_Version :: string
  cst_ID :: string
  cst_InitProcessPid :: int
  cst_Status :: string
  cst_Bundle :: string
  cst_Rootfs :: string
  cst_Created :: string

text \<open>The two calls probe the process twice; the printed status is that of the second.\<close>

definition state_found :: "'n runclib \<Rightarrow> ('n, containerState) meth" where
  "state_found R =
     seq (currentState R) (\<lambda>st.
     seq (currentStatus R) (\<lambda>status.
     seq (this nc_state) (\<lambda>st'.
     ret \<lparr>cst_Version = cfg_Version (st_Config st'), cst_ID = st_ID st',
       cst_InitProcessPid = st_InitProcessPid st', cst_Status = Status_String status,
       cst_Bundle = rl_SearchLabels R (cfg_Labels (st_Config st')) ''bundle'',
       cst_Rootfs = cfg_Rootfs (st_Config st'), cst_Created = st_Created st'\<rparr>)))"

definition enc_containerState :: "containerState \<Rightarrow> json" where
  "enc_containerState s = JObj [(''ociVersion'', JStr (cst_Version s)), (''id'', JStr (cst_ID s)),
     (''pid'', j_int (cst_InitProcessPid s)), (''status'', JStr (cst_Status s)), (''bundle'', JStr (cst_Bundle s)),
     (''rootfs'', JStr (cst_Rootfs s)), (''created'', JStr (cst_Created s))]"

text \<open>The value the command prints (indented); an error ends the program with status 1.\<close>

definition state_action :: "cliContext \<Rightarrow> 'n runclib \<Rightarrow> 'n RunllcHandler \<Rightarrow> ('n world, json) io" where
  "state_action ctx R H =
     try_io (getContainer ctx H) fatal (\<lambda>c.
     try_io (with_container c (state_found R)) fatal (\<lambda>s. ret (enc_containerState s)))"

subsection \<open>Kill and delete\<close>

lemma with_container_run [simp]:
  "m (c, w) = (r, (c', w')) \<Longrightarrow> with_container c m w = (r, w')"
  by (simp add: with_container_def)

lemma snd_with_container: "snd (with_container c m w) = snd (snd (m (c, w)))"
  by (simp add: with_container_def split: prod.split)

lemma map_of_signalMap: "map_of signalMap k = Some s \<Longrightarrow> (k, s) \<in> set signalMap"
  by (rule map_of_SomeD)

lemma signalMap_range: "(k, s) \<in> set signalMap \<Longrightarrow> 1 \<le> s \<and> s \<le> 31"
  by (auto simp: signalMap_def)

lemma parseSignal_range: "parseSignal raw = Ok s \<Longrightarrow> 1 \<le> s \<and> s \<le> 31"
  by (auto simp: parseSignal_def unknown_signal_def split: option.splits if_splits
      dest: map_of_signalMap signalMap_range)

lemma Atoi_letter: "s \<noteq> [] \<Longrightarrow> \<not> is_digit (hd s) \<Longrightarrow> hd s \<noteq> CHR ''-'' \<Longrightarrow> hd s \<noteq> CHR ''+'' \<Longrightarrow> Atoi s = None"
  by (cases s) (simp_all add: Atoi_def Let_def)

lemma to_upper_other: "is_digit c \<Longrightarrow> to_upper_char c = c" "to_upper_char CHR ''-'' = CHR ''-''" "to_upper_char CHR ''+'' = CHR ''+''"
  by (simp_all add: is_digit_def to_upper_char_def)

lemma capital_not_digit: "c \<in> set ''ABCDEFGHIJKLMNOPQRSTUVWXYZ'' \<Longrightarrow> \<not> is_digit c"
  by (simp, elim disjE) (simp_all add: is_digit_def)

lemma Atoi_capital:
  assumes "ToUpper raw = n" "n \<noteq> []" "hd n \<in> set ''ABCDEFGHIJKLMNOPQRSTUVWXYZ''"
  shows "Atoi raw = None"
proof (rule Atoi_letter)
  show raw: "raw \<noteq> []" using assms(1,2) by (auto simp: ToUpper_def)
  have up: "to_upper_char (hd raw) \<in> set ''ABCDEFGHIJKLMNOPQRSTUVWXYZ''"
    using assms raw by (cases raw) (auto simp: ToUpper_def)
  show "\<not> is_digit (hd raw)" using up capital_not_digit to_upper_other(1) by metis
  show "hd raw \<noteq> CHR ''-''" "hd raw \<noteq> CHR ''+''" using up by (auto simp: to_upper_other(2,3))
qed

lemma signalMap_names:
  "list_all (\<lambda>(n, s). n \<noteq> [] \<and> hd n \<in> set ''ABCDEFGHIJKLMNOPQRSTUVWXYZ'' \<and> \<not> prefix ''SIG'' n) signalMap"
  by (simp add: signalMap_def)

lemma signalMap_distinct: "distinct (map fst signalMap)"
  by (simp add: signalMap_def)

lemma parse_names:
  assumes "(n, s) \<in> set signalMap" and "ToUpper raw = n \<or> ToUpper raw = ''SIG'' @ n"
  shows "parseSignal raw = Ok s"
proof -
  have n: "n \<noteq> []" "hd n \<in> set ''ABCDEFGHIJKLMNOPQRSTUVWXYZ''" "\<not> prefix ''SIG'' n"
    using signalMap_names assms(1) by (auto simp: list_all_iff)
  have m: "map_of signalMap n = Some s" using map_of_is_SomeI [OF signalMap_distinct assms(1)] .
  have "Atoi raw = None"
    using assms(2) Atoi_capital [of raw n] Atoi_capital [of raw "''SIG'' @ n"] n by auto
  moreover have "TrimPrefix (ToUpper raw) ''SIG'' = n"
    using assms(2) n(3) by (auto simp: TrimPrefix_def)
  ultimately show ?thesis using m by (simp add: parseSignal_def)
qed

lemma parse_numbers: "(n, s) \<in> set signalMap \<Longrightarrow> parseSignal (int_text s) = Ok s"
  using signalMap_range [of n s] by (auto simp: parseSignal_def Atoi_int_text int64_ok_def rev_image_eqI)

text \<open>Apart from the signal itself, sending one changes nothing but the clock.\<close>

lemma sys_Kill_run:
  "sys_Kill pid sig w = (r, w') \<Longrightarrow>
   (\<exists>t. w' = w\<lparr>w_tick := t\<rparr> \<and> (r = Ok () \<longrightarrow> sig = 0)) \<or>
   (\<exists>t. w' = w\<lparr>w_tick := t, w_log := w_log w @ [Signalled pid sig]\<rparr> \<and> r = Ok () \<and> sig \<noteq> 0)"
  by (auto simp: sys_Kill_def syscall_def Let_def split: option.splits if_splits)

lemma probe_run:
  "sys_Kill pid 0 w = (r, w') \<Longrightarrow> w' = w\<lparr>w_tick := Suc (w_tick w)\<rparr> \<and> (r = Ok () \<or> (\<exists>e. r = Err e))"
  by (auto simp: sys_Kill_def syscall_def Let_def split: option.splits if_splits)

text \<open>Is the process there when the clock shows \<open>t\<close>?\<close>

definition answers_at :: "int \<Rightarrow> 'n world \<Rightarrow> nat \<Rightarrow> bool" where
  "answers_at pid w t \<longleftrightarrow> fst (sys_Kill pid 0 (w\<lparr>w_tick := t\<rparr>)) = Ok ()"

text \<open>
  The loop gives up after \<open>n\<close> answers, having changed nothing but the clock, or destroys at the
  first probe that is not answered.
\<close>

lemma await_exit_cases:
  "if \<forall>k<n. answers_at (st_InitProcessPid (nc_state c)) w (w_tick w + 2 * k + 1)
   then await_exit H n (c, w) = (Err (Msg ''container init still running''), (c, w\<lparr>w_tick := w_tick w + 2 * n\<rparr>))
   else \<exists>k<n. \<not> answers_at (st_InitProcessPid (nc_state c)) w (w_tick w + 2 * k + 1)
     \<and> (\<forall>j<k. answers_at (st_InitProcessPid (nc_state c)) w (w_tick w + 2 * j + 1))
     \<and> await_exit H n (c, w) = destroy_logged H (c, w\<lparr>w_tick := w_tick w + 2 * k + 2\<rparr>)"
proof (induction n arbitrary: w)
  case (Suc n)
  let ?pid = "st_InitProcessPid (nc_state c)"
  let ?w1 = "w\<lparr>w_tick := Suc (w_tick w)\<rparr>"
  let ?w2 = "w\<lparr>w_tick := Suc (Suc (w_tick w))\<rparr>"
  obtain r v where "sys_Kill ?pid 0 ?w1 = (r, v)" by (meson surj_pair)
  with probe_run [OF this] have k: "sys_Kill ?pid 0 ?w1 = (r, ?w2)" and r: "r = Ok () \<or> (\<exists>e. r = Err e)"
    by auto
  have now: "answers_at ?pid w (w_tick w + 1) \<longleftrightarrow> r = Ok ()"
    using k by (simp add: answers_at_def)
  have later: "answers_at ?pid ?w2 (w_tick ?w2 + 2 * j + 1) = answers_at ?pid w (w_tick w + 2 * Suc j + 1)" for j
    by (simp add: answers_at_def)
  have all: "(\<forall>k<Suc n. P k) \<longleftrightarrow> P 0 \<and> (\<forall>k<n. P (Suc k))" for P
    by (auto simp: less_Suc_eq_0_disj)
  show ?case
  proof (cases "r = Ok ()")
    case True
    then have step: "await_exit H (Suc n) (c, w) = await_exit H n (c, ?w2)"
      using k by (simp add: time_Sleep_def container_Signal_def)
    show ?thesis
    proof (cases "\<forall>k<n. answers_at ?pid w (w_tick w + 2 * Suc k + 1)")
      case True
      then show ?thesis
        using Suc.IH [of ?w2] now \<open>r = Ok ()\<close> unfolding step later all by simp
    next
      case False
      then obtain k where "k < n" "\<not> answers_at ?pid w (w_tick w + 2 * Suc k + 1)"
        "\<forall>j<k. answers_at ?pid w (w_tick w + 2 * Suc j + 1)"
        "await_exit H n (c, ?w2) = destroy_logged H (c, ?w2\<lparr>w_tick := w_tick ?w2 + 2 * k + 2\<rparr>)"
        using Suc.IH [of ?w2, unfolded later, unfolded if_not_P [OF False]] by blast
      then show ?thesis
        using now \<open>r = Ok ()\<close> False unfolding step all
        by (subst if_not_P, simp, intro exI [where x = "Suc k"]) (auto simp: less_Suc_eq_0_disj)
    qed
  next
    case False
    then obtain e where "r = Err e" using r by blast
    then have "await_exit H (Suc n) (c, w) = destroy_logged H (c, ?w2)"
      using k by (simp add: time_Sleep_def container_Signal_def)
    then show ?thesis using now False by (auto intro!: exI [where x = 0])
  qed
qed simp

context runllc
begin

lemma destroy_logged_log: "preserves (\<lambda>s. w_log (snd s) = l) (destroy_logged H)"
  unfolding destroy_logged_def
proof (rule preserves_ignore, rule preservesI)
  fix s r s' assume "w_log (snd s) = l" "destroy H s = (r, s')"
  then show "w_log (snd s') = l"
    using destroy_outside [of "fst s" "snd s" r "fst s'" "snd s'"] by (simp add: outside_def)
qed

lemma await_exit_log: "preserves (\<lambda>s. w_log (snd s) = l) (await_exit H n)"
proof (induction n)
  case (Suc n)
  have sleep: "preserves (\<lambda>s. w_log (snd s) = l) (on_world time_Sleep)"
    by (intro preserves_on_world preserves_time_Sleep) simp
  have "preserves (\<lambda>s. w_log (snd s) = l) (container_Signal 0 False)"
    unfolding container_Signal_def
    by (intro preserves_seq preserves_this preserves_on_world) (simp add: probe_keeps_log fs_blind_log)
  with sleep Suc show ?case
    by (simp, intro preserves_seq preserves_try_io destroy_logged_log)
qed (simp add: preserves_def)

text \<open>Deleting kills with one signal, to the container's own process, if the process is there.\<close>

lemma killContainer_log:
  assumes "killContainer H (c, w) = (r, (c', w'))"
  shows "w_log w' = w_log w \<or> w_log w' = w_log w @ [Signalled (st_InitProcessPid (nc_state c)) SIGKILL]"
proof -
  obtain x w1 where k: "sys_Kill (st_InitProcessPid (nc_state c)) SIGKILL w = (x, w1)" by (meson surj_pair)
  have "x \<noteq> Stop y" for y using k returns_os(6) unfolding returns_def by (metis fst_conv)
  then consider "x = Ok ()" | e where "x = Err e" by (cases x) auto
  then have "await_exit H 100 (c, w1) = (r, (c', w'))"
    by cases (use assms k in \<open>simp_all add: killContainer_def container_Signal_def ignore_def\<close>)
  then have "w_log w' = w_log w1"
    using preservesD [OF await_exit_log [of "w_log w1" 100], of "(c, w1)" r "(c', w')"] by simp
  with sys_Kill_run [OF k] show ?thesis by auto
qed

end

subsection \<open>Decisions on the status\<close>

definition answers :: "nablaContainer \<Rightarrow> 'n world \<Rightarrow> bool" where
  "answers c w \<longleftrightarrow> fst (os_Process_Signal (st_InitProcessPid (nc_state c)) 0 w) = Ok ()"

definition probed :: "nablaContainer \<Rightarrow> 'n world \<Rightarrow> 'n world" where
  "probed c w = snd (os_Process_Signal (st_InitProcessPid (nc_state c)) 0 w)"

text \<open>The world after a probe found nobody: the state is saved as stopped.\<close>

definition saved_stopped :: "'n runclib \<Rightarrow> nablaContainer \<Rightarrow> 'n world \<Rightarrow> 'n world" where
  "saved_stopped R c w = snd (write_state R (nc_root c) (nc_state (set_status Stopped c)) (probed c w))"

lemma currentStatus_run:
  "currentStatus R (c, w) =
    (if answers c w then (Ok (st_Status (nc_state c)), (c, probed c w))
     else (Ok Stopped, (set_status Stopped c, saved_stopped R c w)))"
proof -
  obtain r w1 where s: "os_Process_Signal (st_InitProcessPid (nc_state c)) 0 w = (r, w1)" by (meson surj_pair)
  from currentState_cases [OF s, of R] show ?thesis
    by (cases "r = Ok ()") (simp_all add: s currentStatus_def answers_def probed_def saved_stopped_def set_status_def)
qed

lemma currentStatus_bind:
  "seq (currentStatus R) k (c, w) =
    (if answers c w then k (st_Status (nc_state c)) (c, probed c w)
     else k Stopped (set_status Stopped c, saved_stopped R c w))"
  using currentStatus_run [of R c w] by (cases "answers c w") simp_all

lemma probed_clock: "\<exists>t. probed c w = w\<lparr>w_tick := t\<rparr>"
proof -
  have same: "\<exists>t. w = w\<lparr>w_tick := t\<rparr>" by (rule exI [where x = "w_tick w"]) simp
  obtain r w' where k: "sys_Kill (st_InitProcessPid (nc_state c)) 0 w = (r, w')" by (meson surj_pair)
  with probe_run [OF k] same show ?thesis
    by (auto simp: probed_def os_Process_Signal_def)
qed

lemma delete_found_cases:
  "delete_found R H cid force (c, w) =
    (if \<not> answers c w then destroy_logged H (set_status Stopped c, saved_stopped R c w)
     else if st_Status (nc_state c) = Stopped then destroy_logged H (c, probed c w)
     else if st_Status (nc_state c) = Created \<or> force then killContainer H (c, probed c w)
     else (Err (Msg (''cannot delete container '' @ cid @ '' that is not stopped: '' @
            Status_String (st_Status (nc_state c)) @ [CHR 0x0A])), (c, probed c w)))"
  by (cases "st_Status (nc_state c)") (simp_all add: delete_found_def currentStatus_bind)

lemma start_found_cases:
  "start_found R (c, w) =
    (if \<not> answers c w then (Err (Msg ''cannot start a container that has stopped''),
       (set_status Stopped c, saved_stopped R c w))
     else if st_Status (nc_state c) = Created then exec R (c, probed c w)
     else (Err (case st_Status (nc_state c) of
         Stopped \<Rightarrow> Msg ''cannot start a container that has stopped''
       | Running \<Rightarrow> Msg ''cannot start an already running container''
       | s \<Rightarrow> Msg (''cannot start a container in the '' @ Status_String s @ '' state'' @ [CHR 0x0A])), (c, probed c w)))"
  by (cases "st_Status (nc_state c)") (simp_all add: start_found_def currentStatus_bind)



end
