(* ===== verification/Runtime.thy ===== *)
theory Runtime
  imports RunncCont Commands
begin

text \<open>
  \<open>runnc.go\<close>: the complete runtime, which is the ISO file system, the TAP-and-bridge network and the
  nabla execution handler, and the proof that it meets the contract \<open>runllc\<close>: what was proved in
  that locale of creation, deletion and destruction holds of it. Then what \<open>Run\<close> ends in.
\<close>

definition nablaLLCHandler :: "'n netlink \<Rightarrow> 'n RunllcHandler" where
  "nablaLLCHandler nl = \<lparr>FsH = iSOFsHandler, NetworkH = tapBrNetworkHandler nl, ExecH = nablaExecHandler\<rparr>"

interpretation runnc: runllc "nablaLLCHandler nl" for nl
  unfolding runllc_def nablaLLCHandler_def RunllcHandler.simps
  by (intro conjI iso.fs_handler_axioms tapbr.network_handler_axioms nablaexec.exec_handler_axioms)


subsection \<open>Running the unikernel\<close>

lemma ensures_returns: "returns m \<Longrightarrow> ensures P m (\<lambda>_ _. True) (\<lambda>_ _. True) X"
  unfolding returns_def ensures_def by (auto split: prod.splits res.splits) (metis fst_conv)

lemma returns_net_op [rets]: "returns m \<Longrightarrow> returns (net_op m)"
  by (auto simp: returns_def split: prod.split) (metis fst_conv)

lemma returns_if [rets]: "returns m \<Longrightarrow> returns n \<Longrightarrow> returns (if b then m else n)"
  by simp

lemma returns_lookup:
  "returns (setupDisk d)" "returns (find_unikernel r)"
proof -
  have create: "returns (at_path p (\<lambda>q. syscall (OpCreate q) (seq (create_entry k m q) (\<lambda>_. ret p))))" for p k m
    by (intro returns_at_path returns_syscall returns_seq returns_basic) (simp add: returns_def create_entry_def)
  have temp: "returns (ioutil_TempFile a b)" for a b
    unfolding returns_def
  proof (intro allI)
    fix s :: "'x world" and y
    show "fst (ioutil_TempFile a b s) \<noteq> Stop y"
      using TempFile_run [of a b s]
    proof (elim disjE exE conjE)
      fix p assume eq: "ioutil_TempFile a b s =
        at_path p (\<lambda>q. syscall (OpCreate q) (seq (create_entry (KFile '''') (octal3 6 0 0) q) (\<lambda>_. ret p))) s"
      have "fst (at_path p (\<lambda>q. syscall (OpCreate q) (seq (create_entry (KFile '''') (octal3 6 0 0) q) (\<lambda>_. ret p))) s) \<noteq> Stop y"
        using create unfolding returns_def by blast
      then show ?thesis unfolding eq .
    qed simp
  qed
  have exe: "returns (findExecutable p)" for p
    unfolding findExecutable_def by (intro returns_seq returns_os returns_if returns_basic)
  have search: "returns (search_path n ds)" for n ds
    by (induction ds; unfold search_path.simps Let_def; intro returns_try_io returns_basic exe; assumption)
  have env: "returns (os_Getenv k)" for k
    unfolding os_Getenv_def by (rule returns_basic)
  show "returns (setupDisk d)"
    unfolding setupDisk_def CreateDummy_def
    by (intro returns_if temp returns_try_io returns_os returns_basic)
  show "returns (find_unikernel r)"
    unfolding find_unikernel_def exec_LookPath_def
    by (intro returns_if returns_try_io returns_map_err returns_seq returns_os returns_basic exe search env)
qed

lemma sys_Exec_cases:
  "ensures (\<lambda>_. True) (sys_Exec path args envs) (\<lambda>_ _. False) (\<lambda>_ _. True) (\<lambda>x _. x = Execed path args envs)"
  unfolding ensures_def sys_Exec_def at_path_def syscall_def
  by (auto simp: Let_def split: option.split kind.split)

definition nabla_run_call :: "RunncCont \<Rightarrow> stop \<Rightarrow> bool" where
  "nabla_run_call r x \<longleftrightarrow> (\<exists>disk unikernel json envs. x = Execed (rc_NablaRunBin r) [rc_NablaRunBin r, ''--x-exec-heap'', ''--mem='' @ int_text (rc_Memory r),
        ''--net='' @ rc_Tap r, ''--disk='' @ disk, unikernel, json] envs \<and>
    filter (\<lambda>v. HasPrefix v ''LD_LIBRARY_PATH='') envs = [''LD_LIBRARY_PATH=/lib64''])"

lemma exec_env_one: "filter (\<lambda>v. HasPrefix v ''LD_LIBRARY_PATH='') (exec_env envs) = [''LD_LIBRARY_PATH=/lib64'']"
proof -
  have "HasPrefix ''LD_LIBRARY_PATH=/lib64'' ''LD_LIBRARY_PATH=''" by (simp add: HasPrefix_def)
  then show ?thesis by (simp add: exec_env_def)
qed

lemma Run_cases:
  "ensures (\<lambda>_. True) (Run r) (\<lambda>_ _. False) (\<lambda>_ _. True) (\<lambda>x _. nabla_run_call r x)"
proof -
  have call: "ensures (\<lambda>_. True) (seq os_Environ (\<lambda>envs. map_err f (sys_Exec (rc_NablaRunBin r) (run_args r disk uk j) (exec_env envs))))
    (\<lambda>_ _. False) (\<lambda>_ _. True) (\<lambda>x _. nabla_run_call r x)" for f disk uk j
  proof (rule ensures_seq [OF ensures_returns])
    show "returns os_Environ" unfolding os_Environ_def by (rule returns_basic)
    fix envs show "ensures (\<lambda>_. True) (map_err f (sys_Exec (rc_NablaRunBin r) (run_args r disk uk j) (exec_env envs)))
      (\<lambda>_ _. False) (\<lambda>_ _. True) (\<lambda>x _. nabla_run_call r x)"
      unfolding map_err_def
      by (rule ensures_try_io [OF ensures_weaken [OF sys_Exec_cases]])
        (auto simp: nabla_run_call_def run_args_def exec_env_one ensures_def)
  qed
  have args: "CreateRumprunArgs a b c d e f g h \<noteq> Stop x" for a b c d e f g h x
    by (simp add: CreateRumprunArgs_def Marshal_rumpArgs_def)
  show ?thesis
    unfolding Run_def
    by (rule ensures_seq [OF ensures_returns [OF returns_map_err [OF returns_lookup(1)]]],
        rule ensures_seq [OF ensures_returns [OF returns_lookup(2)]])
      (auto split: res.split simp: args intro!: call simp: ensures_def [of _ "fail _"])
qed
end
