(* ===== verification/Init.thy ===== *)
theory Init
  imports Runtime
begin

text \<open>
  \<open>libcontainer/init_nabla.go\<close>, \<open>hooks.go\<close> and \<open>llcli/init.go\<close>: the init process, which \<open>create\<close>
  starts and which becomes the unikernel when \<open>start\<close> opens the container's FIFO. What it inherits
  is a record; the \<open>netns\<close> package and the JSON form of \<open>specs-go\<close>'s \<open>State\<close> are the record \<open>initlib\<close>.
\<close>

subsection \<open>What the process inherits\<close>

text \<open>\<open>in_Read\<close> is what can be read from an inherited file until its end.\<close>

record inherited =
  in_Pid :: int
  in_Files :: "osfile list"
  in_Read :: "osfile \<Rightarrow> string"

record 'n initlib =
  il_StateJSON :: "int \<Rightarrow> string \<Rightarrow> string \<Rightarrow> string"
  il_GetFromPath :: "string \<Rightarrow> ('n world, nat) io"
  il_New :: "('n world, nat) io"
  il_Set :: "nat \<Rightarrow> ('n world, unit) io"

definition inherited_file :: "inherited \<Rightarrow> int \<Rightarrow> osfile option" where
  "inherited_file I fd =
     (if fd < 0 then None
      else if fd < int stdioFdCount then Some (StdFile (nat fd))
      else if nat fd - stdioFdCount < length (in_Files I) then Some (in_Files I ! (nat fd - stdioFdCount))
      else None)"

text \<open>The environment variables of a command, and the process it starts.\<close>

definition env_entry :: "string \<Rightarrow> string \<times> string" where
  "env_entry s = (takeWhile (\<lambda>c. c \<noteq> CHR ''='') s, drop 1 (dropWhile (\<lambda>c. c \<noteq> CHR ''='') s))"

subsection \<open>The configuration it reads\<close>

definition dec_initConfig :: "json \<Rightarrow> initConfig option" where
  "dec_initConfig = dec_struct (\<lambda>ms. do {
     i \<leftarrow> dec_string (field ''id'' ms); b \<leftarrow> dec_string (field ''bundlepath'' ms);
     root \<leftarrow> dec_string (field ''root'' ms); args \<leftarrow> dec_list dec_string (field ''args'' ms);
     cwd \<leftarrow> dec_string (field ''cwd'' ms); envs \<leftarrow> dec_list dec_string (field ''env'' ms);
     tap \<leftarrow> dec_string (field ''tap'' ms); netns \<leftarrow> dec_string (field ''netnspath'' ms);
     hooks \<leftarrow> dec_ptr dec_Hooks (field ''hooks'' ms); mem \<leftarrow> dec_int (field ''mem'' ms);
     mounts \<leftarrow> dec_list dec_Mount (field ''Mounts'' ms); cfg \<leftarrow> dec_ptr dec_Config (field ''config'' ms);
     fs \<leftarrow> dec_LLState (field ''fsstate'' ms); net \<leftarrow> dec_LLState (field ''netstate'' ms);
     ex \<leftarrow> dec_LLState (field ''ExecState'' ms);
     Some \<lparr>ic_Id = i, ic_BundlePath = b, ic_Root = root, ic_Args = args, ic_Cwd = cwd, ic_Env = envs,
       ic_TapName = tap, ic_NetnsPath = netns, ic_Hooks = hooks, ic_Memory = mem, ic_Mounts = mounts,
       ic_Config = cfg, ic_FsState = fs, ic_NetworkState = net, ic_ExecState = ex\<rparr>})"

definition bad_number :: "string \<Rightarrow> string \<Rightarrow> goerr" where
  "bad_number var v = Errorf (''unable to convert '' @ var @ ''='' @ v @ '' to int: '') (Msg ''strconv.Atoi'') ''''"

text \<open>\<open>json.NewDecoder(pipe).Decode(&config)\<close>: \<open>null\<close> leaves the pointer nil.\<close>

definition read_config :: "inherited \<Rightarrow> string \<Rightarrow> ('n world, initConfig option) io" where
  "read_config I envInitPipe = (case Atoi envInitPipe of
     None \<Rightarrow> fail (bad_number ''_LIBCONTAINER_INITPIPE'' envInitPipe)
   | Some pipefd \<Rightarrow> (case inherited_file I pipefd of
       None \<Rightarrow> fail (Errno EBADF)
     | Some f \<Rightarrow> syscall (OpReceive (nat pipefd)) (case Option.bind (parse_json (in_Read I f)) (dec_ptr dec_initConfig) of
         None \<Rightarrow> fail (Msg ''invalid init configuration'') | Some c \<Rightarrow> ret c)))"

definition read_rootfd :: "string \<Rightarrow> ('n world, int) io" where
  "read_rootfd envStateDir = (case Atoi envStateDir of
     None \<Rightarrow> fail (bad_number ''_LIBCONTAINER_STATEDIR'' envStateDir) | Some fd \<Rightarrow> ret fd)"

subsection \<open>Hooks\<close>

text \<open>\<open>exec.Cmd\<close> runs a command without arguments with its path as the only one.\<close>

definition hook_argv :: "Hook \<Rightarrow> string list" where
  "hook_argv h = (if hook_Args h = [] then [hook_Path h] else hook_Args h)"

definition hook_error :: "goerr \<Rightarrow> string \<Rightarrow> string \<Rightarrow> goerr" where
  "hook_error e out err = Errorf '''' e ('': stdout: '' @ out @ '', stderr: '' @ err)"

definition runHook :: "'n initlib \<Rightarrow> inherited \<Rightarrow> string \<Rightarrow> string \<Rightarrow> Hook \<Rightarrow> ('n world, unit) io" where
  "runHook N I cid bundlePath hook =
     (let stateJSON = il_StateJSON N (in_Pid I) bundlePath cid in
      seq (proc_Start (hook_Path hook) (hook_argv hook) '''') (\<lambda>pid.
      seq (child_Wait pid stateJSON) (\<lambda>w. case w of
        Exited _ _ None \<Rightarrow> ret ()
      | Exited out err (Some e) \<Rightarrow> fail (hook_error e out err)
      | TooLate \<Rightarrow> (case hook_Timeout hook of
          None \<Rightarrow> halt (Blocked ''hook'')
        | Some _ \<Rightarrow> seq (sys_Kill pid SIGKILL) (\<lambda>_. fail (Msg ''Hook timeout''))))))"

definition prestart_hooks :: "initConfig \<Rightarrow> Hook list" where
  "prestart_hooks c = (case ic_Hooks c of None \<Rightarrow> [] | Some h \<Rightarrow> hooks_Prestart h)"

definition run_prestart :: "'n initlib \<Rightarrow> inherited \<Rightarrow> initConfig \<Rightarrow> ('n world, unit) io" where
  "run_prestart N I c = for_each (prestart_hooks c) (\<lambda>hook.
     map_err (\<lambda>e. newSystemErrorWithCause e ''unable to run prestart hook'')
       (runHook N I (ic_Id c) (ic_BundlePath c) hook))"

subsection \<open>The init process\<close>

definition enter_netns :: "'n initlib \<Rightarrow> string \<Rightarrow> ('n world, unit) io" where
  "enter_netns N netnsPath =
     seq (if netnsPath \<noteq> '''' then
         map_err (\<lambda>e. newSystemErrorWithCause e ''unable to get netns handle'') (il_GetFromPath N netnsPath)
       else map_err (\<lambda>e. newSystemErrorWithCause e ''unable to create netns handle'') (il_New N)) (\<lambda>nsh.
     map_err (\<lambda>e. newSystemErrorWithCause e ''unable to get set netns'') (il_Set N nsh))"

text \<open>\<open>openat\<close>; the number -100 (\<open>AT_FDCWD\<close>) stands for the working directory.\<close>

definition openat_fifo :: "inherited \<Rightarrow> int \<Rightarrow> ('n world, path) io" where
  "openat_fifo I rootfd =
     (let open_in = (\<lambda>d. seq (fifo_OpenWrite (d @ [execFifoFilename])) (\<lambda>_. ret (d @ [execFifoFilename]))) in
      if rootfd = -100 then seq (gets (\<lambda>w. resolve (w_cwd w) ''.'')) open_in
      else (case inherited_file I rootfd of
        None \<Rightarrow> fail (Errno EBADF)
      | Some (StateDir d) \<Rightarrow> open_in d
      | Some _ \<Rightarrow> fail (Errno ENOTDIR)))"

definition wait_for_start :: "inherited \<Rightarrow> int \<Rightarrow> ('n world, unit) io" where
  "wait_for_start I rootfd =
     seq (map_err (\<lambda>e. newSystemErrorWithCause e ''openat exec fifo'') (openat_fifo I rootfd)) (\<lambda>q.
     map_err (\<lambda>e. newSystemErrorWithCause e ''write 0 exec fifo'') (fifo_Write q))"

text \<open>
  The input of the handlers: their root is the root file system, not the container's directory. A nil
  \<open>Config\<close> is the empty one for the handlers of files and network, whose run functions do not look at it.
\<close>

definition nil_Config :: Config where
  "nil_Config = \<lparr>cfg_Args = [], cfg_Rootfs = '''', cfg_Env = [], cfg_Cwd = '''', cfg_Version = '''', cfg_Labels = [],
     cfg_NetnsPath = '''', cfg_Hooks = None, cfg_Memory = 0, cfg_Mounts = []\<rparr>"

definition init_input :: "initConfig \<Rightarrow> LLState option \<Rightarrow> LLState option \<Rightarrow> GenericInput" where
  "init_input c fsState networkState = \<lparr>gi_ContainerId = ic_Id c, gi_ContainerRoot = ic_Root c,
     gi_Config = (case ic_Config c of None \<Rightarrow> nil_Config | Some cfg \<Rightarrow> cfg),
     gi_FsState = fsState, gi_NetworkState = networkState, gi_ExecState = Some (ic_ExecState c)\<rparr>"

definition run_exec :: "'n RunllcHandler \<Rightarrow> initConfig \<Rightarrow> LLState option \<Rightarrow> LLState option \<Rightarrow> ('n world, unit) io" where
  "run_exec H c fsState networkState =
     (if ic_Args c = [pauseNablaName] then halt (Blocked ''select'')
      else if ic_Config c = None then halt (Panic ''nil pointer dereference'')
      else ExecRunFunc (ExecH H) (init_input c fsState networkState))"

text \<open>What follows once the configuration is known.\<close>

definition run_init ::
  "'n initlib \<Rightarrow> inherited \<Rightarrow> 'n RunllcHandler \<Rightarrow> int \<Rightarrow> initConfig \<Rightarrow> ('n world, unit) io" where
  "run_init N I H rootfd c =
     seq (map_err (\<lambda>e. Errorf ''Error running llc Fs handler: '' e '''')
       (FsRunFunc (FsH H) (init_input c (Some (ic_FsState c)) (Some (ic_NetworkState c))))) (\<lambda>fsState.
     seq (enter_netns N (ic_NetnsPath c)) (\<lambda>_.
     seq (run_prestart N I c) (\<lambda>_.
     seq (map_err (\<lambda>e. Errorf ''Error running llc Network handler: '' e '''')
       (NetworkRunFunc (NetworkH H) (init_input c fsState (Some (ic_NetworkState c))))) (\<lambda>networkState.
     seq (wait_for_start I rootfd) (\<lambda>_.
     run_exec H c fsState networkState)))))"

definition initNabla :: "'n initlib \<Rightarrow> inherited \<Rightarrow> 'n RunllcHandler \<Rightarrow> ('n world, unit) io" where
  "initNabla N I H =
     seq (os_Getenv ''_LIBCONTAINER_INITPIPE'') (\<lambda>envInitPipe.
     seq (os_Getenv ''_LIBCONTAINER_STATEDIR'') (\<lambda>envStateDir.
     seq (read_config I envInitPipe) (\<lambda>config.
     seq (read_rootfd envStateDir) (\<lambda>rootfd.
     seq os_Clearenv (\<lambda>_.
     case config of
       None \<Rightarrow> halt (Panic ''nil pointer dereference'')
     | Some c \<Rightarrow> run_init N I H rootfd c)))))"

definition StartInitialization :: "'n initlib \<Rightarrow> inherited \<Rightarrow> 'n NablaFactory \<Rightarrow> ('n world, unit) io" where
  "StartInitialization N I l = initNabla N I (fac_LLCHandler l)"

definition init_action :: "'n initlib \<Rightarrow> inherited \<Rightarrow> 'n RunllcHandler \<Rightarrow> ('n world, unit) io" where
  "init_action N I H =
     try_io (New '''' H []) (\<lambda>_. halt (Panic ''nil pointer dereference'')) (\<lambda>l.
     try_io (StartInitialization N I l) (\<lambda>_. halt (Exit 1))
       (\<lambda>_. halt (Panic ''libcontainer: container init failed to exec'')))"

end
