(* ===== verification/InitFacts.thy ===== *)
theory InitFacts
  imports Init
begin

text \<open>
  What the init process receives is what \<open>start\<close> sent, and what it does before it becomes the unikernel.
\<close>

subsection \<open>The configuration arrives\<close>

definition initConfig_ok :: "initConfig \<Rightarrow> bool" where
  "initConfig_ok c \<longleftrightarrow> int64_ok (ic_Memory c) \<and> (case ic_Hooks c of None \<Rightarrow> True | Some h \<Rightarrow> Hooks_ok h)
     \<and> (case ic_Config c of None \<Rightarrow> True | Some cfg \<Rightarrow> Config_ok cfg)
     \<and> LLState_ok (ic_FsState c) \<and> LLState_ok (ic_NetworkState c) \<and> LLState_ok (ic_ExecState c)"

lemma dec_initConfig_enc: "initConfig_ok c \<Longrightarrow> dec_initConfig (enc_initConfig c) = Some c"
proof -
  assume ok: "initConfig_ok c"
  let ?xs = "[(''id'', Some (JStr (ic_Id c))), (''bundlepath'', Some (JStr (ic_BundlePath c))),
     (''root'', Some (JStr (ic_Root c))), (''args'', Some (j_strings (ic_Args c))), (''cwd'', Some (JStr (ic_Cwd c))),
     (''env'', Some (j_strings (ic_Env c))), (''tap'', Some (JStr (ic_TapName c))),
     (''netnspath'', Some (JStr (ic_NetnsPath c))), (''hooks'', Some (or_null (map_option enc_Hooks (ic_Hooks c)))),
     (''mem'', Some (j_int (ic_Memory c))), (''Mounts'', Some (JArr (map enc_Mount (ic_Mounts c)))),
     (''config'', Some (or_null (map_option enc_Config (ic_Config c)))), (''fsstate'', Some (enc_LLState (ic_FsState c))),
     (''netstate'', Some (enc_LLState (ic_NetworkState c))), (''ExecState'', Some (enc_LLState (ic_ExecState c)))]"
  have d: "distinct (map (fold_name \<circ> fst) ?xs)"
    by (simp add: fold_name_defs)
  have hooks: "dec_ptr dec_Hooks (or_null (map_option enc_Hooks (ic_Hooks c))) = Some (ic_Hooks c)"
    using ok by (intro dec_ptr_map) (auto simp: initConfig_ok_def dec_Hooks_enc)
  have cfg: "dec_ptr dec_Config (or_null (map_option enc_Config (ic_Config c))) = Some (ic_Config c)"
    using ok by (intro dec_ptr_map) (auto simp: initConfig_ok_def dec_Config_enc, simp add: enc_Config_def)
  have mounts: "those_of dec_Mount (map enc_Mount (ic_Mounts c)) = Some (ic_Mounts c)"
    by (rule those_of_map) simp
  show ?thesis
    using ok
    by (simp add: dec_initConfig_def enc_initConfig_def field_members [OF d] hooks cfg mounts initConfig_ok_def dec_LLState_enc)
qed

text \<open>The container's own configuration can be sent.\<close>

definition sendable :: "nablaContainer \<Rightarrow> bool" where
  "sendable c \<longleftrightarrow> Config_ok (nc_config c) \<and> LLState_ok (st_FsState (nc_state c))
     \<and> LLState_ok (st_NetworkState (nc_state c)) \<and> LLState_ok (st_ExecState (nc_state c))"

lemma sendable_ok: "sendable c \<Longrightarrow> initConfig_ok (init_config c)"
  by (auto simp: sendable_def initConfig_ok_def init_config_def Config_ok_def split: option.splits)

lemma sent_decodes:
  assumes "sendable c"
  shows "Option.bind (parse_json (print_json (enc_initConfig (init_config c)) @ [CHR 0x0A])) (dec_ptr dec_initConfig)
    = Some (Some (init_config c))"
proof -
  have "enc_initConfig (init_config c) \<noteq> JNull" by (simp add: enc_initConfig_def)
  moreover have "stops [CHR 0x0A]" by (simp add: stops_def number_char_def is_digit_def)
  ultimately show ?thesis
    using dec_initConfig_enc [OF sendable_ok [OF assms]] by (simp add: parse_print dec_ptr_def)
qed

lemma env_entry_fd:
  assumes "CHR ''='' \<notin> set name"
  shows "env_entry (fd_env name cmd) = (name, int_text (int (stdioFdCount + length (cmd_ExtraFiles cmd)) - 1))"
proof -
  have "\<forall>c\<in>set name. c \<noteq> CHR ''=''" using assms by auto
  then show ?thesis by (simp add: env_entry_def fd_env_def takeWhile_append2 dropWhile_append2)
qed

text \<open>
  \<open>inherits c p d I w\<close>: the process \<open>I\<close> with the variables of \<open>w\<close> is the one that \<open>start\<close> starts for the
  process \<open>p\<close> in the container \<open>c\<close>, whose directory is \<open>d\<close>.
\<close>

definition inherits :: "nablaContainer \<Rightarrow> Process \<Rightarrow> path \<Rightarrow> inherited \<Rightarrow> 'n world \<Rightarrow> bool" where
  "inherits c p d I w \<longleftrightarrow> (let cmd = add_state_dir d (commandTemplate c p) in
     in_Files I = cmd_ExtraFiles cmd \<and> e_vars (w_env w) = map env_entry (cmd_Env cmd)
     \<and> in_Read I InitPipeChild = print_json (enc_initConfig (init_config c)) @ [CHR 0x0A])"

definition cleared :: "'n world \<Rightarrow> 'n world" where
  "cleared w = w\<lparr>w_env := (w_env w)\<lparr>e_vars := []\<rparr>\<rparr>"

lemma init_reads:
  assumes "inherits c p d I w" and "sendable c" and "length (p_ExtraFiles p) < 2 ^ 31"
    and "\<forall>t fd. e_fault (w_env w) t (OpReceive fd) = None"
  shows "\<exists>fd. inherited_file I fd = Some (StateDir d) \<and>
    initNabla N I H w = run_init N I H fd (init_config c) (cleared (w\<lparr>w_tick := Suc (w_tick w)\<rparr>))"
proof -
  let ?n = "length (p_ExtraFiles p)"
  define pipe where "pipe = int ?n + 3"
  define root where "root = int ?n + 4"
  have files: "in_Files I = p_ExtraFiles p @ [InitPipeChild, StateDir d]"
    using assms(1) by (simp add: inherits_def add_state_dir_def commandTemplate_def Let_def)
  have vars: "e_vars (w_env w) = [(''_LIBCONTAINER_INITPIPE'', int_text pipe), (''_LIBCONTAINER_STATEDIR'', int_text root)]"
    using assms(1)
    by (simp add: inherits_def add_state_dir_def commandTemplate_def Let_def env_entry_fd stdioFdCount_def pipe_def root_def algebra_simps)
  have at: "inherited_file I pipe = Some InitPipeChild" "inherited_file I root = Some (StateDir d)"
    by (simp_all add: inherited_file_def files pipe_def root_def stdioFdCount_def nth_append nat_add_distrib)
  have nums: "Atoi (int_text pipe) = Some pipe" "Atoi (int_text root) = Some root"
    using assms(3) by (simp_all add: Atoi_int_text int64_ok_def pipe_def root_def)
  then have "read_config I (int_text pipe) w = (Ok (Some (init_config c)), w\<lparr>w_tick := Suc (w_tick w)\<rparr>)"
    using assms(1,4) sent_decodes [OF assms(2)] at
    by (simp add: read_config_def syscall_def inherits_def Let_def)
  then have "initNabla N I H w = run_init N I H root (init_config c) (cleared (w\<lparr>w_tick := Suc (w_tick w)\<rparr>))"
    using vars nums by (simp add: initNabla_def os_Getenv_def os_Clearenv_def cleared_def read_rootfd_def seq_def try_io_def)
  with at show ?thesis by blast
qed

subsection \<open>The order of the steps\<close>

text \<open>
  An init process that gets past its last step becomes the unikernel or, for a pause container, pauses;
  the calls before never do that.
\<close>

definition released :: "stop \<Rightarrow> bool" where
  "released x \<longleftrightarrow> (\<exists>p a e. x = Execed p a e) \<or> x = Blocked ''select''"

lemma released_simps [simp]:
  "released (Execed p a e)" "\<not> released (Panic s)" "\<not> released (Exit n)" "released (Blocked s) \<longleftrightarrow> s = ''select''"
  by (simp_all add: released_def)

definition never_execs :: "('s, 'a) io \<Rightarrow> bool" where
  "never_execs m \<longleftrightarrow> (\<forall>s x. fst (m s) = Stop x \<longrightarrow> \<not> released x)"

named_theorems nexec \<open>calls that never get past the last step\<close>

lemma never_execs_basic [nexec]:
  "never_execs (ret a)" "never_execs (fail e)" "never_execs (gets f)" "never_execs (modify g)"
  "never_execs (halt (Panic s))"
  by (simp_all add: never_execs_def released_def)

lemma never_execs_try_io [nexec]:
  "never_execs m \<Longrightarrow> (\<And>e. never_execs (h e)) \<Longrightarrow> (\<And>a. never_execs (k a)) \<Longrightarrow> never_execs (try_io m h k)"
  unfolding never_execs_def try_io_def by (auto split: prod.split res.split) (metis fst_conv)

lemma never_execs_seq [nexec]: "never_execs m \<Longrightarrow> (\<And>a. never_execs (k a)) \<Longrightarrow> never_execs (seq m k)"
  unfolding seq_def by (intro nexec)

lemma never_execs_map_err [nexec]: "never_execs m \<Longrightarrow> never_execs (map_err f m)"
  unfolding map_err_def by (intro nexec)

lemma never_execs_ignore [nexec]: "never_execs m \<Longrightarrow> never_execs (ignore m)"
  unfolding ignore_def by (intro nexec)

lemma never_execs_split [nexec]:
  "(\<And>a b. never_execs (f a b)) \<Longrightarrow> never_execs (case p of (a, b) \<Rightarrow> f a b)"
  "never_execs m \<Longrightarrow> never_execs n \<Longrightarrow> never_execs (if b then m else n)"
  by (cases p) simp_all

lemma never_execs_returns: "returns m \<Longrightarrow> never_execs m"
  by (simp add: never_execs_def returns_def)

text \<open>What the log has gained, when the call did not get past its last step.\<close>

definition extends :: "event list \<Rightarrow> event list set \<Rightarrow> 'n world \<Rightarrow> bool" where
  "extends l L w \<longleftrightarrow> (\<exists>evs\<in>L. w_log w = l @ evs)"

definition steps :: "event list \<Rightarrow> ('n world, 'a) io \<Rightarrow> event list set \<Rightarrow> bool" where
  "steps l m L \<longleftrightarrow> ensures (\<lambda>w. w_log w = l) m (\<lambda>_. extends l L) (\<lambda>_ _. True) (\<lambda>x _. \<not> released x)"

lemma steps_quiet: "preserves (\<lambda>w. w_log w = l) m \<Longrightarrow> never_execs m \<Longrightarrow> steps l m {[]}"
  unfolding steps_def
proof (rule ensuresI)
  fix w x w' assume "never_execs m" "m w = (Stop x, w')"
  then show "\<not> released x" unfolding never_execs_def by (metis fst_conv)
qed (auto simp: extends_def dest: preservesD)

lemma ensures_steps:
  assumes "steps l m L"
    and "\<And>a evs. evs \<in> L \<Longrightarrow> ensures (\<lambda>w. w_log w = l @ evs) (k a) Q (\<lambda>_ _. True) X"
    and "\<And>x w. \<not> released x \<Longrightarrow> X x w"
  shows "ensures (\<lambda>w. w_log w = l) (seq m k) Q (\<lambda>_ _. True) X"
proof (rule ensures_seq)
  show "ensures (\<lambda>w. w_log w = l) m (\<lambda>_. extends l L) (\<lambda>_ _. True) X"
    by (rule ensures_weaken [OF assms(1) [unfolded steps_def]]) (use assms(3) in auto)
  fix a show "ensures (extends l L) (k a) Q (\<lambda>_ _. True) X"
  proof (unfold ensures_def, intro allI impI)
    fix s :: "'a world"
    assume "extends l L s"
    then obtain evs where "evs \<in> L" "w_log s = l @ evs" by (auto simp: extends_def)
    then show "case k a s of (Ok a, s') \<Rightarrow> Q a s' | (Err e, s') \<Rightarrow> True | (Stop x, s') \<Rightarrow> X x s'"
      by (rule assms(2) [unfolded ensures_def, rule_format])
  qed
qed

lemma steps_seq:
  assumes "steps l m L" and "\<And>a evs. evs \<in> L \<Longrightarrow> steps (l @ evs) (k a) M"
  shows "steps l (seq m k) {x @ y | x y. x \<in> L \<and> y \<in> M}"
  unfolding steps_def
proof (rule ensures_steps [OF assms(1)])
  fix a evs assume evs: "evs \<in> L"
  show "ensures (\<lambda>w. w_log w = l @ evs) (k a) (\<lambda>_. extends l {x @ y | x y. x \<in> L \<and> y \<in> M}) (\<lambda>_ _. True)
      (\<lambda>x _. \<not> released x)"
    by (rule ensures_weaken [OF assms(2) [OF evs, unfolded steps_def]]) (use evs in \<open>auto simp: extends_def\<close>)
qed

lemma steps_map_err: "steps l m L \<Longrightarrow> steps l (map_err f m) L"
  unfolding steps_def map_err_def by (erule ensures_try_io) (simp_all add: ensures_def)

lemma steps_weaken: "steps l m L \<Longrightarrow> L \<subseteq> M \<Longrightarrow> steps l m M"
  unfolding steps_def by (erule ensures_weaken) (auto simp: extends_def)

subsection \<open>The steps of the init process\<close>

lemma spawn_logs:
  "ensures (\<lambda>w. w_log w = l) (proc_Start p a d) (\<lambda>pid w. w_log w = l @ [Started p a pid]) (\<lambda>_ _. True) (\<lambda>_ _. False)"
proof (rule ensuresI)
  fix w :: "'a world" and r w'
  assume l: "w_log w = l"
  { assume "proc_Start p a d w = (Ok r, w')"
    from proc_Start_cases [OF this] show "w_log w' = l @ [Started p a r]" by (simp add: l) }
  { fix x assume "proc_Start p a d w = (Stop x, w')"
    from proc_Start_cases [OF this] show False by simp }
qed simp

lemma wait_logs:
  "ensures (\<lambda>w. w_log w = l) (child_Wait pid j)
    (\<lambda>x w. case x of Exited _ _ _ \<Rightarrow> w_log w = l @ [Reaped pid] | TooLate \<Rightarrow> w_log w = l) (\<lambda>_ _. True) (\<lambda>_ _. False)"
  by (auto simp: ensures_def child_Wait_def split: child_end.split)

lemma ensures_fails:
  assumes "never_execs m" and "\<And>s a s'. m s \<noteq> (Ok a, s')"
  shows "ensures P m Q (\<lambda>_ _. True) (\<lambda>x _. \<not> released x)"
proof (rule ensuresI)
  fix s x s' assume "m s = (Stop x, s')"
  then show "\<not> released x" using assms(1) unfolding never_execs_def by (metis fst_conv)
qed (use assms(2) in auto)

lemma runHook_steps:
  "steps l (runHook N I cid b h) {[Started (hook_Path h) (hook_argv h) pid, Reaped pid] | pid. True}"
proof -
  let ?X = "\<lambda>x _. \<not> released x"
  let ?Q = "\<lambda>_. extends l {[Started (hook_Path h) (hook_argv h) pid, Reaped pid] | pid. True}"
  have late: "ensures P (seq (sys_Kill pid SIGKILL) (\<lambda>_. fail (Msg m))) ?Q (\<lambda>_ _. True) ?X" for P pid m
    by (rule ensures_fails) (auto simp: seq_Ok_iff intro!: never_execs_returns returns_seq returns_os returns_basic)
  have ended: "ensures (\<lambda>w. case x of Exited _ _ _ \<Rightarrow> w_log w = (l @ [Started (hook_Path h) (hook_argv h) pid]) @ [Reaped pid]
        | TooLate \<Rightarrow> w_log w = l @ [Started (hook_Path h) (hook_argv h) pid])
      (case x of
        Exited _ _ None \<Rightarrow> ret ()
      | Exited out err (Some e) \<Rightarrow> fail (hook_error e out err)
      | TooLate \<Rightarrow> (case hook_Timeout h of
          None \<Rightarrow> halt (Blocked ''hook'')
        | Some _ \<Rightarrow> seq (sys_Kill pid SIGKILL) (\<lambda>_. fail (Msg ''Hook timeout'')))) ?Q (\<lambda>_ _. True) ?X" for x pid
  proof (cases x)
    case (Exited out err e)
    then show ?thesis by (cases e) (auto simp: ensures_def extends_def)
  next
    case TooLate
    then show ?thesis using late by (cases "hook_Timeout h") (simp_all add: ensures_def [of _ "halt _"])
  qed
  show ?thesis
    unfolding steps_def runHook_def Let_def
    by (rule ensures_seq [OF ensures_weaken [OF spawn_logs] ensures_seq [OF ensures_weaken [OF wait_logs] ended]]) auto
qed

definition hook_events :: "(Hook \<times> int) list \<Rightarrow> event list" where
  "hook_events hs = concat (map (\<lambda>(h, pid). [Started (hook_Path h) (hook_argv h) pid, Reaped pid]) hs)"

lemma run_hooks_steps:
  "steps l (for_each hs (\<lambda>h. map_err (f h) (runHook N I cid b h))) {hook_events (zip hs pids) | pids. length pids = length hs}"
proof (induction hs arbitrary: l)
  case Nil
  then show ?case by (simp add: steps_def ensures_def extends_def hook_events_def)
next
  case (Cons h hs)
  let ?L = "{[Started (hook_Path h) (hook_argv h) pid, Reaped pid] | pid. True}"
  let ?M = "{hook_events (zip hs pids) | pids. length pids = length hs}"
  have "steps l (seq (map_err (f h) (runHook N I cid b h)) (\<lambda>_. for_each hs (\<lambda>h. map_err (f h) (runHook N I cid b h))))
      {x @ y | x y. x \<in> ?L \<and> y \<in> ?M}"
    by (rule steps_seq [OF steps_map_err [OF runHook_steps] Cons])
  moreover have "{x @ y | x y. x \<in> ?L \<and> y \<in> ?M} \<subseteq> {hook_events (zip (h # hs) pids) | pids. length pids = length (h # hs)}"
  proof
    fix z assume "z \<in> {x @ y | x y. x \<in> ?L \<and> y \<in> ?M}"
    then obtain pid pids where "length pids = length hs"
      "z = [Started (hook_Path h) (hook_argv h) pid, Reaped pid] @ hook_events (zip hs pids)" by auto
    then have "z = hook_events (zip (h # hs) (pid # pids)) \<and> length (pid # pids) = length (h # hs)"
      by (simp add: hook_events_def)
    then show "z \<in> {hook_events (zip (h # hs) pids) | pids. length pids = length (h # hs)}" by blast
  qed
  ultimately show ?case by (simp add: steps_weaken)
qed

text \<open>The packages' calls return, and look at nothing but the network.\<close>

definition netns_calls :: "'n initlib \<Rightarrow> bool" where
  "netns_calls N \<longleftrightarrow> (\<forall>p. returns (il_GetFromPath N p)) \<and> returns (il_New N) \<and> (\<forall>h. returns (il_Set N h))
     \<and> (\<forall>P. net_blind P \<longrightarrow> (\<forall>p. preserves P (il_GetFromPath N p)) \<and> preserves P (il_New N) \<and> (\<forall>h. preserves P (il_Set N h)))"

definition netlink_returns :: "'n netlink \<Rightarrow> bool" where
  "netlink_returns nl \<longleftrightarrow> (\<forall>n. returns (nl_LinkByName nl n)) \<and> (\<forall>l. returns (nl_AddrList nl l)) \<and> (\<forall>l. returns (nl_RouteList nl l))
     \<and> (\<forall>l. returns (nl_LinkAdd nl l)) \<and> (\<forall>l. returns (nl_LinkSetUp nl l)) \<and> (\<forall>l a. returns (nl_AddrDel nl l a))
     \<and> (\<forall>l a. returns (nl_LinkSetHardwareAddr nl l a)) \<and> (\<forall>l m. returns (nl_LinkSetMaster nl l m))"

lemma enter_netns_steps:
  assumes "netns_calls N"
  shows "steps l (enter_netns N p) {[]}"
proof (rule steps_quiet)
  have "net_blind (\<lambda>w. w_log w = l)" by (simp add: net_blind_def)
  then show "preserves (\<lambda>w. w_log w = l) (enter_netns N p)"
    using assms unfolding enter_netns_def netns_calls_def by (intro pres) auto
  show "never_execs (enter_netns N p)"
    using assms unfolding enter_netns_def netns_calls_def by (intro nexec) (auto intro: never_execs_returns)
qed

lemma wait_steps:
  assumes "inherited_file I fd = Some (StateDir d)"
  shows "steps l (wait_for_start I fd) {[FifoOpened (d @ [execFifoFilename])]}"
proof -
  let ?q = "d @ [execFifoFilename]"
  have "fd \<noteq> -100" using assms by (auto simp: inherited_file_def)
  then have open_in: "openat_fifo I fd = seq (fifo_OpenWrite ?q) (\<lambda>_. ret ?q)"
    using assms by (simp add: openat_fifo_def Let_def)
  have opened: "steps l (fifo_OpenWrite ?q) {[FifoOpened ?q]}"
    unfolding steps_def
    by (rule ensuresI) (auto simp: fifo_OpenWrite_def syscall_def lookup_or_err_def seq_def try_io_def Let_def extends_def
        split: option.splits if_splits)
  have quiet: "steps k (ret a) {[]}" "steps k (fifo_Write q) {[]}" for k a q
    by (simp_all add: steps_def ensures_def extends_def fifo_Write_def syscall_def Let_def split: option.split)
  have "steps l (wait_for_start I fd) {x @ y | x y. x \<in> {x @ y | x y. x \<in> {[FifoOpened ?q]} \<and> y \<in> {[]}} \<and> y \<in> {[]}}"
    unfolding wait_for_start_def open_in
    by (intro steps_seq steps_map_err opened quiet)
  then show ?thesis by (rule steps_weaken) auto
qed

subsection \<open>Becoming the unikernel\<close>

lemma returns_entries [rets]: "returns (os_Mkdir p m)" "returns (sys_Mknod p m a b)"
  unfolding os_Mkdir_def sys_Mknod_def
  by (intro returns_at_path returns_syscall; simp add: returns_def create_entry_def)+

lemma tapBr_run_never_execs:
  assumes "netlink_returns nl"
  shows "never_execs (tapBr_RunFunc nl i)"
proof -
  have verify: "never_execs verifyTunDevice"
    unfolding verifyTunDevice_def by (intro nexec never_execs_returns returns_os)
  have tun: "never_execs SetupTunDev"
    unfolding SetupTunDev_def createTunDevice_def
    by (intro nexec verify never_execs_returns returns_os returns_entries)
  have links: "never_execs (net_op (nl_LinkByName nl n))" "never_execs (net_op (nl_AddrList nl k))"
    "never_execs (net_op (nl_RouteList nl k))" "never_execs (net_op (nl_LinkAdd nl k))"
    "never_execs (net_op (nl_LinkSetUp nl k))" "never_execs (net_op (nl_AddrDel nl k a))"
    "never_execs (net_op (nl_LinkSetHardwareAddr nl k h))" "never_execs (net_op (nl_LinkSetMaster nl k m))" for n k a h m
    using assms unfolding netlink_returns_def by (auto intro!: never_execs_returns returns_net_op)
  have first: "never_execs (first_addr as)" "never_execs (first_route rs)" for as rs
    by (auto simp: never_execs_def first_addr_def first_route_def split: list.split)
  have names: "never_execs (stored_tap i)" "never_execs (nablaTapName c)" for c
    by (auto simp: never_execs_def stored_tap_def nablaTapName_def split: option.split)
  show ?thesis
    unfolding tapBr_RunFunc_def CreateTapInterfaceDocker_def getMasterDetails_def CreateBridge_def
    by (intro nexec names links first tun)
qed

text \<open>The logs of an init process that has run its hooks, set up the network and been started.\<close>

definition init_logs :: "initConfig \<Rightarrow> path \<Rightarrow> event list set" where
  "init_logs c d = {hook_events (zip (prestart_hooks c) pids) @ [FifoOpened (d @ [execFifoFilename])] | pids.
     length pids = length (prestart_hooks c)}"

lemma exec_logs:
  "ensures (\<lambda>w. w_log w = l) (run_exec (nablaLLCHandler nl) c f n) (\<lambda>_ _. True) (\<lambda>_ _. True)
    (\<lambda>x w. released x \<longrightarrow> w_log w = l)"
proof (rule ensures_weaken [OF ensures_preserved])
  show "preserves (\<lambda>w. w_log w = l) (run_exec (nablaLLCHandler nl) c f n)"
    unfolding run_exec_def by (intro preserves_if preserves_halt runnc.exec.exec_run_log)
qed auto

lemma run_init_order:
  assumes "inherited_file I fd = Some (StateDir d)" and "netns_calls N" and "netlink_returns nl"
  shows "ensures (\<lambda>w. w_log w = l) (run_init N I (nablaLLCHandler nl) fd c) (\<lambda>_ _. True) (\<lambda>_ _. True)
    (\<lambda>x w. released x \<longrightarrow> extends l (init_logs c d) w)"
proof -
  let ?H = "nablaLLCHandler nl"
  let ?X = "\<lambda>x w. released x \<longrightarrow> extends l (init_logs c d) w"
  have fs: "steps k (map_err f (FsRunFunc (FsH ?H) i)) {[]}" for k f i
    by (intro steps_map_err steps_quiet)
      (simp_all add: nablaLLCHandler_def iSOFsHandler_def iso_FsRunFunc_def preserves_ret never_execs_basic)
  have net: "steps k (map_err f (NetworkRunFunc (NetworkH ?H) i)) {[]}" for k f i
  proof (intro steps_map_err steps_quiet runnc.net.net_blind_keep)
    show "net_blind (\<lambda>w. w_log w = k)" by (simp add: net_blind_def)
    show "never_execs (NetworkRunFunc (NetworkH ?H) i)"
      using tapBr_run_never_execs [OF assms(3)] by (simp add: nablaLLCHandler_def tapBrNetworkHandler_def)
  qed
  have hooks: "steps k (run_prestart N I c) {hook_events (zip (prestart_hooks c) pids) | pids. length pids = length (prestart_hooks c)}" for k
    unfolding run_prestart_def by (rule run_hooks_steps)
  have run: "ensures (\<lambda>w. w_log w = l @ evs) (run_exec ?H c f n) (\<lambda>_ _. True) (\<lambda>_ _. True) ?X"
    if "evs \<in> init_logs c d" for evs f n
    by (rule ensures_weaken [OF exec_logs]) (use that in \<open>auto simp: extends_def\<close>)
  show ?thesis
    unfolding run_init_def
  proof (rule ensures_steps [OF fs], rule ensures_steps [OF enter_netns_steps [OF assms(2)]], rule ensures_steps [OF hooks],
      rule ensures_steps [OF net], rule ensures_steps [OF wait_steps [OF assms(1)]])
    fix a1 e1 a2 e2 a3 e3 a4 e4 a5 e5
    assume "e1 \<in> {[] :: event list}" "e2 \<in> {[] :: event list}" "e4 \<in> {[] :: event list}"
      "e3 \<in> {hook_events (zip (prestart_hooks c) pids) | pids. length pids = length (prestart_hooks c)}"
      "e5 \<in> {[FifoOpened (d @ [execFifoFilename])]}"
    then have "e1 @ e2 @ e3 @ e4 @ e5 \<in> init_logs c d" by (auto simp: init_logs_def)
    from run [OF this]
    show "ensures (\<lambda>w. w_log w = ((((l @ e1) @ e2) @ e3) @ e4) @ e5) (run_exec ?H c a1 a4) (\<lambda>_ _. True) (\<lambda>_ _. True) ?X"
      by (simp only: append_assoc)
  qed auto
qed

end
