(* ===== verification/Terminal.thy ===== *)
theory Terminal
  imports ContainerFacts
begin

text \<open>
  The standard files of a container's process: the pipes of \<open>libcontainer/process_nabla.go\<close>, the
  pseudoterminals of \<open>console_nabla.go\<close> and the \<open>tty\<close> of \<open>llcli/util_tty.go\<close>. The goroutines that copy
  bytes between the caller's files and the pipes, for which \<open>Close\<close> waits, are in \<open>Streams\<close>; docker's
  \<open>term\<close> package is the record \<open>termlib\<close>.
\<close>

subsection \<open>Pipes\<close>

record IO =
  io_Stdin :: nat
  io_Stdout :: nat
  io_Stderr :: nat

definition close_all :: "nat list \<Rightarrow> ('n world, unit) io" where
  "close_all fds = for_each fds sys_Close"

text \<open>The deferred cleanup of \<open>InitializeIO\<close>, at a point where \<open>fds\<close> have been opened.\<close>

definition cleaning :: "nat list \<Rightarrow> ('n world, 'a) io \<Rightarrow> ('n world, 'a) io" where
  "cleaning fds m = try_io m (\<lambda>e. seq (close_all fds) (\<lambda>_. fail e)) ret"

definition InitializeIO :: "Process \<Rightarrow> int \<Rightarrow> int \<Rightarrow> ('n world, Process \<times> IO) io" where
  "InitializeIO p rootuid rootgid =
     seq os_Pipe (\<lambda>(r0, w0).
     seq (cleaning [r0, w0] os_Pipe) (\<lambda>(r1, w1).
     seq (cleaning [r0, w0, r1, w1] os_Pipe) (\<lambda>(r2, w2).
     let fds = [r0, w0, r1, w1, r2, w2] in
     seq (cleaning fds (for_each fds (\<lambda>fd. sys_Fchown fd rootuid rootgid))) (\<lambda>_.
     ret (p\<lparr>p_Stdin := Some (PipeEnd r0), p_Stdout := Some (PipeEnd w1), p_Stderr := Some (PipeEnd w2)\<rparr>,
       \<lparr>io_Stdin = w0, io_Stdout = r1, io_Stderr = r2\<rparr>)))))"

subsection \<open>Consoles\<close>

record Console =
  con_master :: "nat option"
  con_slavePath :: string

definition TIOCSPTLCK :: nat where "TIOCSPTLCK = 0x40045431"
definition TIOCGPTN :: nat where "TIOCGPTN = 0x80045430"

definition ptsname :: "nat \<Rightarrow> ('n world, string) io" where
  "ptsname master = seq (sys_Ioctl TIOCGPTN) (\<lambda>_.
     gets (\<lambda>w. ''/dev/pts/'' @ nat_text (e_pts (w_env w) (w_tick w))))"

definition unlockpt :: "nat \<Rightarrow> ('n world, unit) io" where
  "unlockpt master = sys_Ioctl TIOCSPTLCK"

definition NewConsole :: "int \<Rightarrow> int \<Rightarrow> ('n world, Console) io" where
  "NewConsole uid gid =
     seq (open_device ''/dev/ptmx'') (\<lambda>master.
     seq (ptsname master) (\<lambda>console.
     seq (unlockpt master) (\<lambda>_.
     seq (os_Chmod console (octal3 6 0 0)) (\<lambda>_.
     seq (os_Chown console uid gid) (\<lambda>_.
     ret \<lparr>con_master = Some master, con_slavePath = console\<rparr>)))))"

definition newConsoleFromPath :: "string \<Rightarrow> Console" where
  "newConsoleFromPath slavePath = \<lparr>con_master = None, con_slavePath = slavePath\<rparr>"

definition Console_Close :: "Console \<Rightarrow> ('n world, unit) io" where
  "Console_Close c = (case con_master c of None \<Rightarrow> ret () | Some m \<Rightarrow> sys_Close m)"

text \<open>The descriptor of a nil file is the largest \<open>uintptr\<close>.\<close>

definition console_Fd :: "Console \<Rightarrow> nat" where
  "console_Fd c = (case con_master c of None \<Rightarrow> 2 ^ 64 - 1 | Some m \<Rightarrow> m)"

definition console_Path :: "Console \<Rightarrow> string" where
  "console_Path c = con_slavePath c"

text \<open>
  \<open>mount\<close>, with the umask cleared and then restored; runc's \<open>label.SetFileLabel\<close> is an argument. Whether
  the file could be created matters only when it was not there.
\<close>

definition console_mount ::
  "(string \<Rightarrow> string \<Rightarrow> ('n world, unit) io) \<Rightarrow> Console \<Rightarrow> string \<Rightarrow> string \<Rightarrow> ('n world, unit) io" where
  "console_mount SetFileLabel c rootfs mountLabel =
     seq (sys_Umask 0) (\<lambda>oldMask.
     deferred (seq (sys_Umask oldMask) (\<lambda>_. ret ())) (
       seq (SetFileLabel (con_slavePath c) mountLabel) (\<lambda>_.
       let dest = Join [rootfs, ''/dev/console''] in
       seq (try_io (os_Create dest) (\<lambda>e. if \<not> IsExist e then fail e else ret ())
         (\<lambda>f. ignore (file_Close f))) (\<lambda>_.
       sys_BindMount (con_slavePath c) dest))))"

definition console_open :: "Console \<Rightarrow> ('n world, nat) io" where
  "console_open c = open_device (con_slavePath c)"

definition console_dupStdio :: "Console \<Rightarrow> ('n world, unit) io" where
  "console_dupStdio c = seq (console_open c) (\<lambda>fd. for_each [0, 1, 2] (sys_Dup3 fd))"

definition Process_NewConsole :: "Process \<Rightarrow> int \<Rightarrow> int \<Rightarrow> ('n world, Process \<times> Console) io" where
  "Process_NewConsole p rootuid rootgid =
     seq (NewConsole rootuid rootgid) (\<lambda>console. ret (p\<lparr>p_consolePath := console_Path console\<rparr>, console))"

definition ConsoleFromPath :: "Process \<Rightarrow> string \<Rightarrow> Process res" where
  "ConsoleFromPath p path =
     (if p_consolePath p \<noteq> '''' then Err (Msg ''console path already exists for process'')
      else Ok (p\<lparr>p_consolePath := path\<rparr>))"

subsection \<open>The terminal of the command\<close>

record 'n termlib =
  tm_SetRawTerminal :: "nat \<Rightarrow> ('n world, nat) io"
  tm_RestoreTerminal :: "nat \<Rightarrow> nat \<Rightarrow> ('n world, unit) io"
  tm_GetWinsize :: "nat \<Rightarrow> ('n world, nat \<times> nat) io"
  tm_SetWinsize :: "nat \<Rightarrow> nat \<times> nat \<Rightarrow> ('n world, unit) io"

record tty =
  tty_console :: "Console option"
  tty_state :: "nat option"
  tty_closers :: "nat list"
  tty_postStart :: "nat list"

definition no_tty :: tty where
  "no_tty = \<lparr>tty_console = None, tty_state = None, tty_closers = [], tty_postStart = []\<rparr>"

definition pipe_ends :: "osfile option list \<Rightarrow> nat list" where
  "pipe_ends fs = List.map_filter (\<lambda>f. case f of Some (PipeEnd n) \<Rightarrow> Some n | _ \<Rightarrow> None) fs"

definition createStdioPipes :: "Process \<Rightarrow> int \<Rightarrow> int \<Rightarrow> ('n world, Process \<times> tty) io" where
  "createStdioPipes p rootuid rootgid =
     seq (InitializeIO p rootuid rootgid) (\<lambda>(p', i).
     ret (p', no_tty\<lparr>tty_closers := [io_Stdin i, io_Stdout i, io_Stderr i],
       tty_postStart := pipe_ends [p_Stdin p', p_Stdout p', p_Stderr p']\<rparr>))"


definition createTty :: "'n termlib \<Rightarrow> Process \<Rightarrow> int \<Rightarrow> int \<Rightarrow> string \<Rightarrow> ('n world, Process \<times> tty) io" where
  "createTty T p rootuid rootgid consolePath =
     (if consolePath \<noteq> '''' then
        (case ConsoleFromPath p consolePath of
           Err e \<Rightarrow> fail e | Stop x \<Rightarrow> halt x | Ok p' \<Rightarrow> ret (p', no_tty))
      else seq (Process_NewConsole p rootuid rootgid) (\<lambda>(p', console).
        seq (map_err (\<lambda>e. Errorf ''failed to set the terminal from the stdin: '' e '''')
          (tm_SetRawTerminal T 0)) (\<lambda>st.
        ret (p', no_tty\<lparr>tty_console := Some console, tty_state := Some st, tty_closers := [console_Fd console]\<rparr>))))"

definition tty_ClosePostStart :: "tty \<Rightarrow> ('n world, unit) io" where
  "tty_ClosePostStart t = close_all (tty_postStart t)"

definition tty_Close :: "'n termlib \<Rightarrow> tty \<Rightarrow> ('n world, unit) io" where
  "tty_Close T t =
     seq (close_all (tty_postStart t)) (\<lambda>_.
     seq (close_all (tty_closers t)) (\<lambda>_.
     case tty_state t of None \<Rightarrow> ret () | Some st \<Rightarrow> ignore (tm_RestoreTerminal T 0 st)))"

definition tty_resize :: "'n termlib \<Rightarrow> tty \<Rightarrow> ('n world, unit) io" where
  "tty_resize T t = (case tty_console t of None \<Rightarrow> ret () | Some console \<Rightarrow>
     seq (tm_GetWinsize T 0) (\<lambda>ws. tm_SetWinsize T (console_Fd console) ws))"

subsection \<open>No descriptor is lost\<close>

lemma fresh_fd_above: "f \<in> set fds \<Longrightarrow> f < fresh_fd fds"
proof -
  have "fold max fds 2 = Max (set (2 # fds))" by (rule Max.set_eq_fold [symmetric])
  then show "f \<in> set fds \<Longrightarrow> f < fresh_fd fds"
    using Max_ge [of "set (2 # fds)" f] by (simp add: fresh_fd_def less_Suc_eq_le)
qed

lemma close_all_run: "close_all fds w = (Ok (), w\<lparr>w_fds := filter (\<lambda>f. f \<notin> set fds) (w_fds w)\<rparr>)"
  unfolding close_all_def
  by (induction fds arbitrary: w) (simp_all add: sys_Close_def seq_def try_io_def conj_commute)

text \<open>The machine as it was in \<open>w\<close>, but for the clock and the new descriptors \<open>new\<close>.\<close>

definition opened :: "'n world \<Rightarrow> nat list \<Rightarrow> 'n world \<Rightarrow> bool" where
  "opened w new v \<longleftrightarrow> v\<lparr>w_tick := w_tick w\<rparr> = w\<lparr>w_fds := w_fds w @ new\<rparr> \<and> distinct new
     \<and> set new \<inter> set (w_fds w) = {}"

lemma opened_tick [simp]: "opened w new (v\<lparr>w_tick := t\<rparr>) = opened w new v"
  by (simp add: opened_def)

lemma opened_fds: "opened w new v \<Longrightarrow> w_fds v = w_fds w @ new"
  unfolding opened_def by (metis world.select_convs(7) world.surjective world.update_convs(2,7))

lemma opened_more:
  assumes "opened w new v" and "distinct new'" and "set new' \<inter> set (w_fds w) = {}"
  shows "opened w new' (v\<lparr>w_fds := w_fds w @ new'\<rparr>)"
proof -
  have "v\<lparr>w_fds := w_fds w @ new', w_tick := w_tick w\<rparr> = (v\<lparr>w_tick := w_tick w\<rparr>)\<lparr>w_fds := w_fds w @ new'\<rparr>"
    by simp
  also have "\<dots> = w\<lparr>w_fds := w_fds w @ new'\<rparr>" using assms(1) by (simp add: opened_def)
  finally show ?thesis using assms(2,3) by (simp add: opened_def)
qed

lemma opened_pipe:
  "ensures (opened w new) os_Pipe (\<lambda>(r, s). opened w (new @ [r, s])) (\<lambda>_. opened w new) (\<lambda>_ _. False)"
proof (unfold ensures_def, intro allI impI)
  fix v assume v: "opened w new v"
  let ?a = "fresh_fd (w_fds v)"
  have "?a \<notin> set (w_fds v)" "Suc ?a \<notin> set (w_fds v)"
    using fresh_fd_above [of _ "w_fds v"] by fastforce+
  moreover have "opened w new (v\<lparr>w_tick := Suc (w_tick v)\<rparr>)" using v by simp
  ultimately have "opened w (new @ [?a, Suc ?a]) (v\<lparr>w_tick := Suc (w_tick v), w_fds := w_fds v @ [?a, Suc ?a]\<rparr>)"
    using opened_more [of w new "v\<lparr>w_tick := Suc (w_tick v)\<rparr>" "new @ [?a, Suc ?a]"]
    unfolding opened_fds [OF v] by (auto simp: opened_def)
  with v show "case os_Pipe v of (Ok a, s') \<Rightarrow> (case a of (r, s) \<Rightarrow> opened w (new @ [r, s])) s'
      | (Err e, s') \<Rightarrow> opened w new s' | (Stop x, s') \<Rightarrow> False"
    by (simp add: os_Pipe_def syscall_def Let_def split: option.split)
qed

lemma opened_chown:
  "ensures (opened w new) (sys_Fchown fd u g) (\<lambda>_. opened w new) (\<lambda>_. opened w new) (\<lambda>_ _. False)"
  by (auto simp: ensures_def sys_Fchown_def syscall_def Let_def split: option.split)

lemma opened_chown_all:
  "ensures (opened w new) (for_each fds (\<lambda>fd. sys_Fchown fd u g)) (\<lambda>_. opened w new) (\<lambda>_. opened w new) (\<lambda>_ _. False)"
proof (induction fds)
  case (Cons fd fds)
  then show ?case unfolding for_each.simps by (intro ensures_seq [OF opened_chown])
qed (simp add: ensures_def)

lemma opened_cleaning:
  assumes "ensures (opened w new) m Q (\<lambda>_. opened w new) (\<lambda>_ _. False)"
  shows "ensures (opened w new) (cleaning new m) Q (\<lambda>_. opened w []) (\<lambda>_ _. False)"
  unfolding cleaning_def
proof (rule ensures_try_io [OF assms])
  fix e show "ensures (opened w new) (seq (close_all new) (\<lambda>_. fail e)) Q (\<lambda>_. opened w []) (\<lambda>_ _. False)"
  proof (unfold ensures_def, intro allI impI)
    fix v assume v: "opened w new v"
    have "filter (\<lambda>f. f \<notin> set new) (w_fds w @ new) = w_fds w"
      using v by (auto simp: opened_def filter_id_conv filter_empty_conv)
    then have "opened w [] (v\<lparr>w_fds := filter (\<lambda>f. f \<notin> set new) (w_fds v)\<rparr>)"
      using opened_more [OF v, of "[]"] by (simp add: opened_fds [OF v])
    then show "case seq (close_all new) (\<lambda>_. fail e) v of
        (Ok a, s') \<Rightarrow> Q a s' | (Err e, s') \<Rightarrow> opened w [] s' | (Stop x, s') \<Rightarrow> False"
      by (simp add: close_all_run seq_def try_io_def)
  qed
qed (simp add: ensures_def)

text \<open>
  Opening the pipes of a process either fails and leaves the open descriptors as they were, or opens
  six new ones, three for the process and three for the caller.
\<close>

definition piped :: "'n world \<Rightarrow> Process \<Rightarrow> Process \<times> IO \<Rightarrow> 'n world \<Rightarrow> bool" where
  "piped w p r v \<longleftrightarrow> (\<exists>a b c d e f. opened w [a, b, c, d, e, f] v \<and>
     r = (p\<lparr>p_Stdin := Some (PipeEnd a), p_Stdout := Some (PipeEnd d), p_Stderr := Some (PipeEnd f)\<rparr>,
       \<lparr>io_Stdin = b, io_Stdout = c, io_Stderr = e\<rparr>))"

lemma InitializeIO_cases:
  "ensures (opened w []) (InitializeIO p u g) (piped w p) (\<lambda>_. opened w []) (\<lambda>_ _. False)"
proof -
  have final: "ensures (opened w [a, b, c, d, e, f]) (seq (cleaning [a, b, c, d, e, f]
       (for_each [a, b, c, d, e, f] (\<lambda>fd. sys_Fchown fd u g))) (\<lambda>_.
     ret (p\<lparr>p_Stdin := Some (PipeEnd a), p_Stdout := Some (PipeEnd d), p_Stderr := Some (PipeEnd f)\<rparr>,
       \<lparr>io_Stdin = b, io_Stdout = c, io_Stderr = e\<rparr>)))
     (piped w p) (\<lambda>_. opened w []) (\<lambda>_ _. False)" for a b c d e f
    by (rule ensures_seq [OF opened_cleaning [OF opened_chown_all]]) (auto simp: ensures_def piped_def)
  have step: "ensures (opened w new) (seq (cleaning new os_Pipe) (\<lambda>(r, s). k r s)) (piped w p) (\<lambda>_. opened w []) (\<lambda>_ _. False)"
    if "\<And>r s. ensures (opened w (new @ [r, s])) (k r s) (piped w p) (\<lambda>_. opened w []) (\<lambda>_ _. False)"
    for new and k :: "nat \<Rightarrow> nat \<Rightarrow> ('a world, Process \<times> IO) io"
    by (rule ensures_seq [OF opened_cleaning [OF opened_pipe]]) (use that in \<open>auto split: prod.split\<close>)
  have first: "ensures (opened w []) (seq os_Pipe (\<lambda>(r, s). k r s)) (piped w p) (\<lambda>_. opened w []) (\<lambda>_ _. False)"
    if "\<And>r s. ensures (opened w [r, s]) (k r s) (piped w p) (\<lambda>_. opened w []) (\<lambda>_ _. False)"
    for k :: "nat \<Rightarrow> nat \<Rightarrow> ('a world, Process \<times> IO) io"
    by (rule ensures_seq [OF opened_pipe]) (use that in \<open>auto split: prod.split\<close>)
  show ?thesis
    unfolding InitializeIO_def Let_def
    by (rule first, rule step, simp only: append_Cons append_Nil, rule step, simp only: append_Cons append_Nil, rule final)
qed

end
