(* ===== verification/Signals.thy ===== *)
theory Signals
  imports Terminal Commands
begin

text \<open>
  \<open>llcli/util_signal.go\<close>: the loop that forwards signals to the container's process, resizes its
  terminal and reaps children until that process ends. The signals the channel delivers are a list;
  with each comes the children that ended since the one before. The channel is never closed, so at
  the end of the list the loop waits for ever. What is logged is left out.
\<close>

subsection \<open>Definitions\<close>

definition SIGCHLD :: int where "SIGCHLD = 17"
definition SIGWINCH :: int where "SIGWINCH = 28"

lemma signals_distinct [simp]: "SIGCHLD \<noteq> SIGWINCH" "SIGWINCH \<noteq> SIGCHLD"
  by (simp_all add: SIGCHLD_def SIGWINCH_def)

text \<open>The handler keeps the terminal; its channel is the list of signals given to \<open>forward\<close>.\<close>

definition newSignalHandler :: "'n runclib \<Rightarrow> tty \<Rightarrow> bool \<Rightarrow> ('n world, tty) io" where
  "newSignalHandler R t enableSubreaper =
     seq (if enableSubreaper then ignore (rl_SetSubreaper R) else ret ()) (\<lambda>_. ret t)"

lemma sys_Wait4_shorter:
  "sys_Wait4 w = (Ok c, w') \<Longrightarrow> \<not> fst c \<le> 0 \<Longrightarrow> length (w_children w') < length (w_children w)"
  by (auto simp: sys_Wait4_def syscall_def Let_def split: option.splits list.splits if_splits)

text \<open>\<open>reap\<close>: every turn takes a child off the list of those that ended.\<close>

function reap_from :: "'n runclib \<Rightarrow> (int \<times> int) list \<Rightarrow> 'n world \<Rightarrow> (int \<times> int) list res \<times> 'n world" where
  "reap_from R exits w = (case sys_Wait4 w of
     (Ok c, w') \<Rightarrow> if fst c \<le> 0 then (Ok exits, w')
       else reap_from R (exits @ [(fst c, rl_ExitStatus R (snd c))]) w'
   | (Err e, w') \<Rightarrow> if e = Errno ECHILD then (Ok exits, w') else (Err e, w')
   | (Stop x, w') \<Rightarrow> (Stop x, w'))"
  by pat_completeness auto
termination
  by (relation "measure (\<lambda>(R, exits, w). length (w_children w))") (auto intro: sys_Wait4_shorter [OF sym])

declare reap_from.simps [simp del]

definition reap :: "'n runclib \<Rightarrow> ('n world, (int \<times> int) list) io" where
  "reap R = reap_from R []"

text \<open>Between two signals children end.\<close>

definition children_end :: "(int \<times> int) list \<Rightarrow> ('n world, unit) io" where
  "children_end cs = modify (\<lambda>w. w\<lparr>w_children := w_children w @ cs\<rparr>)"

type_synonym schedule = "(int \<times> (int \<times> int) list) list"

fun forward_loop ::
  "'n runclib \<Rightarrow> 'n termlib \<Rightarrow> tty \<Rightarrow> Process \<Rightarrow> int \<Rightarrow> schedule \<Rightarrow> ('n world, int) io" where
  "forward_loop R T t p pid1 [] = halt (Blocked ''signals'')"
| "forward_loop R T t p pid1 ((s, ended) # signals) =
     seq (children_end ended) (\<lambda>_.
     if s = SIGWINCH then
       seq (ignore (tty_resize T t)) (\<lambda>_. forward_loop R T t p pid1 signals)
     else if s = SIGCHLD then
       seq (try_io (reap R) (\<lambda>_. ret []) ret) (\<lambda>exits.
       case find (\<lambda>e. fst e = pid1) exits of
         Some e \<Rightarrow> seq (ignore (Process_Wait p)) (\<lambda>_. ret (snd e))
       | None \<Rightarrow> forward_loop R T t p pid1 signals)
     else seq (ignore (sys_Kill pid1 s)) (\<lambda>_. forward_loop R T t p pid1 signals))"

definition forward :: "'n runclib \<Rightarrow> 'n termlib \<Rightarrow> tty \<Rightarrow> schedule \<Rightarrow> Process \<Rightarrow> ('n world, int) io" where
  "forward R T t signals p = (case Process_Pid p of
     (_, Some e) \<Rightarrow> fail e
   | (pid1, None) \<Rightarrow> seq (ignore (tty_resize T t)) (\<lambda>_. forward_loop R T t p pid1 signals))"

subsection \<open>Reaping\<close>

definition waits_answered :: "'n world \<Rightarrow> bool" where
  "waits_answered w \<longleftrightarrow> (\<forall>t. e_fault (w_env w) t OpWait = None)"

definition pids_positive :: "(int \<times> int) list \<Rightarrow> bool" where
  "pids_positive cs \<longleftrightarrow> (\<forall>c\<in>set cs. 0 < fst c)"

definition exit_of :: "'n runclib \<Rightarrow> int \<times> int \<Rightarrow> int \<times> int" where
  "exit_of R c = (fst c, rl_ExitStatus R (snd c))"

text \<open>What \<open>reap\<close> returns are children that had ended.\<close>

lemma reap_from_sound:
  assumes "reap_from R exits w = (r, w')"
  shows "w_env w' = w_env w \<and> set (w_children w') \<subseteq> set (w_children w)
    \<and> (\<forall>es. r = Ok es \<longrightarrow> set es \<subseteq> set exits \<union> exit_of R ` set (w_children w))"
  using assms
proof (induction R exits w arbitrary: r w' rule: reap_from.induct)
  case (1 R exits w)
  obtain x v where wait: "sys_Wait4 w = (x, v)" by (meson surj_pair)
  then have v: "w_env v = w_env w" "set (w_children v) \<subseteq> set (w_children w)"
    "\<And>c. x = Ok c \<Longrightarrow> \<not> fst c \<le> 0 \<Longrightarrow> c \<in> set (w_children w)"
    by (auto simp: sys_Wait4_def syscall_def Let_def split: option.splits list.splits if_splits)
  show ?case
  proof (cases "\<exists>c. x = Ok c \<and> \<not> fst c \<le> 0")
    case True
    then obtain c where c: "x = Ok c" "\<not> fst c \<le> 0" by blast
    have "reap_from R (exits @ [exit_of R c]) v = (r, w')"
      using "1.prems" c wait by (subst (asm) reap_from.simps) (simp add: exit_of_def)
    then show ?thesis
      using "1.IH" [OF wait [symmetric] c, of r w'] v(1,2) v(3) [OF c] by (fastforce simp: exit_of_def)
  next
    case False
    then show ?thesis
      using "1.prems" v(1,2) wait by (subst (asm) reap_from.simps) (auto split: res.splits if_splits)
  qed
qed

text \<open>When no wait is refused, it collects all of them.\<close>

lemma reap_from_complete:
  assumes "waits_answered w" and "pids_positive (w_children w)"
  shows "\<exists>t. reap_from R exits w = (Ok (exits @ map (exit_of R) (w_children w)),
    w\<lparr>w_tick := t, w_children := [], w_log := w_log w @ map (Reaped \<circ> fst) (w_children w)\<rparr>)"
  using assms
proof (induction "w_children w" arbitrary: w exits)
  case Nil
  then have "sys_Wait4 w = ((if e_kids (w_env w) (w_tick w + 1) then Ok (0, 0) else Err (Errno ECHILD)),
      w\<lparr>w_tick := Suc (w_tick w)\<rparr>)"
    by (simp add: sys_Wait4_def syscall_def Let_def waits_answered_def)
  with Nil(1) show ?case
    by (subst reap_from.simps) (auto intro: exI [where x = "Suc (w_tick w)"])
next
  case (Cons c cs)
  let ?v = "w\<lparr>w_tick := Suc (w_tick w), w_children := cs, w_log := w_log w @ [Reaped (fst c)]\<rparr>"
  have "sys_Wait4 w = (Ok c, ?v)"
    using Cons.prems(1) unfolding sys_Wait4_def syscall_def Let_def waits_answered_def by (simp add: Cons.hyps(2) [symmetric])
  moreover have "0 < fst c" using Cons.prems(2) by (simp add: pids_positive_def Cons.hyps(2) [symmetric])
  ultimately have step: "reap_from R exits w = reap_from R (exits @ [exit_of R c]) ?v"
    by (subst reap_from.simps) (simp add: exit_of_def)
  have "waits_answered ?v" "pids_positive (w_children ?v)"
    using Cons.prems by (simp_all add: waits_answered_def pids_positive_def Cons.hyps(2) [symmetric])
  from Cons.hyps(1) [OF _ this, of "exits @ [exit_of R c]"] show ?case
    unfolding step by (simp add: Cons.hyps(2) [symmetric])
qed

lemma reap_answered:
  assumes "waits_answered w" and "pids_positive (w_children w)"
  obtains t where "reap R w = (Ok (map (exit_of R) (w_children w)),
    w\<lparr>w_tick := t, w_children := [], w_log := w_log w @ map (Reaped \<circ> fst) (w_children w)\<rparr>)"
  using reap_from_complete [OF assms, of R "[]"] by (auto simp: reap_def)

subsection \<open>The terminal\<close>

text \<open>Asking for and setting a window size changes nothing that is modelled.\<close>

definition winsize_calls :: "'n termlib \<Rightarrow> bool" where
  "winsize_calls T \<longleftrightarrow>
     (\<forall>fd. returns (tm_GetWinsize T fd) \<and> (\<forall>w. snd (tm_GetWinsize T fd w) = w)) \<and>
     (\<forall>fd ws. returns (tm_SetWinsize T fd ws) \<and> (\<forall>w. snd (tm_SetWinsize T fd ws w) = w))"

lemma ignore_returns: "returns m \<Longrightarrow> ignore m w = (Ok (), snd (m w))"
proof -
  obtain r v where m: "m w = (r, v)" by (meson surj_pair)
  moreover assume "returns m"
  ultimately have "\<And>x. r \<noteq> Stop x" unfolding returns_def by (metis fst_conv)
  with m show ?thesis by (cases r) (auto simp: ignore_def)
qed

lemma resize_keeps: "winsize_calls T \<Longrightarrow> snd (tty_resize T t w) = w"
proof -
  assume "winsize_calls T"
  then have "preserves (\<lambda>v. v = w) (tty_resize T t)"
    unfolding tty_resize_def winsize_calls_def
    by (intro pres preserves_pure) auto
  then show ?thesis by (simp add: preserves_def)
qed

lemma resize_run:
  assumes "winsize_calls T"
  shows "ignore (tty_resize T t) w = (Ok (), w)"
proof -
  have "returns (tty_resize T t)"
    using assms by (cases "tty_console t") (auto simp: tty_resize_def winsize_calls_def intro!: rets)
  then show ?thesis using ignore_returns resize_keeps [OF assms] by metis
qed

subsection \<open>Forwarding\<close>

lemma reaped_last: "pid \<in> set ps \<Longrightarrow> was_reaped (l @ map Reaped ps) pid"
proof (induction ps rule: rev_induct)
  case (snoc p ps)
  then show ?case by (cases "p = pid") (auto simp: was_reaped_def)
qed simp

lemma sys_Kill_children:
  "w_children (snd (sys_Kill pid s w)) = w_children w" "w_env (snd (sys_Kill pid s w)) = w_env w"
  by (simp_all add: sys_Kill_def syscall_def Let_def split: option.split)

lemmas ignore_Kill = ignore_returns [OF returns_os(6)]

text \<open>The children that have ended by the end of the signals.\<close>

definition ended_by :: "'n world \<Rightarrow> schedule \<Rightarrow> (int \<times> int) set" where
  "ended_by w signals = set (w_children w) \<union> (\<Union>s\<in>set signals. set (snd s))"

lemma forward_loop_sound:
  assumes "winsize_calls T" and "forward_loop R T t p pid1 signals w = (Ok st, w')"
  shows "\<exists>ws. (pid1, ws) \<in> ended_by w signals \<and> st = rl_ExitStatus R ws"
  using assms(2)
proof (induction signals arbitrary: w)
  case (Cons e signals)
  obtain s ended where e: "e = (s, ended)" by force
  let ?v = "w\<lparr>w_children := w_children w @ ended\<rparr>"
  have goes_on: ?case
    if "forward_loop R T t p pid1 signals u = (Ok st, w')" "set (w_children u) \<subseteq> set (w_children ?v)" for u
    using Cons.IH [OF that(1)] that(2) by (auto simp: ended_by_def e)
  show ?case
  proof (cases "s = SIGWINCH \<or> s \<noteq> SIGCHLD")
    case True
    moreover have "seq (ignore (tty_resize T t)) k ?v = (Ok st, w') \<Longrightarrow> k () ?v = (Ok st, w')" for k
      using resize_keeps [OF assms(1), of t ?v]
      by (cases "tty_resize T t ?v"; cases "fst (tty_resize T t ?v)") (auto simp: ignore_def)
    ultimately show ?thesis
      using Cons.prems goes_on [of ?v] goes_on [of "snd (sys_Kill pid1 s ?v)"] ignore_Kill [of pid1 s ?v]
      by (auto simp: e children_end_def sys_Kill_children split: if_splits)
  next
    case False
    then have "s = SIGCHLD" by auto
    obtain r u where reap: "reap R ?v = (r, u)" by (meson surj_pair)
    note run = Cons.prems [unfolded e forward_loop.simps]
    from reap_from_sound [of R "[]" ?v r u] reap
    have u: "set (w_children u) \<subseteq> set (w_children ?v)"
      and es: "\<And>es. r = Ok es \<Longrightarrow> set es \<subseteq> exit_of R ` set (w_children ?v)"
      by (auto simp: reap_def)
    show ?thesis
    proof (cases "\<exists>es x. r = Ok es \<and> find (\<lambda>e. fst e = pid1) es = Some x")
      case True
      then obtain es x where x: "r = Ok es" "find (\<lambda>e. fst e = pid1) es = Some x" by blast
      then have "x \<in> set es" "fst x = pid1" by (auto simp: find_Some_iff)
      moreover have "st = snd x"
        using run reap x False \<open>s = SIGCHLD\<close>
        by (auto simp: children_end_def seq_Ok_iff)
      ultimately show ?thesis using es [OF x(1)] by (fastforce simp: ended_by_def e exit_of_def)
    next
      case False
      then have "forward_loop R T t p pid1 signals u = (Ok st, w')"
        using run reap \<open>s = SIGCHLD\<close>
        by (cases r) (auto simp: children_end_def split: option.splits)
      with u show ?thesis by (rule goes_on [rotated])
    qed
  qed
qed simp

text \<open>
  When waiting is never refused, the loop ends at the first \<open>SIGCHLD\<close> that finds the process among
  the children that ended, and waits for nothing more.
\<close>

lemma reaped_wait:
  assumes "waits_answered w" and "p_ops p = Some pid" and "was_reaped (w_log w) pid"
  shows "ignore (Process_Wait p) w = (Ok (), w\<lparr>w_tick := Suc (w_tick w)\<rparr>)"
proof -
  have "Process_Wait p w = (Err (Errno ECHILD), w\<lparr>w_tick := Suc (w_tick w)\<rparr>)"
    using assms by (simp add: Process_Wait_def proc_Wait_def syscall_def waits_answered_def)
  then show ?thesis by (simp add: ignore_def)
qed

lemma main_reaped:
  assumes "waits_answered w" and "pids_positive (w_children w)" and "p_ops p = Some pid1"
    and "pid1 \<in> fst ` set (w_children w)"
  shows "\<exists>st w'. seq (try_io (reap R) (\<lambda>_. ret []) ret) (\<lambda>exits.
       case find (\<lambda>e. fst e = pid1) exits of
         Some e \<Rightarrow> seq (ignore (Process_Wait p)) (\<lambda>_. ret (snd e))
       | None \<Rightarrow> k) w = (Ok st, w') \<and> w_children w' = []"
proof -
  obtain t where reap: "reap R w = (Ok (map (exit_of R) (w_children w)),
      w\<lparr>w_tick := t, w_children := [], w_log := w_log w @ map (Reaped \<circ> fst) (w_children w)\<rparr>)" (is "_ = (_, ?v)")
    using reap_answered [OF assms(1,2)] by blast
  have "find (\<lambda>e. fst e = pid1) (map (exit_of R) (w_children w)) \<noteq> None"
    using assms(4) by (auto simp: find_None_iff exit_of_def)
  then obtain e where e: "find (\<lambda>e. fst e = pid1) (map (exit_of R) (w_children w)) = Some e" by blast
  have "was_reaped (w_log ?v) pid1"
    using assms(4) reaped_last [of pid1 "map fst (w_children w)" "w_log w"] by simp
  then have "ignore (Process_Wait p) ?v = (Ok (), ?v\<lparr>w_tick := Suc (w_tick ?v)\<rparr>)"
    using assms(1,3) by (intro reaped_wait) (simp_all add: waits_answered_def)
  then show ?thesis using reap e by simp
qed

lemma forward_loop_ends:
  assumes "winsize_calls T" and "p_ops p = Some pid1"
    and "waits_answered w" and "pids_positive (w_children w)" and "\<forall>s\<in>set (before @ [(SIGCHLD, ended)]). pids_positive (snd s)"
    and "pid1 \<in> fst ` ended_by w (before @ [(SIGCHLD, ended)])"
  shows "\<exists>st w'. forward_loop R T t p pid1 (before @ (SIGCHLD, ended) # after) w = (Ok st, w')"
  using assms(3-6)
proof (induction before arbitrary: w)
  case Nil
  let ?v = "w\<lparr>w_children := w_children w @ ended\<rparr>"
  have "waits_answered ?v" "pids_positive (w_children ?v)" "pid1 \<in> fst ` set (w_children ?v)"
    using Nil.prems by (auto simp: waits_answered_def pids_positive_def ended_by_def)
  from main_reaped [OF this(1,2) assms(2) this(3), of R "forward_loop R T t p pid1 after"] show ?case
    by (auto simp: children_end_def)
next
  case (Cons e before)
  obtain s new where e: "e = (s, new)" by force
  let ?v = "w\<lparr>w_children := w_children w @ new\<rparr>"
  have v: "waits_answered ?v" "pids_positive (w_children ?v)" "pid1 \<in> fst ` ended_by ?v (before @ [(SIGCHLD, ended)])"
    using Cons.prems by (auto simp: waits_answered_def pids_positive_def ended_by_def e)
  have rest: "\<forall>s\<in>set (before @ [(SIGCHLD, ended)]). pids_positive (snd s)"
    using Cons.prems(3) by simp
  consider "s = SIGWINCH" | "s = SIGCHLD" | "s \<noteq> SIGWINCH" "s \<noteq> SIGCHLD" by blast
  then show ?case
  proof cases
    case 1
    then show ?thesis
      using Cons.IH [OF v(1,2) rest v(3)] resize_run [OF assms(1), of t ?v] by (simp add: e children_end_def)
  next
    case 2
    show ?thesis
    proof (cases "pid1 \<in> fst ` set (w_children ?v)")
      case True
      from main_reaped [OF v(1,2) assms(2) True, of R "forward_loop R T t p pid1 (before @ (SIGCHLD, ended) # after)"] 2
      show ?thesis
        by (auto simp: e children_end_def)
    next
      case False
      obtain t' where reap: "reap R ?v = (Ok (map (exit_of R) (w_children ?v)),
          ?v\<lparr>w_tick := t', w_children := [], w_log := w_log ?v @ map (Reaped \<circ> fst) (w_children ?v)\<rparr>)" (is "_ = (_, ?u)")
        using reap_answered [OF v(1,2)] by blast
      have none: "find (\<lambda>e. fst e = pid1) (map (exit_of R) (w_children ?v)) = None"
        using False by (force simp: find_None_iff exit_of_def)
      have "waits_answered ?u" "pids_positive (w_children ?u)"
        using v(1) by (simp_all add: waits_answered_def pids_positive_def)
      moreover have "pid1 \<in> fst ` ended_by ?u (before @ [(SIGCHLD, ended)])"
        using v(3) False by (auto simp: ended_by_def)
      ultimately have "\<exists>st w'. forward_loop R T t p pid1 (before @ (SIGCHLD, ended) # after) ?u = (Ok st, w')"
        using rest by (intro Cons.IH)
      then show ?thesis using reap none 2 by (simp add: e children_end_def)
    qed
  next
    case 3
    let ?u = "snd (sys_Kill pid1 s ?v)"
    have "waits_answered ?u" "pids_positive (w_children ?u)" "pid1 \<in> fst ` ended_by ?u (before @ [(SIGCHLD, ended)])"
      using v by (simp_all add: waits_answered_def pids_positive_def ended_by_def sys_Kill_children)
    from Cons.IH [OF this(1,2) rest this(3)] 3 show ?thesis
      by (simp add: e children_end_def ignore_Kill)
  qed
qed

end
