(* ===== verification/ErrorText.thy ===== *)
theory ErrorText
  imports Errors Paths
begin

text \<open>
  \<open>libcontainer/generic_error.go\<close> in full: the \<open>*genericError\<close> with its time stamp, message and
  stack, what it prints, and that the error values the rest of the development passes around
  (\<open>Errors\<close>) are these without their print form. The clock, the captured stack and the text of an
  error that is not an API error are arguments.
\<close>

subsection \<open>Quoted text\<close>

definition hex_char :: "nat \<Rightarrow> char" where
  "hex_char n = ''0123456789abcdef'' ! n"

text \<open>\<open>%q\<close> of ASCII text; a byte of a longer character is printed as it is.\<close>

definition quote_char :: "char \<Rightarrow> string" where
  "quote_char c =
     (let n = of_char c in
      if c = CHR 0x22 \<or> c = CHR 0x5C then [CHR 0x5C, c]
      else case map_of [(7, CHR ''a''), (8, CHR ''b''), (9, CHR ''t''), (10, CHR ''n''), (11, CHR ''v''),
          (12, CHR ''f''), (13, CHR ''r'')] n of
        Some e \<Rightarrow> [CHR 0x5C, e]
      | None \<Rightarrow> if n < 32 \<or> n = 127 then [CHR 0x5C, CHR ''x'', hex_char (n div 16), hex_char (n mod 16)] else [c])"

definition quoted :: "string \<Rightarrow> string" where
  "quoted s = [CHR 0x22] @ concat (map quote_char s) @ [CHR 0x22]"

subsection \<open>The error\<close>

record frame =
  fr_Function :: string
  fr_Package :: string
  fr_File :: string
  fr_Line :: nat

text \<open>An error: one that other code made, or a \<open>genericError\<close>.\<close>

datatype gerror = Foreign goerr
  | genericError (ge_Timestamp: string) (ge_ECode: ErrorCode) (ge_Err: "gerror option") (ge_Cause: string)
      (ge_Message: string) (ge_Stack: "frame list")

text \<open>\<open>Error()\<close>: an error with a cause and no stack is indexed out of range.\<close>

definition genericError_Error :: "gerror \<Rightarrow> string res" where
  "genericError_Error e =
     (if ge_Cause e = '''' then Ok (ge_Message e)
      else case ge_Stack e of
        [] \<Rightarrow> Stop (Panic ''index out of range'')
      | frame # _ \<Rightarrow> Ok (fr_File frame @ '':'' @ nat_text (fr_Line frame) @ '': '' @ ge_Cause e @ '' caused '' @ quoted (ge_Message e)))"

fun gerror_text :: "(goerr \<Rightarrow> string) \<Rightarrow> gerror \<Rightarrow> string res" where
  "gerror_text err_text (Foreign e) = Ok (err_text e)"
| "gerror_text err_text e = genericError_Error e"

subsection \<open>The constructors\<close>

text \<open>The message is the text of the error, if there is one.\<close>

definition message_of :: "(goerr \<Rightarrow> string) \<Rightarrow> gerror option \<Rightarrow> string res" where
  "message_of err_text err = (case err of None \<Rightarrow> Ok '''' | Some e \<Rightarrow> gerror_text err_text e)"

definition createSystemError_at ::
  "(goerr \<Rightarrow> string) \<Rightarrow> string \<Rightarrow> frame list \<Rightarrow> gerror option \<Rightarrow> string \<Rightarrow> gerror res" where
  "createSystemError_at err_text now stack err cause =
     map_res (\<lambda>msg. genericError now SystemError err cause msg stack) (message_of err_text err)"


definition newSystemError_at :: "(goerr \<Rightarrow> string) \<Rightarrow> string \<Rightarrow> frame list \<Rightarrow> gerror option \<Rightarrow> gerror res" where
  "newSystemError_at err_text now stack err = createSystemError_at err_text now stack err ''''"

definition newSystemErrorWithCause_at ::
  "(goerr \<Rightarrow> string) \<Rightarrow> string \<Rightarrow> frame list \<Rightarrow> gerror option \<Rightarrow> string \<Rightarrow> gerror res" where
  "newSystemErrorWithCause_at err_text now stack err cause = createSystemError_at err_text now stack err cause"

text \<open>\<open>cause\<close> is what \<open>fmt.Sprintf\<close> makes of the format and its arguments.\<close>

definition newSystemErrorWithCausef_at ::
  "(goerr \<Rightarrow> string) \<Rightarrow> (string \<Rightarrow> 'v list \<Rightarrow> string) \<Rightarrow> string \<Rightarrow> frame list \<Rightarrow> gerror option \<Rightarrow> string \<Rightarrow> 'v list \<Rightarrow> gerror res" where
  "newSystemErrorWithCausef_at err_text sprintf now stack err cause v =
     createSystemError_at err_text now stack err (sprintf cause v)"

definition newGenericError_at ::
  "(goerr \<Rightarrow> string) \<Rightarrow> string \<Rightarrow> frame list \<Rightarrow> gerror option \<Rightarrow> ErrorCode \<Rightarrow> gerror res" where
  "newGenericError_at err_text now stack err c = (case err of
     Some (genericError t d e cause m s) \<Rightarrow> Ok (genericError t d e cause m s)
   | _ \<Rightarrow> map_res (\<lambda>msg. genericError now c err '''' msg stack) (message_of err_text err))"

text \<open>The text that the template makes of the error, and \<open>Detail\<close>, which writes it.\<close>

definition frame_lines :: "nat \<times> frame \<Rightarrow> string" where
  "frame_lines = (\<lambda>(i, f). [CHR 0x0A] @ ''---'' @ [CHR 0x0A] @ nat_text i @ '': '' @ fr_Function f @ [CHR 0x0A] @
     ''Package: '' @ fr_Package f @ [CHR 0x0A] @ ''File: '' @ fr_File f @ ''@'' @ nat_text (fr_Line f))"

definition errorTemplate :: "gerror \<Rightarrow> string" where
  "errorTemplate e = ''Timestamp: '' @ ge_Timestamp e @ [CHR 0x0A] @ ''Code: '' @ ErrorCode_String (ge_ECode e) @ [CHR 0x0A] @
     (if ge_Message e \<noteq> '''' then [CHR 0x0A] @ ''Message: '' @ ge_Message e @ [CHR 0x0A] else '''') @ [CHR 0x0A] @
     ''Frames:'' @ concat (map frame_lines (enumerate 0 (ge_Stack e))) @ [CHR 0x0A]"

definition genericError_Detail :: "(string \<Rightarrow> ('s, unit) io) \<Rightarrow> gerror \<Rightarrow> ('s, unit) io" where
  "genericError_Detail write e = write (errorTemplate e)"

subsection \<open>The errors of the rest of the development\<close>

text \<open>An error without its print form. What other code made is never an API error.\<close>

fun plain_error :: "gerror \<Rightarrow> goerr" where
  "plain_error (Foreign e) = e"
| "plain_error (genericError t c e cause m s) = Generic c (map_option plain_error e) cause"

definition foreign_ok :: "gerror \<Rightarrow> bool" where
  "foreign_ok e \<longleftrightarrow> (case e of Foreign f \<Rightarrow> api_code f = None | _ \<Rightarrow> True)"

lemma createSystemError_plain:
  "createSystemError_at err_text now stack (Some e) cause = Ok g \<Longrightarrow>
     plain_error g = createSystemError (plain_error e) cause \<and> ge_Stack g = stack \<and> gerror_text err_text e = Ok (ge_Message g)"
  by (cases "gerror_text err_text e") (auto simp: createSystemError_at_def message_of_def createSystemError_def)

lemma newGenericError_plain:
  "newGenericError_at err_text now stack (Some e) c = Ok g \<Longrightarrow> foreign_ok e \<Longrightarrow>
     plain_error g = newGenericError (plain_error e) c"
  by (cases e; cases "gerror_text err_text e") (auto simp: newGenericError_at_def message_of_def newGenericError_def foreign_ok_def)

text \<open>Where a stack was captured, an error can be printed and wrapped.\<close>

lemma genericError_Error_Ok: "ge_Stack e \<noteq> [] \<Longrightarrow> \<exists>s. genericError_Error e = Ok s"
  by (cases "ge_Stack e") (simp_all add: genericError_Error_def)

lemma createSystemError_Ok:
  "stack \<noteq> [] \<Longrightarrow> \<exists>s. gerror_text err_text e = Ok s \<Longrightarrow> \<exists>g. createSystemError_at err_text now stack (Some e) cause = Ok g
     \<and> (\<exists>s. gerror_text err_text g = Ok s)"
  by (auto simp: createSystemError_at_def message_of_def intro!: genericError_Error_Ok)

end
