(* ===== verification/Runner.thy ===== *)
theory Runner
  imports Signals Runtime ErrorText
begin

text \<open>
  \<open>llcli/create.go\<close>, \<open>util.go\<close>, \<open>util_nabla.go\<close> and \<open>util_runner.go\<close>: the \<open>create\<close> command, from
  the bundle's \<open>config.json\<close> to the started init process. A flag that the command does not declare
  (\<open>detach\<close>, \<open>console\<close>, \<open>no-subreaper\<close>) reads as the zero value, as in the command line package.
\<close>

subsection \<open>The specification\<close>

definition specConfig :: string where "specConfig = ''config.json''"

definition validateProcessSpec :: "SpecProcess option \<Rightarrow> ('s, unit) io" where
  "validateProcessSpec sp = (case sp of
     None \<Rightarrow> halt (Panic ''nil pointer dereference'')
   | Some p \<Rightarrow>
       if sp_Cwd p = '''' then fail (Msg ''Cwd property must not be empty'')
       else if \<not> IsAbs (sp_Cwd p) then fail (Msg ''Cwd must be an absolute path'')
       else if (case sp_Args p of None \<Rightarrow> True | Some a \<Rightarrow> a = []) then fail (Msg ''args must not be empty'')
       else ret ())"

definition loadSpec :: "'n runclib \<Rightarrow> string \<Rightarrow> ('n world, Spec) io" where
  "loadSpec R cPath =
     seq (map_err (\<lambda>e. if IsNotExist e then Msg (''JSON specification file '' @ cPath @ '' not found'') else e)
       (os_Open cPath)) (\<lambda>cf.
     deferred (file_Close cf) (
       seq (file_ReadAll cf) (\<lambda>text.
       seq (lift_res (rl_DecodeSpec R text)) (\<lambda>spec. case spec of
         None \<Rightarrow> halt (Panic ''nil pointer dereference'')
       | Some s \<Rightarrow> seq (validateProcessSpec (spec_Process s)) (\<lambda>_. ret s)))))"

definition setupSdNotify :: "Spec \<Rightarrow> string \<Rightarrow> Spec" where
  "setupSdNotify spec notifySocket = spec\<lparr>
     spec_Mounts := spec_Mounts spec @ [\<lparr>mnt_Destination = notifySocket, mnt_Type = ''bind'',
       mnt_Source = notifySocket, mnt_Options = [''bind'']\<rparr>],
     spec_Process := map_option (\<lambda>p. p\<lparr>sp_Env := sp_Env p @ [''NOTIFY_SOCKET='' @ notifySocket]\<rparr>) (spec_Process spec)\<rparr>"

definition root_in_bundle :: "string \<Rightarrow> Spec \<Rightarrow> Spec" where
  "root_in_bundle bundle spec = (case spec_Root spec of
     None \<Rightarrow> spec
   | Some p \<Rightarrow> if HasPrefix p ''/'' then spec else spec\<lparr>spec_Root := Some (Join [bundle, p])\<rparr>)"

definition setupSpec :: "cliContext \<Rightarrow> 'n runclib \<Rightarrow> ('n world, Spec) io" where
  "setupSpec ctx R =
     (let bundle = ctx_String ctx ''bundle'' in
      seq (if bundle \<noteq> '''' then os_Chdir bundle else ret ()) (\<lambda>_.
      seq (loadSpec R specConfig) (\<lambda>spec0.
      let spec1 = root_in_bundle bundle spec0 in
      seq (os_Getenv ''NOTIFY_SOCKET'') (\<lambda>notifySocket.
      let spec2 = (if notifySocket \<noteq> '''' then setupSdNotify spec1 notifySocket else spec1) in
      seq os_Geteuid (\<lambda>euid.
      if euid \<noteq> 0 then fail (Msg ''runtime should be run as root'') else ret spec2)))))"

subsection \<open>The process and its files\<close>

definition newProcess :: "SpecProcess \<Rightarrow> Process" where
  "newProcess p = \<lparr>p_Args = (case sp_Args p of None \<Rightarrow> [] | Some a \<Rightarrow> a), p_Env = sp_Env p,
     p_User = nat_text (user_UID (sp_User p)) @ '':'' @ nat_text (user_GID (sp_User p)),
     p_AdditionalGroups = map nat_text (user_AdditionalGids (sp_User p)), p_Cwd = sp_Cwd p,
     p_Stdin = None, p_Stdout = None, p_Stderr = None, p_ExtraFiles = [], p_consolePath = '''',
     p_Capabilities = [], p_AppArmorProfile = sp_ApparmorProfile p, p_Label = sp_SelinuxLabel p,
     p_NoNewPrivileges = Some (sp_NoNewPrivileges p), p_ops = None, p_OOMScoreAdj = sp_OOMScoreAdj p\<rparr>"

definition dupStdio :: "Process \<Rightarrow> int \<Rightarrow> int \<Rightarrow> ('n world, Process) io" where
  "dupStdio p rootuid rootgid =
     seq (for_each [0, 1, 2] (\<lambda>fd. sys_Fchown fd rootuid rootgid)) (\<lambda>_.
     ret (p\<lparr>p_Stdin := Some (StdFile 0), p_Stdout := Some (StdFile 1), p_Stderr := Some (StdFile 2)\<rparr>))"

definition setupIO ::
  "'n termlib \<Rightarrow> Process \<Rightarrow> int \<Rightarrow> int \<Rightarrow> string \<Rightarrow> bool \<Rightarrow> bool \<Rightarrow> ('n world, Process \<times> tty) io" where
  "setupIO T p rootuid rootgid console createTTY detach =
     (if createTTY \<and> detach \<and> console = '''' then fail (Msg ''cannot allocate tty if runc will detach'')
      else if createTTY then createTty T p rootuid rootgid console
      else if detach then seq (dupStdio p rootuid rootgid) (\<lambda>p'. ret (p', no_tty))
      else createStdioPipes p rootuid rootgid)"

text \<open>The process id as the error or the number that \<open>Pid\<close> returns.\<close>

definition process_id :: "Process \<Rightarrow> ('s, int) io" where
  "process_id p = (case Process_Pid p of (_, Some e) \<Rightarrow> fail e | (pid, None) \<Rightarrow> ret pid)"

definition pid_temp :: "string \<Rightarrow> string" where
  "pid_temp path = Join [Dir path, ''.'' @ Base path]"

definition createPidFile :: "string \<Rightarrow> Process \<Rightarrow> ('n world, unit) io" where
  "createPidFile path p =
     seq (process_id p) (\<lambda>pid.
     seq (os_CreateExcl (pid_temp path) (octal3 6 6 6)) (\<lambda>f.
     try_io (file_Write f (int_text pid))
       (\<lambda>e. seq (ignore (file_Close f)) (\<lambda>_. fail e))
       (\<lambda>_. seq (ignore (file_Close f)) (\<lambda>_. os_Rename (pid_temp path) path))))"

definition adjustOomScore :: "Process \<Rightarrow> ('n world, unit) io" where
  "adjustOomScore p =
     seq (process_id p) (\<lambda>pid.
     case p_OOMScoreAdj p of
       None \<Rightarrow> fail (Msg ''OOMScoreAdj value is nil'')
     | Some v \<Rightarrow> ioutil_WriteFile (Join [''/proc/'', int_text pid, ''oom_score_adj'']) (int_text v) (octal3 6 4 4))"

subsection \<open>The runner\<close>

text \<open>The container of the runner is the object its methods run on.\<close>

record runner =
  rn_enableSubreaper :: bool
  rn_shouldDestroy :: bool
  rn_detach :: bool
  rn_listenFDs :: "osfile list"
  rn_pidFile :: string
  rn_console :: string
  rn_create :: bool

definition runner_destroy :: "'n RunllcHandler \<Rightarrow> runner \<Rightarrow> ('n, unit) meth" where
  "runner_destroy H r = (if rn_shouldDestroy r then destroy_logged H else ret ())"

definition runner_terminate :: "Process \<Rightarrow> ('n, unit) meth" where
  "runner_terminate p = on_world (seq (ignore (Process_Signal p SIGKILL)) (\<lambda>_. ignore (Process_Wait p)))"

text \<open>\<open>r.destroy(); return -1, err\<close>, and the same after \<open>r.terminate(process)\<close>.\<close>

definition or_destroy :: "'n RunllcHandler \<Rightarrow> runner \<Rightarrow> ('n, 'a) meth \<Rightarrow> ('n, 'a) meth" where
  "or_destroy H r m = try_io m (\<lambda>e. seq (runner_destroy H r) (\<lambda>_. fail e)) ret"

definition or_kill :: "'n RunllcHandler \<Rightarrow> runner \<Rightarrow> Process \<Rightarrow> ('n, 'a) meth \<Rightarrow> ('n, 'a) meth" where
  "or_kill H r p m = try_io m
     (\<lambda>e. seq (runner_terminate p) (\<lambda>_. seq (runner_destroy H r) (\<lambda>_. fail e))) ret"

definition listen_files :: "osfile list \<Rightarrow> Process \<Rightarrow> Process" where
  "listen_files fds p = (if fds = [] then p else p\<lparr>
     p_Env := p_Env p @ [''LISTEN_FDS='' @ nat_text (length fds), ''LISTEN_PID=1''],
     p_ExtraFiles := p_ExtraFiles p @ fds\<rparr>)"

definition container_Run :: "Process \<Rightarrow> ('n, Process) meth" where
  "container_Run p = fail (Msg ''NablaContainer.Run not implemented'')"

text \<open>What follows the start of the process.\<close>

definition after_start ::
  "'n runclib \<Rightarrow> 'n RunllcHandler \<Rightarrow> 'n termlib \<Rightarrow> runner \<Rightarrow> tty \<Rightarrow> schedule \<Rightarrow> Process \<Rightarrow> ('n, int) meth" where
  "after_start R H T r t signals p =
     seq (or_kill H r p (on_world (tty_ClosePostStart t))) (\<lambda>_.
     seq (if rn_pidFile r \<noteq> '''' then or_kill H r p (on_world (createPidFile (rn_pidFile r) p)) else ret ()) (\<lambda>_.
     seq (if p_OOMScoreAdj p \<noteq> None then or_kill H r p (on_world (adjustOomScore p)) else ret ()) (\<lambda>_.
     if rn_detach r \<or> rn_create r then ret 0
     else try_io (on_world (forward R T t signals p))
       (\<lambda>e. seq (runner_terminate p) (\<lambda>_. seq (runner_destroy H r) (\<lambda>_. fail e)))
       (\<lambda>status. seq (runner_destroy H r) (\<lambda>_. ret status)))))"

definition run ::
  "'n runclib \<Rightarrow> 'n RunllcHandler \<Rightarrow> 'n termlib \<Rightarrow> runner \<Rightarrow> schedule \<Rightarrow> SpecProcess \<Rightarrow> ('n, int) meth" where
  "run R H T r signals config =
     (let p0 = listen_files (rn_listenFDs r) (newProcess config) in
      seq (this nc_config) (\<lambda>cfg.
      seq (or_destroy H r (lift_res (HostUID cfg))) (\<lambda>rootuid.
      seq (or_destroy H r (lift_res (HostGID cfg))) (\<lambda>rootgid.
      seq (or_destroy H r (on_world (setupIO T p0 rootuid rootgid (rn_console r) (sp_Terminal config)
        (rn_detach r \<or> rn_create r)))) (\<lambda>(p1, t0).
      seq (on_world (newSignalHandler R t0 (rn_enableSubreaper r))) (\<lambda>t.
      deferred (on_world (tty_Close T t)) (
        seq (or_destroy H r (if rn_create r then start R p1 else container_Run p1))
          (after_start R H T r t signals))))))))"

subsection \<open>The command\<close>

definition createContainer ::
  "cliContext \<Rightarrow> 'n RunllcHandler \<Rightarrow> string \<Rightarrow> Spec \<Rightarrow> ('n world, nablaContainer) io" where
  "createContainer ctx H cid spec =
     seq (lift_res (ParseSpec (Some spec))) (\<lambda>config0.
     let config = config0\<lparr>cfg_Labels := cfg_Labels config0 @ [''bundle='' @ ctx_String ctx ''bundle'']\<rparr> in
     seq (map_err (\<lambda>e. if IsNotExist e
          then Msg (''rootfs ('' @ quoted (cfg_Rootfs config) @ '') does not exist'')
          else e)
        (os_Stat (cfg_Rootfs config))) (\<lambda>_.
     seq (loadFactory ctx H) (\<lambda>l. Create l cid config)))"

definition startContainer ::
  "cliContext \<Rightarrow> 'n runclib \<Rightarrow> 'n RunllcHandler \<Rightarrow> 'n termlib \<Rightarrow> schedule \<Rightarrow> Spec \<Rightarrow> bool \<Rightarrow> ('n world, int) io" where
  "startContainer ctx R H T signals spec create =
     (let cid = Args_Get ctx 0 in
      if cid = '''' then fail (Msg ''container id cannot be empty'')
      else seq (createContainer ctx H cid spec) (\<lambda>c.
        let r = \<lparr>rn_enableSubreaper = \<not> ctx_Bool ctx ''no-subreaper'', rn_shouldDestroy = True,
          rn_detach = ctx_Bool ctx ''detach'', rn_listenFDs = [], rn_pidFile = ctx_String ctx ''pid-file'',
          rn_console = ctx_String ctx ''console'', rn_create = create\<rparr> in
        case spec_Process spec of
          None \<Rightarrow> halt (Panic ''nil pointer dereference'')
        | Some sp \<Rightarrow> with_container c (run R H T r signals sp)))"

text \<open>The action never returns: it exits with the status, or with 1 after an error.\<close>

definition create_action ::
  "cliContext \<Rightarrow> 'n runclib \<Rightarrow> 'n RunllcHandler \<Rightarrow> 'n termlib \<Rightarrow> schedule \<Rightarrow> ('n world, unit) io" where
  "create_action ctx R H T signals =
     try_io (setupSpec ctx R) fatal (\<lambda>spec.
     try_io (startContainer ctx R H T signals spec True) fatal (\<lambda>status. halt (Exit status)))"

end
