(* ===== verification/RunnerFacts.thy ===== *)
theory RunnerFacts
  imports Runner
begin

text \<open>
  What the \<open>create\<close> command guarantees: the pid file appears whole or not at all, the specification it
  goes on with has been checked, it starts one process, and a failure after the start kills it.
\<close>

subsection \<open>The pid file\<close>

text \<open>The files are those of \<open>f\<close> but for the temporary name, which holds \<open>s\<close>.\<close>

definition temp_holds :: "string \<Rightarrow> path \<Rightarrow> (path \<Rightarrow> inode option) \<Rightarrow> string \<Rightarrow> 'n world \<Rightarrow> bool" where
  "temp_holds c tmp f s w \<longleftrightarrow> fs_agrees c (\<lambda>x. x = tmp) f w \<and> (\<exists>n. fs_get w tmp = Some n \<and> i_kind n = KFile s)"

lemma temp_holds_tick [simp]: "temp_holds c tmp f s (w\<lparr>w_tick := t\<rparr>) = temp_holds c tmp f s w"
  by (simp add: temp_holds_def)

lemma ensures_CreateExcl:
  "ensures (fs_agrees c (\<lambda>x. x = resolve c p) f) (os_CreateExcl p m)
    (\<lambda>a w. a = resolve c p \<and> temp_holds c (resolve c p) f '''' w) (\<lambda>_. fs_agrees c (\<lambda>x. x = resolve c p) f) (\<lambda>_ _. False)"
  by (rule ensuresI)
    (auto simp: os_CreateExcl_def at_path_def syscall_def seq_def try_io_def create_entry_def new_inode_def Let_def
      temp_holds_def agrees_cwd agrees_put split: if_splits option.splits)

lemma ensures_file_Write:
  "ensures (temp_holds c q f '''') (file_Write q s) (\<lambda>_. temp_holds c q f s)
    (\<lambda>_. fs_agrees c (\<lambda>x. x = q) f) (\<lambda>_ _. False)"
  by (rule ensuresI)
    (auto simp: file_Write_def syscall_def update_inode_def append_inode_def Let_def temp_holds_def agrees_put
      split: option.splits)

lemma ensures_file_Close:
  assumes "\<And>w t. P (w\<lparr>w_tick := t\<rparr>) = P w"
  shows "ensures P (ignore (file_Close q)) (\<lambda>_. P) E X"
  using assms by (auto simp: ensures_def ignore_def try_io_def file_Close_def syscall_def Let_def split: option.split)

lemma ensures_Rename:
  assumes "tmp = resolve c old" and "q = resolve c new" and "tmp \<noteq> q"
  shows "ensures (temp_holds c tmp f s) (os_Rename old new)
    (\<lambda>_ w. fs_agrees c (\<lambda>x. x = tmp \<or> x = q) f w \<and> fs_get w tmp = None \<and> (\<exists>n. fs_get w q = Some n \<and> i_kind n = KFile s))
    (\<lambda>_. fs_agrees c (\<lambda>x. x = tmp) f) (\<lambda>_ _. False)"
  using assms
  by (intro ensuresI)
    (auto simp: os_Rename_def at_path_def syscall_def Let_def temp_holds_def fs_agrees_def
      split: option.splits if_splits)

lemma createPidFile_cases:
  assumes "p_ops p = Some pid" and "tmp = resolve c (pid_temp path)" and "q = resolve c path" and "tmp \<noteq> q"
  shows "ensures (fs_agrees c (\<lambda>x. x = tmp) f) (createPidFile path p)
    (\<lambda>_ w. fs_agrees c (\<lambda>x. x = tmp \<or> x = q) f w \<and> fs_get w tmp = None
      \<and> (\<exists>n. fs_get w q = Some n \<and> i_kind n = KFile (int_text pid)))
    (\<lambda>_. fs_agrees c (\<lambda>x. x = tmp) f) (\<lambda>_ _. False)"
proof -
  have pid: "process_id p = ret pid" using assms(1) by (simp add: process_id_def Process_Pid_def)
  have close: "ensures P (ignore (file_Close tmp)) (\<lambda>_. P) (\<lambda>_. fs_agrees c (\<lambda>x. x = tmp) f) (\<lambda>_ _. False)"
    if "P = temp_holds c tmp f s \<or> P = fs_agrees c (\<lambda>x. x = tmp) f" for P s
    using that by (intro ensures_file_Close) auto
  show ?thesis
    unfolding createPidFile_def pid seq_ret
  proof (rule ensures_seq [OF ensures_CreateExcl [of c "pid_temp path" f, folded assms(2)]])
    fix a
    show "ensures (\<lambda>w. a = tmp \<and> temp_holds c tmp f '''' w) (try_io (file_Write a (int_text pid))
        (\<lambda>e. seq (ignore (file_Close a)) (\<lambda>_. fail e))
        (\<lambda>_. seq (ignore (file_Close a)) (\<lambda>_. os_Rename (pid_temp path) path)))
      (\<lambda>_ w. fs_agrees c (\<lambda>x. x = tmp \<or> x = q) f w \<and> fs_get w tmp = None
        \<and> (\<exists>n. fs_get w q = Some n \<and> i_kind n = KFile (int_text pid)))
      (\<lambda>_. fs_agrees c (\<lambda>x. x = tmp) f) (\<lambda>_ _. False)"
    proof (cases "a = tmp")
      case True
      have "ensures (temp_holds c tmp f '''') (try_io (file_Write tmp (int_text pid))
          (\<lambda>e. seq (ignore (file_Close tmp)) (\<lambda>_. fail e))
          (\<lambda>_. seq (ignore (file_Close tmp)) (\<lambda>_. os_Rename (pid_temp path) path)))
        (\<lambda>_ w. fs_agrees c (\<lambda>x. x = tmp \<or> x = q) f w \<and> fs_get w tmp = None
          \<and> (\<exists>n. fs_get w q = Some n \<and> i_kind n = KFile (int_text pid)))
        (\<lambda>_. fs_agrees c (\<lambda>x. x = tmp) f) (\<lambda>_ _. False)"
        by (rule ensures_try_io [OF ensures_file_Write ensures_seq [OF close] ensures_seq [OF close ensures_Rename]])
          (use assms in \<open>auto simp: ensures_def\<close>)
      then show ?thesis using True by simp
    qed (simp add: ensures_def)
  qed
qed

subsection \<open>The specification\<close>

definition checked :: "Spec \<Rightarrow> bool" where
  "checked spec \<longleftrightarrow> (\<exists>p args. spec_Process spec = Some p \<and> IsAbs (sp_Cwd p) \<and> sp_Args p = Some args \<and> args \<noteq> [])"

lemma validateProcessSpec_Ok:
  "validateProcessSpec (spec_Process spec) w = (Ok (), w') \<Longrightarrow> checked spec \<and> w' = w"
  by (auto simp: validateProcessSpec_def checked_def split: option.splits if_splits)

lemma deferred_Ok: "deferred d m s = (Ok a, t) \<Longrightarrow> \<exists>u. m s = (Ok a, u)"
  by (cases "m s"; cases "fst (m s)") (auto simp: deferred_def seq_Ok_iff)

lemma loadSpec_Ok:
  assumes "loadSpec R path w = (Ok spec, w')"
  shows "checked spec \<and> w_env w' = w_env w \<and> w_cwd w' = w_cwd w"
proof -
  let ?P = "\<lambda>v. w_env v = w_env w \<and> w_cwd v = w_cwd w"
  have blind: "fs_blind ?P" by (simp add: fs_blind_def)
  have quiet: "preserves ?P (validateProcessSpec sp)" for sp
    unfolding validateProcessSpec_def by (intro preserves_case_option preserves_halt preserves_if preserves_fail preserves_ret)
  have "preserves ?P (loadSpec R path)"
    unfolding loadSpec_def deferred_def
    by (intro preserves_seq preserves_map_err preserves_try_io preserves_ignore preserves_case_option preserves_lift_res
        preserves_halt preserves_fail preserves_ret quiet blind_os_ops blind_os_read blind_os_more blind)
  from preservesD [OF this assms] have "w_env w' = w_env w \<and> w_cwd w' = w_cwd w" by simp
  moreover have "checked spec"
    using assms unfolding loadSpec_def
    by (auto simp: seq_Ok_iff lift_res_def split: option.splits dest!: validateProcessSpec_Ok deferred_Ok)
  ultimately show ?thesis by simp
qed

lemma root_in_bundle_process [simp]: "spec_Process (root_in_bundle b spec) = spec_Process spec"
  by (simp add: root_in_bundle_def split: option.split)

lemma setupSpec_Ok:
  assumes "setupSpec ctx R w = (Ok spec, w')"
  shows "checked spec \<and> e_euid (w_env w) = 0
    \<and> (\<forall>r. spec_Root spec = Some r \<longrightarrow> HasPrefix r ''/'' \<or> (\<exists>r0. r = Join [ctx_String ctx ''bundle'', r0]))
    \<and> w_cwd w' = (if ctx_String ctx ''bundle'' = '''' then w_cwd w
        else path_text (resolve (w_cwd w) (ctx_String ctx ''bundle'')))"
proof -
  let ?b = "ctx_String ctx ''bundle''"
  obtain v spec0 where cd: "(if ?b \<noteq> '''' then os_Chdir ?b else ret ()) w = (Ok (), v)"
    and load: "loadSpec R specConfig v = (Ok spec0, w')" and root: "e_euid (w_env w') = 0"
    and spec: "spec = root_in_bundle ?b spec0 \<or> (\<exists>s. spec = setupSdNotify (root_in_bundle ?b spec0) s)"
    using assms unfolding setupSpec_def Let_def
    by (auto simp: seq_Ok_iff os_Getenv_def os_Geteuid_def split: if_splits)
  have v: "w_env v = w_env w" "w_cwd v = (if ?b = '''' then w_cwd w else path_text (resolve (w_cwd w) ?b))"
    using cd by (auto simp: os_Chdir_def at_path_def syscall_def lookup_or_err_def seq_def try_io_def Let_def
        split: if_splits option.splits)
  from loadSpec_Ok [OF load] v spec root show ?thesis
    by (auto simp: checked_def setupSdNotify_def root_in_bundle_def split: if_splits option.splits)
qed

subsection \<open>After the start\<close>

lemma blind_create_files [pres]:
  assumes "fs_blind P"
  shows "preserves P (os_CreateExcl p m)" and "preserves P (os_CreateTrunc p m)"
    and "preserves P (ioutil_WriteFile p s m)" and "preserves P (os_Rename p p')"
proof -
  note blind = fs_blindD [OF assms]
  show "preserves P (os_CreateExcl p m)"
    unfolding os_CreateExcl_def
    by (intro preserves_at_path blind_syscall preserves_seq preserves_ret blind_primitives assms)
  show trunc: "preserves P (os_CreateTrunc p m)"
    unfolding os_CreateTrunc_def create_entry_def
    by (intro preserves_at_path blind_syscall assms)
      (auto simp: preserves_def blind seq_def try_io_def split: option.splits)
  show "preserves P (ioutil_WriteFile p s m)"
    unfolding ioutil_WriteFile_def
    by (intro preserves_seq preserves_try_io preserves_ignore preserves_fail trunc blind_os_ops blind_os_more assms)
  show "preserves P (os_Rename p p')"
    unfolding os_Rename_def
    by (intro preserves_at_path blind_syscall assms) (auto simp: preserves_def blind split: option.splits)
qed

lemma ensures_kept: "preserves P m \<Longrightarrow> (\<And>x s. P s \<Longrightarrow> X x s) \<Longrightarrow> ensures P m (\<lambda>_. P) (\<lambda>_. P) X"
  by (erule ensures_weaken [OF ensures_preserved]) auto

text \<open>The object, the environment and the log.\<close>

definition at_log :: "nablaContainer \<Rightarrow> env \<Rightarrow> event list \<Rightarrow> nablaContainer \<times> 'n world \<Rightarrow> bool" where
  "at_log d E l s \<longleftrightarrow> fst s = d \<and> w_env (snd s) = E \<and> w_log (snd s) = l"

lemma fs_blind_at: "fs_blind (\<lambda>w. w_env w = E \<and> w_log w = l)"
  by (simp add: fs_blind_def)

lemma preserves_at:
  "preserves (\<lambda>w. w_env w = E \<and> w_log w = l) m \<Longrightarrow> preserves (at_log d E l) (on_world m)"
  by (rule preservesI) (auto simp: at_log_def split: prod.splits dest: preservesD)

lemma blind_pid_and_score:
  assumes "fs_blind P"
  shows "preserves P (createPidFile path p)" and "preserves P (adjustOomScore p)"
proof -
  have pid: "preserves P (process_id p)"
    unfolding process_id_def by (intro preserves_case_prod preserves_case_option preserves_ret preserves_fail)
  show "preserves P (createPidFile path p)"
    unfolding createPidFile_def
    by (intro preserves_seq preserves_try_io preserves_ignore preserves_fail pid blind_create_files blind_os_ops blind_os_more assms)
  show "preserves P (adjustOomScore p)"
    unfolding adjustOomScore_def
    by (intro preserves_seq preserves_case_option preserves_fail pid blind_create_files assms)
qed

text \<open>The process was killed, if it was there and the signal was not refused, and perhaps waited for.\<close>

definition can_kill :: "env \<Rightarrow> int \<Rightarrow> bool" where
  "can_kill E pid \<longleftrightarrow> (\<forall>t. e_fault E t (OpKill pid SIGKILL) = None \<and> e_alive E t pid)"

definition killed :: "env \<Rightarrow> event list \<Rightarrow> int \<Rightarrow> nablaContainer \<times> 'n world \<Rightarrow> bool" where
  "killed E l pid s \<longleftrightarrow> (\<exists>a b. w_log (snd s) = l @ a @ b \<and> a \<in> {[], [Signalled pid SIGKILL]} \<and> b \<in> {[], [Reaped pid]}
     \<and> (can_kill E pid \<longrightarrow> a = [Signalled pid SIGKILL]))"

lemma killed_outside: "outside (snd s) = outside (snd s') \<Longrightarrow> killed E l pid s = killed E l pid s'"
  by (simp add: killed_def outside_def)

lemma ensures_terminate:
  assumes "p_ops p = Some pid"
  shows "ensures (at_log d E l) (runner_terminate p) (\<lambda>_. killed E l pid) (\<lambda>_. killed E l pid) (\<lambda>_. killed E l pid)"
  unfolding ensures_def
proof (intro allI impI)
  fix s :: "nablaContainer \<times> 'a world"
  assume s: "at_log d E l s"
  let ?v = "snd (sys_Kill pid SIGKILL (snd s))"
  have kill: "ignore (Process_Signal p SIGKILL) (snd s) = (Ok (), ?v)"
    using assms by (simp add: Process_Signal_def ignore_Kill)
  have v: "w_env ?v = E" "w_log ?v = l \<or> w_log ?v = l @ [Signalled pid SIGKILL]"
    "can_kill E pid \<Longrightarrow> w_log ?v = l @ [Signalled pid SIGKILL]"
    using s by (auto simp: at_log_def can_kill_def sys_Kill_def syscall_def Let_def SIGKILL_def split: option.split)
  obtain r u where wait: "ignore (Process_Wait p) ?v = (r, u)" by (meson surj_pair)
  then have u: "w_log u = w_log ?v \<or> w_log u = w_log ?v @ [Reaped pid]"
    using assms
    by (auto simp: Process_Wait_def proc_Wait_def syscall_def Let_def ignore_def try_io_def split: option.splits if_splits)
  have "killed E l pid (fst s, u)"
    unfolding killed_def
  proof (intro exI conjI)
    show "w_log (snd (fst s, u)) = l @ drop (length l) (w_log ?v) @ drop (length (w_log ?v)) (w_log u)"
      using v(2) u by auto
  qed (use v u in auto)
  moreover have "runner_terminate p s = (r, (fst s, u))"
    using kill wait by (cases s) (simp add: runner_terminate_def on_world_def zoom_def)
  ultimately show "case runner_terminate p s of (Ok a, s') \<Rightarrow> killed E l pid s' | (Err e, s') \<Rightarrow> killed E l pid s'
      | (Stop x, s') \<Rightarrow> killed E l pid s'"
    by (cases r) simp_all
qed

text \<open>
  What the log has gained when a creation ended: nothing, or the start of the init process and then,
  perhaps, its killing and the wait for it.
\<close>

definition ended :: "event list \<Rightarrow> nablaContainer \<times> 'n world \<Rightarrow> bool" where
  "ended l s \<longleftrightarrow> w_log (snd s) = l \<or> (\<exists>pid a b.
     w_log (snd s) = l @ [Started ''/proc/self/exe'' [''/proc/self/exe'', ''init''] pid] @ a @ b
     \<and> a \<in> {[], [Signalled pid SIGKILL]} \<and> b \<in> {[], [Reaped pid]})"

text \<open>\<open>prctl(PR_SET_CHILD_SUBREAPER)\<close> changes nothing that is modelled.\<close>

definition Subreaper_quiet :: "'n runclib \<Rightarrow> bool" where
  "Subreaper_quiet R \<longleftrightarrow> (\<forall>w. snd (rl_SetSubreaper R w) = w)"

lemma newSignalHandler_quiet:
  assumes "Subreaper_quiet R" and "newSignalHandler R t b w = (r, w')"
  shows "w' = w \<and> (\<forall>a. r = Ok a \<longrightarrow> a = t)"
proof -
  obtain q where sub: "rl_SetSubreaper R w = (q, w)"
    using assms(1) unfolding Subreaper_quiet_def by (metis prod.collapse)
  from ignore_result [of "rl_SetSubreaper R" w q w, OF sub] show ?thesis
    using assms(2) unfolding newSignalHandler_def by (cases q) (auto split: if_splits)
qed

text \<open>With \<open>create\<close> the caller keeps no terminal and no pipes.\<close>

lemma setupIO_detached:
  assumes "setupIO T p u g console tm True w = (r, w')"
  shows "(\<exists>k. w' = w\<lparr>w_tick := k\<rparr>) \<and> (\<forall>a. r = Ok a \<longrightarrow> snd a = no_tty)"
proof -
  let ?P = "\<lambda>v. \<exists>k. v = w\<lparr>w_tick := k\<rparr>"
  have w: "?P w" by (rule exI [where x = "w_tick w"]) simp
  have chown: "preserves ?P (for_each fds (\<lambda>fd. sys_Fchown fd u g))" for fds
    unfolding sys_Fchown_def by (intro preserves_for_each preserves_syscall preserves_ret) auto
  obtain q v where d: "dupStdio p u g w = (q, v)" by (meson surj_pair)
  have "preserves ?P (dupStdio p u g)" unfolding dupStdio_def by (intro preserves_seq preserves_ret chown)
  from preservesD [OF this d w] have "?P v" .
  with assms d w show ?thesis
    by (cases q) (auto simp: setupIO_def createTty_def split: if_splits res.splits)
qed

context runllc
begin

lemma runner_destroy_outside: "preserves (\<lambda>s. outside (snd s) = x) (runner_destroy H r)"
  unfolding runner_destroy_def destroy_logged_def
proof (intro preserves_if preserves_ret preserves_ignore preservesI)
  fix s q s' assume "outside (snd s) = x" "destroy H s = (q, s')"
  then show "outside (snd s') = x"
    using destroy_outside [of "fst s" "snd s" q "fst s'" "snd s'"] by simp
qed

lemma runner_destroy_killed: "preserves (killed E l pid) (runner_destroy H r)"
proof (rule preservesI)
  fix s q s' assume "killed E l pid s" "runner_destroy H r s = (q, s')"
  with preservesD [OF runner_destroy_outside this(2), of "outside (snd s)"] show "killed E l pid s'"
    using killed_outside by metis
qed

lemma ensures_or_kill:
  assumes "preserves (at_log d E l) m" and "p_ops p = Some pid"
  shows "ensures (at_log d E l) (or_kill H r p m) (\<lambda>_. at_log d E l) (\<lambda>_. killed E l pid)
    (\<lambda>_ s. killed E l pid s \<or> at_log d E l s)"
proof -
  let ?X = "\<lambda>_ s. killed E l pid s \<or> at_log d E l s"
  have gone: "ensures (killed E l pid) (seq (runner_destroy H r) (\<lambda>_. fail e)) Q (\<lambda>_. killed E l pid) ?X"
    for e and Q :: "'x \<Rightarrow> _"
    by (rule ensures_seq [OF ensures_kept [OF runner_destroy_killed]]) (auto simp: ensures_def)
  have dead: "ensures (at_log d E l) (seq (runner_terminate p) (\<lambda>_. seq (runner_destroy H r) (\<lambda>_. fail e))) Q
      (\<lambda>_. killed E l pid) ?X" for e and Q :: "'x \<Rightarrow> _"
    by (rule ensures_seq [where M = "\<lambda>_. killed E l pid", OF ensures_weaken [OF ensures_terminate [OF assms(2)]] gone]) auto
  show ?thesis
    unfolding or_kill_def
    by (rule ensures_try_io [OF ensures_kept [OF assms(1)] dead]) (simp_all add: ensures_def)
qed

lemma after_start_cases:
  assumes "rn_create r" and "p_ops p = Some pid"
  shows "ensures (at_log d E l) (after_start R H T r no_tty signals p) (\<lambda>st s. st = 0 \<and> at_log d E l s)
    (\<lambda>_. killed E l pid) (\<lambda>_ s. killed E l pid s \<or> at_log d E l s)"
proof -
  have none: "ensures P (if b then m else ret ()) Q F X"
    if "ensures P m Q F X" "\<And>s. P s \<Longrightarrow> Q () s" for b P m Q F X
    using that by (auto simp: ensures_def)
  note keep = ensures_or_kill [OF preserves_at [OF blind_pid_and_score(1) [OF fs_blind_at]] assms(2)]
    ensures_or_kill [OF preserves_at [OF blind_pid_and_score(2) [OF fs_blind_at]] assms(2)]
  have "preserves (at_log d E l) (on_world (tty_ClosePostStart no_tty))"
    by (simp add: tty_ClosePostStart_def no_tty_def close_all_def preserves_def on_world_def zoom_def split: prod.split)
  note keep = ensures_or_kill [OF this assms(2)] keep
  show ?thesis
    unfolding after_start_def
    by (rule ensures_seq [OF keep(1)], rule ensures_seq [OF none [OF keep(2)]], assumption,
        rule ensures_seq [OF none [OF keep(3)]], assumption) (use assms(1) in \<open>simp add: ensures_def\<close>)
qed

lemma after_start_started:
  assumes "rn_create r"
  shows "ensures (\<lambda>s. started c l s \<and> p_ops p = Some (st_InitProcessPid (nc_state (fst s))))
    (after_start R H T r no_tty signals p) (\<lambda>st s. st = 0 \<and> started c l s) (\<lambda>_. ended l) (\<lambda>_. ended l)"
  unfolding ensures_def
proof (intro allI impI)
  fix s :: "nablaContainer \<times> 'n world"
  assume s: "started c l s \<and> p_ops p = Some (st_InitProcessPid (nc_state (fst s)))"
  let ?pid = "st_InitProcessPid (nc_state (fst s))"
  have at: "at_log (fst s) (w_env (snd s)) (w_log (snd s)) s" by (simp add: at_log_def)
  have log: "w_log (snd s) = l @ [Started ''/proc/self/exe'' [''/proc/self/exe'', ''init''] ?pid]"
    using s by (auto simp: started_def)
  have gone: "ended l u" if "killed (w_env (snd s)) (w_log (snd s)) ?pid u \<or> at_log (fst s) (w_env (snd s)) (w_log (snd s)) u" for u
    using that
  proof
    assume "killed (w_env (snd s)) (w_log (snd s)) ?pid u"
    then obtain a b where "w_log (snd u) = l @ [Started ''/proc/self/exe'' [''/proc/self/exe'', ''init''] ?pid] @ a @ b"
      "a \<in> {[], [Signalled ?pid SIGKILL]}" "b \<in> {[], [Reaped ?pid]}"
      unfolding killed_def log append_assoc by blast
    then show ?thesis unfolding ended_def by blast
  next
    assume "at_log (fst s) (w_env (snd s)) (w_log (snd s)) u"
    then show ?thesis unfolding ended_def at_log_def log by (intro disjI2 exI [where x = ?pid] exI [where x = "[]"]) simp
  qed
  have kept: "started c l u" if "at_log (fst s) (w_env (snd s)) (w_log (snd s)) u" for u
    using that s by (auto simp: at_log_def started_def)
  have run: "ensures (at_log (fst s) (w_env (snd s)) (w_log (snd s))) (after_start R H T r no_tty signals p)
      (\<lambda>st s. st = 0 \<and> started c l s) (\<lambda>_. ended l) (\<lambda>_. ended l)"
    by (rule ensures_weaken [OF after_start_cases [OF assms conjunct2 [OF s]]])
      (assumption, use kept in blast, use gone in blast, use gone in blast)
  show "case after_start R H T r no_tty signals p s of (Ok st, s') \<Rightarrow> st = 0 \<and> started c l s'
      | (Err e, s') \<Rightarrow> ended l s' | (Stop x, s') \<Rightarrow> ended l s'"
    by (rule run [unfolded ensures_def, rule_format, OF at])
qed

lemma ended_destroyed: "preserves (ended l) (runner_destroy H r)"
proof (rule preservesI)
  fix s q s' assume "ended l s" "runner_destroy H r s = (q, s')"
  with preservesD [OF runner_destroy_outside this(2), of "outside (snd s)"] show "ended l s'"
    by (simp add: ended_def outside_def)
qed

lemma ensures_or_destroy:
  assumes "ensures P m Q (\<lambda>_. ended l) (\<lambda>_. ended l)"
  shows "ensures P (or_destroy H r m) Q (\<lambda>_. ended l) (\<lambda>_. ended l)"
proof -
  have gone: "ensures (ended l) (seq (runner_destroy H r) (\<lambda>_. fail e)) Q (\<lambda>_. ended l) (\<lambda>_. ended l)" for e
    by (rule ensures_seq [OF ensures_kept [OF ended_destroyed]]) (simp_all add: ensures_def)
  show ?thesis unfolding or_destroy_def by (rule ensures_try_io [OF assms gone]) (simp add: ensures_def)
qed

lemma run_cases:
  assumes "rn_create r" and "StartTime_reads R" and "Subreaper_quiet R"
  shows "ensures (unstarted c l) (run R H T r signals sp) (\<lambda>st s. st = 0 \<and> started c l s) (\<lambda>_. ended l) (\<lambda>_. ended l)"
proof -
  have host: "or_destroy H r (lift_res (HostUID cfg)) = ret 0" "or_destroy H r (lift_res (HostGID cfg)) = ret 0" for cfg
    by (auto simp: HostUID_def HostGID_def or_destroy_def lift_res_def try_io_def ret_def fun_eq_iff)
  have this_c: "ensures (unstarted c l) (this f) (\<lambda>_. unstarted c l) (\<lambda>_. ended l) (\<lambda>_. ended l)"
    for f :: "nablaContainer \<Rightarrow> 'x"
    by (rule ensuresI) (auto simp: this_def split: prod.splits)
  have io: "ensures (unstarted c l) (or_destroy H r (on_world (setupIO T p u g console term True)))
      (\<lambda>a s. snd a = no_tty \<and> unstarted c l s) (\<lambda>_. ended l) (\<lambda>_. ended l)" for p u g console "term"
    by (rule ensures_or_destroy, rule ensuresI)
      (auto simp: unstarted_def ended_def split: prod.splits dest!: setupIO_detached)
  have sub: "ensures (unstarted c l) (on_world (newSignalHandler R no_tty b)) (\<lambda>t s. t = no_tty \<and> unstarted c l s)
      (\<lambda>_. ended l) (\<lambda>_. ended l)" for b
    by (rule ensuresI) (auto simp: unstarted_def ended_def split: prod.splits dest!: newSignalHandler_quiet [OF assms(3)])
  have close: "preserves P (on_world (tty_Close T no_tty))" "returns (on_world (tty_Close T no_tty))" for P
    by (auto simp: preserves_def returns_def on_world_def zoom_def no_tty_def tty_Close_def close_all_def split: prod.split)
  have main: "ensures (unstarted c l) (deferred (on_world (tty_Close T no_tty))
      (seq (or_destroy H r (start R p)) (after_start R H T r no_tty signals)))
      (\<lambda>st s. st = 0 \<and> started c l s) (\<lambda>_. ended l) (\<lambda>_. ended l)" for p
  proof (rule ensures_deferred [OF ensures_seq [OF ensures_or_destroy after_start_started]])
    show "ensures (unstarted c l) (start R p) (\<lambda>p' s. started c l s \<and> p_ops p' = Some (st_InitProcessPid (nc_state (fst s))))
        (\<lambda>_. ended l) (\<lambda>_. ended l)"
      by (rule ensures_weaken [OF start_cases [OF assms(2)]]) (auto simp: unstarted_def started_def ended_def)
  qed (use assms(1) close in auto)
  show ?thesis
    unfolding run_def Let_def host seq_ret
  proof (rule ensures_seq [OF this_c], rule ensures_seq)
    fix cfg
    show "ensures (unstarted c l) (or_destroy H r (on_world (setupIO T (listen_files (rn_listenFDs r) (newProcess sp)) 0 0
        (rn_console r) (sp_Terminal sp) (rn_detach r \<or> rn_create r))))
      (\<lambda>a s. snd a = no_tty \<and> unstarted c l s) (\<lambda>_. ended l) (\<lambda>_. ended l)"
      using io assms(1) by simp
  next
    fix a :: "Process \<times> tty"
    obtain p t where a: "a = (p, t)" by force
    have "ensures (\<lambda>s. u = no_tty \<and> unstarted c l s) (deferred (on_world (tty_Close T u))
        (seq (or_destroy H r (if rn_create r then start R p else container_Run p)) (after_start R H T r u signals)))
      (\<lambda>st s. st = 0 \<and> started c l s) (\<lambda>_. ended l) (\<lambda>_. ended l)" for u
      using main [of p] assms(1) by (cases "u = no_tty") (simp_all add: ensures_def)
    from ensures_seq [OF sub this] show "ensures (\<lambda>s. snd a = no_tty \<and> unstarted c l s)
        (case a of (p1, t0) \<Rightarrow> seq (on_world (newSignalHandler R t0 (rn_enableSubreaper r))) (\<lambda>t.
          deferred (on_world (tty_Close T t)) (seq (or_destroy H r (if rn_create r then start R p1 else container_Run p1))
            (after_start R H T r t signals))))
        (\<lambda>st s. st = 0 \<and> started c l s) (\<lambda>_. ended l) (\<lambda>_. ended l)"
      by (cases "t = no_tty") (simp_all add: a ensures_def)
  qed
qed

lemma createContainer_outside: "preserves (\<lambda>w. outside w = x) (createContainer ctx H cid spec)"
proof -
  have fac: "fac_LLCHandler l = H" if "loadFactory ctx H w = (Ok l, w')" for l w w'
    using that by (auto simp: loadFactory_def New_def seq_Ok_iff)
  have create: "preserves (\<lambda>w. outside w = x) (seq (loadFactory ctx H) (\<lambda>l. Create l cid config))" for config
  proof (intro preservesI)
    fix w r w'
    assume w: "outside w = x" and run: "seq (loadFactory ctx H) (\<lambda>l. Create l cid config) w = (r, w')"
    obtain q v where l: "loadFactory ctx H w = (q, v)" by (meson surj_pair)
    have "preserves (\<lambda>w. outside w = x) (loadFactory ctx H)"
      unfolding loadFactory_def New_def
      by (auto intro!: preserves_seq preserves_if preserves_ret blind_os_ops blind_os_more fs_blind_outside)
    from preservesD [OF this l w] have v: "outside v = x" .
    show "outside w' = x"
    proof (cases q)
      case (Ok lf)
      with l run have "Create lf cid config v = (r, w')" by simp
      with fac l Ok v show ?thesis using preservesD [OF Create_outside [of lf x cid config]] by blast
    qed (use l run v in auto)
  qed
  show ?thesis
    unfolding createContainer_def Let_def
    by (intro preserves_seq preserves_lift_res preserves_map_err create blind_os_ops fs_blind_outside)
qed

lemma startContainer_cases:
  assumes "StartTime_reads R" and "Subreaper_quiet R"
    and "startContainer ctx R H T signals spec True w = (r, w')"
  shows "case r of
      Ok st \<Rightarrow> st = 0 \<and> (\<exists>pid. w_log w' = w_log w @ [Started ''/proc/self/exe'' [''/proc/self/exe'', ''init''] pid])
    | _ \<Rightarrow> \<exists>c. ended (w_log w) (c, w')"
proof -
  have quiet: ?thesis if "w_log w' = w_log w" "\<And>st. r \<noteq> Ok st"
    using that by (cases r) (auto simp: ended_def)
  show ?thesis
  proof (cases "Args_Get ctx 0 = ''''")
    case False
    obtain q v where create: "createContainer ctx H (Args_Get ctx 0) spec w = (q, v)" by (meson surj_pair)
    have v: "w_log v = w_log w"
      using preservesD [OF createContainer_outside create, of "outside w"] by (simp add: outside_def)
    show ?thesis
    proof (cases q)
      case (Ok c)
      show ?thesis
      proof (cases "spec_Process spec")
        case None
        then show ?thesis using assms(3) create False Ok v
          by (intro quiet) (auto simp: startContainer_def Let_def)
      next
        case (Some sp)
        let ?r = "\<lparr>rn_enableSubreaper = \<not> ctx_Bool ctx ''no-subreaper'', rn_shouldDestroy = True,
          rn_detach = ctx_Bool ctx ''detach'', rn_listenFDs = [], rn_pidFile = ctx_String ctx ''pid-file'',
          rn_console = ctx_String ctx ''console'', rn_create = True\<rparr>"
        have run: "with_container c (run R H T ?r signals sp) v = (r, w')"
          using assms(3) create False Ok Some by (simp add: startContainer_def Let_def)
        obtain q' d where "run R H T ?r signals sp (c, v) = (q', (d, w'))" "q' = r"
          using run by (auto simp: with_container_def split: prod.splits)
        moreover have "unstarted c (w_log w) (c, v)" using v by (simp add: unstarted_def)
        moreover note ensuresD [OF run_cases [of ?r R c "w_log w" T signals sp], of "(c, v)"]
        ultimately show ?thesis
          using assms(1,2) by (cases r) (auto simp: started_def)
      qed
    qed (use assms(3) create False v in \<open>auto simp: startContainer_def Let_def ended_def\<close>)
  qed (use assms(3) in \<open>auto simp: startContainer_def Let_def ended_def\<close>)
qed

end

end
