(* ===== verification/CommandLine.thy ===== *)
theory CommandLine
  imports RunnerFacts Init
begin

text \<open>
  \<open>llcli/llcli.go\<close> and the \<open>new...Cmd\<close> functions beside it: the application that the command line
  package runs, with its flags, its commands and what it does before each of them; \<open>exec.go\<close>, which is
  not registered; and the templates of \<open>util.go\<close>. The package (\<open>urfave/cli\<close>) parses the arguments,
  calls \<open>Before\<close> and the action of the named command; it is the parameter \<open>run_app\<close>, and what the
  program relies on of a parsed context is \<open>parsed_for\<close>.
\<close>

subsection \<open>Templates\<close>

text \<open>\<open>strings.Replace(s, old, new, -1)\<close> for a text \<open>old\<close> that is not empty.\<close>

fun ReplaceAll :: "string \<Rightarrow> string \<Rightarrow> string \<Rightarrow> string" where
  "ReplaceAll old nw [] = []"
| "ReplaceAll old nw (c # s) =
     (if old \<noteq> [] \<and> HasPrefix (c # s) old then nw @ ReplaceAll old nw (drop (length old - 1) s)
      else c # ReplaceAll old nw s)"

text \<open>The parameters are the entries of the map, in the order in which it is walked.\<close>

definition stprintf :: "string \<Rightarrow> (string \<times> string) list \<Rightarrow> string" where
  "stprintf format params = fold (\<lambda>(key, val) f. ReplaceAll (''{{'' @ key @ ''}}'') val f) params format"

definition createSubst :: "(string \<times> string) list \<Rightarrow> string \<Rightarrow> string" where
  "createSubst params = (\<lambda>inputStr. stprintf inputStr params)"

definition text_lines :: "string list \<Rightarrow> string" where
  "text_lines ls = join_with [CHR 0x0A] ls"

subsection \<open>Flags and commands\<close>

text \<open>A flag with its names as written, its default where it has one, its help text and whether it is hidden.\<close>

datatype cliFlag =
    BoolFlag string string bool
  | StringFlag string string string
  | IntFlag string string
  | StringSliceFlag string string
  | Int64SliceFlag string string

fun flag_Name :: "cliFlag \<Rightarrow> string" where
  "flag_Name (BoolFlag n u h) = n"
| "flag_Name (StringFlag n v u) = n"
| "flag_Name (IntFlag n u) = n"
| "flag_Name (StringSliceFlag n u) = n"
| "flag_Name (Int64SliceFlag n u) = n"

fun split_comma :: "string \<Rightarrow> string list" where
  "split_comma [] = [[]]"
| "split_comma (c # cs) =
     (if c = CHR '','' then [] # split_comma cs
      else (case split_comma cs of [] \<Rightarrow> [[c]] | w # ws \<Rightarrow> (c # w) # ws))"

text \<open>A flag answers to each of the names that its text lists between commas.\<close>

definition flag_names :: "cliFlag \<Rightarrow> string list" where
  "flag_names f = map (dropWhile (\<lambda>c. c = CHR '' '')) (split_comma (flag_Name f))"

record 'n Command =
  cm_Name :: string
  cm_Usage :: string
  cm_ArgsUsage :: string
  cm_Description :: string
  cm_Flags :: "cliFlag list"
  cm_Action :: "cliContext \<Rightarrow> ('n world, unit) io"
  cm_SkipArgReorder :: bool

record logger =
  log_Debug :: bool
  log_Output :: "path option"
  log_JSON :: bool

record 'n App =
  app_Name :: string
  app_Usage :: string
  app_Version :: string
  app_Flags :: "cliFlag list"
  app_Commands :: "'n Command list"
  app_Before :: "cliContext \<Rightarrow> ('n world, logger) io"

text \<open>The names under which a value, or a truth value, of a command can be read.\<close>

definition string_names :: "cliFlag list \<Rightarrow> string list" where
  "string_names fs = concat (map (\<lambda>f. case f of StringFlag _ _ _ \<Rightarrow> flag_names f | _ \<Rightarrow> []) fs)"

definition bool_names :: "cliFlag list \<Rightarrow> string list" where
  "bool_names fs = concat (map (\<lambda>f. case f of BoolFlag _ _ _ \<Rightarrow> flag_names f | _ \<Rightarrow> []) fs)"

text \<open>
  The package's documented lookup: a flag that the command does not declare has no value, and reads as
  the empty text or as false.
\<close>

definition parsed_for :: "cliFlag list \<Rightarrow> cliContext \<Rightarrow> bool" where
  "parsed_for fs ctx \<longleftrightarrow> fst ` set (ctx_Strings ctx) \<subseteq> set (string_names fs)
     \<and> fst ` set (ctx_Bools ctx) \<subseteq> set (bool_names fs)"

lemma undeclared_String: "parsed_for fs ctx \<Longrightarrow> k \<notin> set (string_names fs) \<Longrightarrow> ctx_String ctx k = ''''"
  by (auto simp: parsed_for_def ctx_String_def split: option.split dest!: map_of_SomeD)

lemma undeclared_Bool: "parsed_for fs ctx \<Longrightarrow> k \<notin> set (bool_names fs) \<Longrightarrow> \<not> ctx_Bool ctx k"
  by (auto simp: parsed_for_def ctx_Bool_def dest!: map_of_SomeD)


subsection \<open>The commands\<close>

text \<open>\<open>sf\<close> is the substitution of the program's name in the help texts.\<close>

definition newCreateCmd ::
  "'n runclib \<Rightarrow> 'n RunllcHandler \<Rightarrow> 'n termlib \<Rightarrow> schedule \<Rightarrow> (string \<Rightarrow> string) \<Rightarrow> 'n Command" where
  \<open>newCreateCmd R H T signals sf = \<lparr>cm_Name = ''create'', cm_Usage = ''create a container'',
     cm_ArgsUsage = sf (text_lines [''<container-id>'', '''',
       ''Where "<container-id>" is your name for the instance of the container that you'',
       ''are starting. The name you provide for the container instance must be unique on'',
       ''your host.'']),
     cm_Description = sf (text_lines [''The create command creates an instance of a container for a bundle. The bundle'',
       ''is a directory with a specification file named "'' @ specConfig @ ''" and a root'',
       ''filesystem.'', '''',
       ''The specification file includes an args parameter. The args parameter is used'',
       ''to specify command(s) that get run when the container is started.'', '''']),
     cm_Flags = [
       StringFlag ''bundle, b'' '''' ''path to the root of the bundle directory, defaults to the current directory'',
       StringFlag ''console-socket'' '''' ''path to an AF_UNIX socket which will receive a file descriptor referencing the master end of the console's pseudoterminal'',
       StringFlag ''pid-file'' '''' ''specify the file to write the process id to'',
       BoolFlag ''no-pivot'' ''do not use pivot root to jail process inside rootfs.  This should be used whenever the rootfs is on top of a ramdisk'' False,
       BoolFlag ''no-new-keyring'' ''do not create a new session keyring for the container.  This will cause the container to inherit the calling processes session key'' False,
       IntFlag ''preserve-fds'' ''Pass N additional file descriptors to the container (stdio + $LISTEN_FDS + N in total)''],
     cm_Action = \<lambda>ctx. create_action ctx R H T signals, cm_SkipArgReorder = False\<rparr>\<close>

definition newDeleteCmd :: "'n runclib \<Rightarrow> 'n RunllcHandler \<Rightarrow> (string \<Rightarrow> string) \<Rightarrow> 'n Command" where
  \<open>newDeleteCmd R H sf = \<lparr>cm_Name = ''delete'',
     cm_Usage = ''delete any resources held by the container often used with detached container'',
     cm_ArgsUsage = sf (text_lines [''<container-id>'', '''',
       ''Where "<container-id>" is the name for the instance of the container.'', '''',
       ''EXAMPLE:'',
       ''For example, if the container id is "ubuntu01" and {{name}} list currently shows the'',
       ''status of "ubuntu01" as "stopped" the following will delete resources held for'',
       ''"ubuntu01" removing "ubuntu01" from the {{name}} list of containers:'', '''',
       ''       # {{name}} delete ubuntu01'']),
     cm_Description = '''',
     cm_Flags = [BoolFlag ''force, f'' ''Forcibly deletes the container if it is still running (uses SIGKILL)'' False],
     cm_Action = \<lambda>ctx. delete_action ctx R H, cm_SkipArgReorder = False\<rparr>\<close>

text \<open>What \<open>state\<close> writes to the standard output is the value its action returns.\<close>

definition newStateCmd :: "'n runclib \<Rightarrow> 'n RunllcHandler \<Rightarrow> (string \<Rightarrow> string) \<Rightarrow> 'n Command" where
  \<open>newStateCmd R H sf = \<lparr>cm_Name = ''state'', cm_Usage = ''output the state of a container'',
     cm_ArgsUsage = sf (text_lines [''<container-id>'', '''',
       ''Where "<container-id>" is your name for the instance of the container.'']),
     cm_Description = sf (text_lines [''The state command outputs current state information for the'',
       ''instance of a container.'']),
     cm_Flags = [], cm_Action = \<lambda>ctx. seq (state_action ctx R H) (\<lambda>_. ret ()), cm_SkipArgReorder = False\<rparr>\<close>

definition newStartCmd :: "'n runclib \<Rightarrow> 'n RunllcHandler \<Rightarrow> (string \<Rightarrow> string) \<Rightarrow> 'n Command" where
  \<open>newStartCmd R H sf = \<lparr>cm_Name = ''start'',
     cm_Usage = ''executes the user defined process in a created container'',
     cm_ArgsUsage = sf (text_lines [''<container-id>'', '''',
       ''Where "<container-id>" is your name for the instance of the container that you'',
       ''are starting. The name you provide for the container instance must be unique on'',
       ''your host.'']),
     cm_Description = sf ''The start command executes the user defined process in a created container.'',
     cm_Flags = [], cm_Action = \<lambda>ctx. start_action ctx R H, cm_SkipArgReorder = False\<rparr>\<close>

definition newKillCmd :: "'n RunllcHandler \<Rightarrow> (string \<Rightarrow> string) \<Rightarrow> 'n Command" where
  \<open>newKillCmd H sf = \<lparr>cm_Name = ''kill'',
     cm_Usage = ''kill sends the specified signal (default: SIGTERM) to the container's init process'',
     cm_ArgsUsage = sf (text_lines [''<container-id> [signal]'', '''',
       ''Where "<container-id>" is the name for the instance of the container and'',
       ''"[signal]" is the signal to be sent to the init process.'', '''',
       ''EXAMPLE:'',
       ''For example, if the container id is "ubuntu01" the following will send a "KILL"'',
       ''signal to the init process of the "ubuntu01" container:'',
       [CHR 0x09, CHR 0x20],
       ''       # {{name}} kill ubuntu01 KILL'']),
     cm_Description = '''',
     cm_Flags = [BoolFlag ''all, a'' ''send the specified signal to all processes inside the container'' False],
     cm_Action = \<lambda>ctx. kill_action ctx H, cm_SkipArgReorder = False\<rparr>\<close>

definition newInitCmd :: "'n initlib \<Rightarrow> inherited \<Rightarrow> 'n RunllcHandler \<Rightarrow> (string \<Rightarrow> string) \<Rightarrow> 'n Command" where
  \<open>newInitCmd N I H sf = \<lparr>cm_Name = ''init'',
     cm_Usage = sf ''initialize the namespaces and launch the process (do not call it outside of {{name}})'',
     cm_ArgsUsage = '''', cm_Description = '''', cm_Flags = [],
     cm_Action = \<lambda>ctx. init_action N I H, cm_SkipArgReorder = False\<rparr>\<close>

text \<open>Not registered: its flags are those of runc, its action refuses.\<close>

definition newExecCmd :: "'n Command" where
  \<open>newExecCmd = \<lparr>cm_Name = ''exec'', cm_Usage = ''execute new process inside the container'',
     cm_ArgsUsage = text_lines [''<container-id> <command> [command options]  || -p process.json <container-id>'', '''',
       ''Where "<container-id>" is the name for the instance of the container and'',
       ''"<command>" is the command to be executed in the container.'',
       ''"<command>" can't be empty unless a "-p" flag provided.'', '''',
       ''EXAMPLE:'',
       ''For example, if the container is configured to run the linux ps command the'',
       ''following will output a list of processes running in the container:'', '''',
       ''       # {{name}} exec <container-id> ps''],
     cm_Description = '''',
     cm_Flags = [
       StringFlag ''console-socket'' '''' ''path to an AF_UNIX socket which will receive a file descriptor referencing the master end of the console's pseudoterminal'',
       StringFlag ''cwd'' '''' ''current working directory in the container'',
       StringSliceFlag ''env, e'' ''set environment variables'',
       BoolFlag ''tty, t'' ''allocate a pseudo-TTY'' False,
       StringFlag ''user, u'' '''' ''UID (format: <uid>[:<gid>])'',
       Int64SliceFlag ''additional-gids, g'' ''additional gids'',
       StringFlag ''process, p'' '''' ''path to the process.json'',
       BoolFlag ''detach,d'' ''detach from the container's process'' False,
       StringFlag ''pid-file'' '''' ''specify the file to write the process id to'',
       StringFlag ''process-label'' '''' ''set the asm process label for the process commonly used with selinux'',
       StringFlag ''apparmor'' '''' ''set the apparmor profile for the process'',
       BoolFlag ''no-new-privs'' ''set the no new privileges value for the process'' False,
       StringSliceFlag ''cap, c'' ''add a capability to the bounding set for the process'',
       BoolFlag ''no-subreaper'' ''disable the use of the subreaper used to reap reparented processes'' True],
     cm_Action = \<lambda>ctx. fail (Msg ''OCI Exec Not Implemented''), cm_SkipArgReorder = True\<rparr>\<close>

subsection \<open>The application\<close>

definition usage :: string where
  \<open>usage = text_lines [''Nabla Containers runtime'', '''',
     ''{{name}} is a command line client for running applications packaged according to'',
     ''the Open Container Initiative (OCI) format.'', '''',
     ''Containers are configured using bundles. A bundle for a container is a directory'',
     ''that includes a specification file named "'' @ specConfig @ ''" and a root filesystem.'',
     ''The root filesystem contains the contents of the container.'', '''',
     ''To start a new instance of a container:'', '''',
     ''    # {{name}} run [ -b bundle ] <container-id>'', '''',
     ''Where "<container-id>" is your name for the instance of the container that you'',
     ''are starting. The name you provide for the container instance must be unique on'',
     ''your host. Providing the bundle directory using "-b" is optional. The default'',
     ''value for "bundle" is the current directory.'']\<close>

text \<open>The version and the commit are set when the program is built, the last is that of \<open>specs-go\<close>.\<close>

definition version_text :: "string \<Rightarrow> string \<Rightarrow> string \<Rightarrow> string" where
  "version_text version gitCommit specVersion = text_lines (
     (if version \<noteq> '''' then [version] else []) @
     (if gitCommit \<noteq> '''' then [''commit: '' @ gitCommit] else []) @ [''spec: '' @ specVersion])"

definition global_flags :: "string \<Rightarrow> cliFlag list" where
  \<open>global_flags root = [
     BoolFlag ''debug'' ''enable debug output for logging'' False,
     StringFlag ''log'' ''/dev/null'' ''set the log file path where internal debug information is written'',
     StringFlag ''log-format'' ''text'' ''set the format used by logs ('text' (default), or 'json')'',
     StringFlag ''root'' root ''root directory for storage of container state (this should be located in tmpfs)'']\<close>

text \<open>
  \<open>os.OpenFile(path, O_CREATE|O_WRONLY|O_APPEND|O_SYNC, 0666)\<close>: what is there is kept; a FIFO waits for
  its reader.
\<close>

definition os_OpenAppend :: "string \<Rightarrow> mode \<Rightarrow> ('n world, path) io" where
  "os_OpenAppend p m = at_path p (\<lambda>q. syscall (OpOpen q) (\<lambda>w. case fs_get w q of
       Some n \<Rightarrow> if i_kind n = KDir then (Err (Errno EISDIR), w)
                  else if i_kind n = KFifo \<and> \<not> e_reader (w_env w) (w_tick w) q then (Stop (Blocked ''fifo''), w)
                  else (Ok q, w)
     | None \<Rightarrow> seq (create_entry (KFile '''') m q) (\<lambda>_. ret q) w))"

text \<open>What is printed of an error that \<open>Before\<close> returns is left out.\<close>

definition app_before :: "cliContext \<Rightarrow> ('n world, logger) io" where
  "app_before ctx =
     (let path = ctx_GlobalString ctx ''log''; format = ctx_GlobalString ctx ''log-format'' in
      seq (if path \<noteq> '''' then seq (os_OpenAppend path (octal3 6 6 6)) (\<lambda>f. ret (Some f)) else ret None) (\<lambda>out.
      if format = ''text'' then
        ret \<lparr>log_Debug = ctx_GlobalBool ctx ''debug'', log_Output = out, log_JSON = False\<rparr>
      else if format = ''json'' then
        ret \<lparr>log_Debug = ctx_GlobalBool ctx ''debug'', log_Output = out, log_JSON = True\<rparr>
      else fail (Msg (''unknown log-format '' @ quoted format))))"

text \<open>What the package prints of errors goes through this writer: it is logged, then written.\<close>

definition FatalWriter_Write :: "(string \<Rightarrow> ('n world, unit) io) \<Rightarrow> (string \<Rightarrow> ('n world, nat) io) \<Rightarrow> string \<Rightarrow> ('n world, nat) io" where
  "FatalWriter_Write log_Error cliErrWriter p = seq (log_Error p) (\<lambda>_. cliErrWriter p)"

definition app_commands ::
  "'n runclib \<Rightarrow> 'n RunllcHandler \<Rightarrow> 'n termlib \<Rightarrow> 'n initlib \<Rightarrow> inherited \<Rightarrow> schedule \<Rightarrow> (string \<Rightarrow> string) \<Rightarrow>
   'n Command list" where
  "app_commands R H T N I signals strFn = [newCreateCmd R H T signals strFn, newDeleteCmd R H strFn,
     newStateCmd R H strFn, newStartCmd R H strFn, newKillCmd H strFn, newInitCmd N I H strFn]"

text \<open>\<open>run_app\<close> is the package's \<open>app.Run\<close>; \<open>build\<close> are the version, the commit and the version of the specification.\<close>

definition Runllc ::
  "('n App \<Rightarrow> string list \<Rightarrow> ('n world, unit) io) \<Rightarrow> string \<times> string \<times> string \<Rightarrow> 'n runclib \<Rightarrow> 'n termlib \<Rightarrow>
   'n initlib \<Rightarrow> inherited \<Rightarrow> schedule \<Rightarrow> string list \<Rightarrow> string \<Rightarrow> string \<Rightarrow> 'n RunllcHandler \<Rightarrow> ('n world, unit) io" where
  "Runllc run_app build R T N I signals args runtimeName runtimeRoot H =
     (let strFn = createSubst [(''name'', runtimeName)];
          app = \<lparr>app_Name = runtimeName, app_Usage = strFn usage,
            app_Version = (case build of (version, gitCommit, specVersion) \<Rightarrow> version_text version gitCommit specVersion),
            app_Flags = global_flags runtimeRoot, app_Commands = app_commands R H T N I signals strFn,
            app_Before = app_before\<rparr>
      in try_io (run_app app args) fatal ret)"

text \<open>\<open>main\<close> of \<open>runnc.go\<close>: the handlers' constructors cannot fail.\<close>

definition main ::
  "('n App \<Rightarrow> string list \<Rightarrow> ('n world, unit) io) \<Rightarrow> string \<times> string \<times> string \<Rightarrow> 'n runclib \<Rightarrow> 'n termlib \<Rightarrow>
   'n initlib \<Rightarrow> inherited \<Rightarrow> schedule \<Rightarrow> 'n netlink \<Rightarrow> string list \<Rightarrow> ('n world, unit) io" where
  "main run_app build R T N I signals nl args =
     Runllc run_app build R T N I signals args ''runnc'' ''/run/runnc'' (nablaLLCHandler nl)"

subsection \<open>What the commands read\<close>

lemma create_reads [simp]:
  "string_names (cm_Flags (newCreateCmd R H T signals sf)) = [''bundle'', ''b'', ''console-socket'', ''pid-file'']"
  "bool_names (cm_Flags (newCreateCmd R H T signals sf)) = [''no-pivot'', ''no-new-keyring'']"
  by (simp_all add: newCreateCmd_def string_names_def bool_names_def flag_names_def)

lemma app_names:
  "map cm_Name (app_commands R H T N I signals strFn) = [''create'', ''delete'', ''state'', ''start'', ''kill'', ''init'']"
  by (simp add: app_commands_def newCreateCmd_def newDeleteCmd_def newStateCmd_def newStartCmd_def newKillCmd_def newInitCmd_def)

text \<open>
  A process with a terminal: \<open>create\<close> declares no flag for a console's path, and refuses after it has
  created the container.
\<close>

lemma setupIO_refuses: "setupIO T p u g '''' True True = fail (Msg ''cannot allocate tty if runc will detach'')"
  by (simp add: setupIO_def)

context runllc
begin

lemma or_destroy_fails:
  assumes "or_destroy H r (fail e) s = (q, s')"
  shows "outside (snd s') = outside (snd s) \<and> (q = Err e \<or> (\<exists>x. q = Stop x))"
proof -
  obtain q0 s0 where d: "runner_destroy H r s = (q0, s0)" by (meson surj_pair)
  have "q0 \<noteq> Err e'" for e'
    using d by (cases "destroy H s"; cases "fst (destroy H s)") (auto simp: runner_destroy_def destroy_logged_def ignore_result split: if_splits)
  then show ?thesis
    using preservesD [OF runner_destroy_outside d refl] assms d by (cases q0) (auto simp: or_destroy_def)
qed

lemma run_terminal:
  assumes "rn_create r" and "rn_console r = ''''" and "sp_Terminal sp"
    and "run R H T r signals sp (c, w) = (q, (c', w'))"
  shows "outside w' = outside w \<and> (q = Err (Msg ''cannot allocate tty if runc will detach'') \<or> (\<exists>x. q = Stop x))"
proof -
  let ?e = "Msg ''cannot allocate tty if runc will detach''"
  have host: "or_destroy H r (lift_res (HostUID cfg)) = ret 0" "or_destroy H r (lift_res (HostGID cfg)) = ret 0" for cfg
    by (auto simp: HostUID_def HostGID_def or_destroy_def lift_res_def try_io_def ret_def fun_eq_iff)
  have lift: "on_world (fail ?e) = fail ?e" by (auto simp: fun_eq_iff)
  obtain k :: "Process \<times> tty \<Rightarrow> _" where run: "run R H T r signals sp (c, w) = seq (or_destroy H r (fail ?e)) k (c, w)"
  proof (rule that)
    show "run R H T r signals sp (c, w) = seq (or_destroy H r (fail ?e)) (\<lambda>(p1, t0).
        seq (on_world (newSignalHandler R t0 (rn_enableSubreaper r))) (\<lambda>t. deferred (on_world (tty_Close T t))
          (seq (or_destroy H r (start R p1)) (after_start R H T r t signals)))) (c, w)"
      using assms(1-3) unfolding run_def Let_def host seq_ret by (simp add: setupIO_refuses lift)
  qed
  obtain q0 :: "(Process \<times> tty) res" and s0 where fails: "or_destroy H r (fail ?e) (c, w) = (q0, s0)" by (meson surj_pair)
  from or_destroy_fails [OF this] run fails assms(4) show ?thesis by (auto simp: seq_def try_io_def)
qed

lemma startContainer_terminal:
  assumes "ctx_String ctx ''console'' = ''''" and "spec_Process spec = Some sp" and "sp_Terminal sp"
    and "startContainer ctx R H T signals spec True w = (r, w')"
  shows "outside w' = outside w \<and> (\<forall>st. r \<noteq> Ok st)
    \<and> (\<forall>c v e. createContainer ctx H (Args_Get ctx 0) spec w = (Ok c, v) \<longrightarrow> Args_Get ctx 0 \<noteq> '''' \<longrightarrow> r = Err e \<longrightarrow>
        e = Msg ''cannot allocate tty if runc will detach'')"
proof (cases "Args_Get ctx 0 = ''''")
  case False
  obtain q v where create: "createContainer ctx H (Args_Get ctx 0) spec w = (q, v)" by (meson surj_pair)
  have v: "outside v = outside w"
    using preservesD [OF createContainer_outside create refl] .
  show ?thesis
  proof (cases q)
    case (Ok c)
    let ?r = "\<lparr>rn_enableSubreaper = \<not> ctx_Bool ctx ''no-subreaper'', rn_shouldDestroy = True,
      rn_detach = ctx_Bool ctx ''detach'', rn_listenFDs = [], rn_pidFile = ctx_String ctx ''pid-file'',
      rn_console = ctx_String ctx ''console'', rn_create = True\<rparr>"
    obtain q' d u where run: "run R H T ?r signals sp (c, v) = (q', (d, u))"
      by (metis surj_pair)
    have "(r, w') = (q', u)"
      using assms(2,4) create False Ok run by (simp add: startContainer_def Let_def)
    with run_terminal [OF _ _ assms(3) run] assms(1) v create Ok show ?thesis by auto
  qed (use assms(4) create False v in \<open>auto simp: startContainer_def Let_def\<close>)
qed (use assms(4) in \<open>auto simp: startContainer_def Let_def\<close>)

end

text \<open>The log is opened for appending: nothing that is there is touched.\<close>

lemma create_entry_keeps: "fs_get w q = Some n \<Longrightarrow> fs_get (snd (create_entry k m p w)) q = Some n"
  by (auto simp: create_entry_def exists_at_def split: if_splits)

lemma os_OpenAppend_keeps: "preserves (\<lambda>w. fs_get w q = Some n) (os_OpenAppend p m)"
proof (rule preservesI)
  fix w r w' assume w: "fs_get w q = Some n" and run: "os_OpenAppend p m w = (r, w')"
  show "fs_get w' q = Some n"
    using w run create_entry_keeps [of "w\<lparr>w_tick := Suc (w_tick w)\<rparr>" q n "KFile ''''" m "resolve (w_cwd w) p"]
    by (auto simp: os_OpenAppend_def at_path_def syscall_def Let_def seq_def try_io_def ret_def
        split: if_splits option.splits prod.splits res.splits)
qed

lemma os_OpenAppend_Ok:
  "os_OpenAppend p m w = (Ok f, w') \<Longrightarrow> p \<noteq> '''' \<and> f = resolve (w_cwd w) p \<and> fs_get w' f \<noteq> None"
  by (auto simp: os_OpenAppend_def at_path_def syscall_def Let_def seq_Ok_iff create_entry_def
      split: if_splits option.splits)

end
