(* ===== verification/TypedState.thy ===== *)
theory TypedState
  imports FactoryFacts
begin

text \<open>
  The invariant of the values a container keeps: the ranges and forms that Go's types and the
  decoder guarantee of a \<open>State\<close>, kept by every method of the object. A state in this form can always
  be written and read back; the reading differs from what was written in the order of the options and
  in the in-memory objects only.
\<close>

subsection \<open>Well-formed states\<close>

definition LLState_typed :: "LLState \<Rightarrow> bool" where
  "LLState_typed l = distinct (map fst (ll_Options l))"

definition State_typed :: "State \<Rightarrow> bool" where
  "State_typed s = (int64_ok (st_InitProcessPid s) \<and> rfc3339_ok (st_Created s) \<and> Config_ok (st_Config s)
     \<and> LLState_typed (st_FsState s) \<and> LLState_typed (st_NetworkState s) \<and> LLState_typed (st_ExecState s)
     \<and> Status_ok (st_Status s))"

text \<open>What is read back: the options by key, no in-memory objects.\<close>

definition saved_LLState :: "LLState \<Rightarrow> LLState" where
  "saved_LLState l = \<lparr>ll_Options = sort_key fst (ll_Options l), ll_InMemoryObjects = []\<rparr>"

definition saved_form :: "State \<Rightarrow> State" where
  "saved_form s = s\<lparr>st_FsState := saved_LLState (st_FsState s), st_NetworkState := saved_LLState (st_NetworkState s),
     st_ExecState := saved_LLState (st_ExecState s)\<rparr>"

lemma saved_form_fields [simp]:
  "st_ID (saved_form s) = st_ID s" "st_InitProcessPid (saved_form s) = st_InitProcessPid s"
  "st_InitProcessStartTime (saved_form s) = st_InitProcessStartTime s" "st_Created (saved_form s) = st_Created s"
  "st_Config (saved_form s) = st_Config s" "st_Status (saved_form s) = st_Status s"
  by (simp_all add: saved_form_def)

lemma distinct_sort_keys [simp]: "distinct (map fst (sort_key fst al)) = distinct (map fst al)"
  by (simp add: distinct_map)

lemma saved_LLState_options:
  "LLState_typed l \<Longrightarrow> map_of (ll_Options (saved_LLState l)) = map_of (ll_Options l)"
  by (simp add: saved_LLState_def LLState_typed_def map_of_inject_set)

lemma saved_LLState_ok: "LLState_typed l \<Longrightarrow> LLState_ok (saved_LLState l)"
  by (simp add: saved_LLState_def LLState_typed_def LLState_ok_def)

lemma enc_saved_LLState [simp]: "enc_LLState (saved_LLState l) = enc_LLState l"
  by (simp add: saved_LLState_def enc_LLState_def sort_key_id_if_sorted)

lemma enc_saved_form [simp]: "enc_State (saved_form s) = enc_State s"
  by (simp add: enc_State_def saved_form_def)

lemma saved_form_ok: "State_typed s \<Longrightarrow> State_ok (saved_form s)"
  by (simp add: State_typed_def State_ok_def saved_form_def saved_LLState_ok)

lemma dec_enc_typed: "State_typed s \<Longrightarrow> dec_State (enc_State s) = Some (saved_form s)"
  using dec_State_enc [OF saved_form_ok] by simp

lemma saved_form_typed: "State_typed s \<Longrightarrow> State_typed (saved_form s)"
  by (simp add: State_typed_def saved_form_def LLState_typed_def saved_LLState_def)

subsection \<open>The decoder gives well-formed states\<close>

lemma Atoi_int64: "Atoi s = Some i \<Longrightarrow> int64_ok i"
  by (auto simp: Atoi_def Let_def split: if_splits)

lemma dec_int_range: "dec_int j = Some i \<Longrightarrow> int64_ok i"
  by (cases j) (auto simp: int64_ok_def dest: Atoi_int64 [unfolded int64_ok_def])

lemma those_of_all: "those_of d js = Some xs \<Longrightarrow> (\<And>j x. d j = Some x \<Longrightarrow> Q x) \<Longrightarrow> list_all Q xs"
  by (induction js arbitrary: xs) (auto split: option.splits)

lemma dec_list_all: "dec_list d j = Some xs \<Longrightarrow> (\<And>j x. d j = Some x \<Longrightarrow> Q x) \<Longrightarrow> list_all Q xs"
  by (cases j) (auto intro: those_of_all)

lemma dec_ptr_all: "dec_ptr d j = Some (Some x) \<Longrightarrow> (\<And>j x. d j = Some x \<Longrightarrow> Q x) \<Longrightarrow> Q x"
  by (auto simp: dec_ptr_def split: if_splits)

lemma dec_struct_all: "dec_struct f j = Some x \<Longrightarrow> (\<And>ms x. f ms = Some x \<Longrightarrow> Q x) \<Longrightarrow> Q x"
  by (cases j) auto

lemma dec_Hook_typed: "dec_Hook j = Some h \<Longrightarrow> Hook_ok h"
  unfolding dec_Hook_def
  by (erule dec_struct_all) (auto simp: Hook_ok_def split: Option.bind_splits option.split dest: dec_ptr_all [OF _ dec_int_range])

lemma dec_Hooks_typed: "dec_Hooks j = Some h \<Longrightarrow> Hooks_ok h"
  unfolding dec_Hooks_def
  by (erule dec_struct_all) (auto simp: Hooks_ok_def split: Option.bind_splits dest: dec_list_all [OF _ dec_Hook_typed])

lemma dec_Config_typed: "dec_Config j = Some c \<Longrightarrow> Config_ok c"
  unfolding dec_Config_def
  by (erule dec_struct_all)
    (auto simp: Config_ok_def split: Option.bind_splits option.split dest: dec_int_range dec_ptr_all [OF _ dec_Hooks_typed])

lemma distinct_fold_update:
  "distinct (map fst acc) \<Longrightarrow> distinct (map fst (fold (\<lambda>(k, v). AList.update k v) al acc))"
  by (induction al arbitrary: acc) (auto simp: distinct_update)

lemma dec_LLState_typed: "dec_LLState j = Some l \<Longrightarrow> LLState_typed l"
proof (unfold dec_LLState_def, erule dec_struct_all)
  fix ms l assume "map_option (\<lambda>opts. \<lparr>ll_Options = opts, ll_InMemoryObjects = []\<rparr>) (dec_options (field ''options'' ms)) = Some l"
  moreover have "dec_options j = Some opts \<Longrightarrow> distinct (map fst opts)" for j opts
    unfolding dec_options_def by (erule dec_struct_all) (auto simp: distinct_fold_update)
  ultimately show "LLState_typed l" by (auto simp: LLState_typed_def)
qed

lemma int_Status_ok: "int64_ok n \<Longrightarrow> Status_ok (int_Status n)"
  by (auto simp: Status_ok_def int_Status_def int64_ok_def)

lemma dec_time_ok: "dec_time j = Some t \<Longrightarrow> rfc3339_ok t"
proof (cases j)
  case JNull
  moreover have "rfc3339_ok zero_time" by code_simp
  ultimately show "dec_time j = Some t \<Longrightarrow> rfc3339_ok t" by simp
qed (auto split: if_splits)

lemma dec_State_typed: "dec_State j = Some s \<Longrightarrow> State_typed s"
  unfolding dec_State_def
  by (erule dec_struct_all)
    (auto simp: State_typed_def int_Status_ok split: Option.bind_splits
      dest: dec_int_range dec_time_ok dec_Config_typed dec_LLState_typed)

lemma dec_State_ptr_typed: "dec_State_ptr j = Some (Some s) \<Longrightarrow> State_typed s"
  unfolding dec_State_ptr_def by (erule dec_ptr_all) (rule dec_State_typed)

text \<open>What is written depends on the saved form only, so a well-formed state is loaded as that.\<close>

lemma write_saved_form: "write_state R root (saved_form s) = write_state R root s"
  by (simp add: write_state_def)

lemma load_after_save_typed:
  assumes "WriteJSON_encodes R" and "State_typed s" and "IsAbs (fac_Root l)"
    and "write_state R (Join [fac_Root l, cid]) s w = (Ok (), w')"
    and "regular_at w (resolve (w_cwd w) (Join [Join [fac_Root l, cid], stateFilename]))"
  shows "fst (Load l cid w') = Ok \<lparr>nc_id = cid, nc_root = Join [fac_Root l, cid], nc_config = st_Config s,
      nc_state = saved_form s\<rparr> \<or> fault_answer (fst (Load l cid w'))"
proof -
  have "write_state R (Join [fac_Root l, cid]) (saved_form s) w = (Ok (), w')"
    using assms(4) by (simp only: write_saved_form)
  from load_after_save [OF assms(1) saved_form_ok [OF assms(2)] assms(3) this assms(5)] show ?thesis
    by (simp only: saved_form_fields)
qed

subsection \<open>The object\<close>

definition container_typed :: "nablaContainer \<Rightarrow> bool" where
  "container_typed c \<longleftrightarrow> nc_config c = st_Config (nc_state c) \<and> State_typed (nc_state c)"

text \<open>What the kernel and the clock give: process ids of an \<open>int\<close>, times in their text form.\<close>

definition env_typed :: "env \<Rightarrow> bool" where
  "env_typed E \<longleftrightarrow> (\<forall>t. int64_ok (e_spawn E t) \<and> rfc3339_ok (e_now E t))"

definition typed_at :: "env \<Rightarrow> nablaContainer \<times> 'n world \<Rightarrow> bool" where
  "typed_at E s \<longleftrightarrow> container_typed (fst s) \<and> w_env (snd s) = E"

lemma fs_blind_world_env: "fs_blind (\<lambda>w. w_env w = E)"
  by (simp add: fs_blind_def)

lemma typed_on_world: "preserves (\<lambda>w. w_env w = E) m \<Longrightarrow> preserves (typed_at E) (on_world m)"
  by (rule preservesI) (auto simp: typed_at_def split: prod.splits dest: preservesD)

lemma typed_set_state:
  assumes "\<And>s. State_typed s \<Longrightarrow> State_typed (f s)" and "\<And>s. st_Config (f s) = st_Config s"
  shows "preserves (typed_at E) (set_state f)"
  using assms by (auto simp: preserves_def typed_at_def container_typed_def)

lemma preserves_seq_value:
  assumes "preserves P m" and "\<And>a s s'. P s \<Longrightarrow> m s = (Ok a, s') \<Longrightarrow> preserves P (k a)"
  shows "preserves P (seq m k)"
proof (rule preservesI)
  fix s r s' assume P: "P s" and run: "seq m k s = (r, s')"
  obtain x t where m: "m s = (x, t)" by force
  with assms(1) P have "P t" by (auto dest: preservesD)
  then show "P s'" using run m assms(2) [OF P] by (cases x) (auto dest: preservesD)
qed

lemma env_write_state: "preserves (\<lambda>w. w_env w = E) (write_state R root s)"
  by (rule write_state_pres(1) [OF fs_blind_world_env])

lemma typed_saveState: "preserves (typed_at E) (saveState R)"
  unfolding saveState_def by (intro preserves_seq preserves_this typed_on_world env_write_state)

lemma State_typed_updates:
  "State_typed s \<Longrightarrow> Status_ok x \<Longrightarrow> State_typed (s\<lparr>st_Status := x\<rparr>)"
  "State_typed s \<Longrightarrow> int64_ok pid \<Longrightarrow> rfc3339_ok t \<Longrightarrow> Status_ok x \<Longrightarrow>
    State_typed (s\<lparr>st_InitProcessPid := pid, st_Created := t, st_Status := x\<rparr>)"
  "State_typed s \<Longrightarrow> State_typed (s\<lparr>st_InitProcessStartTime := u\<rparr>)"
  by (simp_all add: State_typed_def)

lemma Status_ok_known [simp]: "Status_ok Created" "Status_ok Running" "Status_ok Stopped"
  by (simp_all add: Status_ok_def int_Status_def int64_ok_def)

lemma typed_currentState:
  "preserves (typed_at E) (currentState R)" "preserves (typed_at E) (currentStatus R)"
proof -
  show "preserves (typed_at E) (currentState R)"
    unfolding currentState_def
    by (intro preserves_seq preserves_this preserves_try_io preserves_ignore typed_saveState typed_set_state
        typed_on_world probe_Process_Signal fs_blind_world_env)
      (simp_all add: State_typed_updates)
  then show "preserves (typed_at E) (currentStatus R)"
    unfolding currentStatus_def by (intro preserves_seq preserves_ret)
qed

lemma env_sys_Kill: "preserves (\<lambda>w. w_env w = E) (sys_Kill pid sig)"
  by (rule preserves_sys_Kill) simp_all

lemma typed_Signal: "preserves (typed_at E) (container_Signal sig al)"
  unfolding container_Signal_def by (intro preserves_seq preserves_this typed_on_world env_sys_Kill)

lemma env_read_all: "preserves (\<lambda>w. w_env w = E) (read_all f)"
  by (rule preservesI) (auto simp: read_all_def split: option.splits if_splits
    dest!: preservesD [OF blind_os_read(1) [OF fs_blind_world_env]] preservesD [OF blind_os_read(2) [OF fs_blind_world_env]])

lemma typed_exec: "preserves (typed_at E) (exec R)"
  unfolding exec_def
  by (intro preserves_seq preserves_this preserves_map_err preserves_deferred preserves_if preserves_ignore
      preserves_fail typed_saveState typed_set_state typed_on_world env_read_all blind_os_ops(8) blind_os_more(2)
      blind_os_read(3) fs_blind_world_env)
    (simp_all add: State_typed_updates)

lemma typed_start:
  assumes lib: "StartTime_reads R" and env: "env_typed E"
  shows "preserves (typed_at E) (start R p)"
proof -
  have spawn: "proc_Start a b d w = (Ok pid, w') \<Longrightarrow> w_env w = E \<Longrightarrow> int64_ok pid" for a b d and w w' :: "'a world" and pid
    using env by (auto simp: proc_Start_def syscall_def Let_def env_typed_def split: option.splits if_splits)
  have start_time: "preserves (\<lambda>w. w_env w = E) (rl_GetProcessStartTime R pid)" for pid
    using lib by (intro preserves_pure) (simp add: StartTime_reads_def)
  have proc: "preserves (\<lambda>w. w_env w = E) (proc_Start a b d)" for a b d
    by (rule preserves_proc_Start) simp_all
  have save: "preserves (typed_at E) (set_state (\<lambda>s. s\<lparr>st_InitProcessStartTime := u\<rparr>))" for u
    by (rule typed_set_state) (simp_all add: State_typed_updates)
  have rec: "preserves (typed_at E) (seq (on_world time_Now) (\<lambda>now.
      seq (set_state (\<lambda>s. s\<lparr>st_InitProcessPid := pid, st_Created := now, st_Status := Created\<rparr>)) (\<lambda>_. rest)))"
    if "int64_ok pid" "preserves (typed_at E) rest" for pid and rest :: "('a, Process) meth"
  proof (rule preserves_seq_value [OF typed_on_world [OF preserves_time_Now]])
    fix now and s s' :: "nablaContainer \<times> 'a world"
    assume "typed_at E s" "on_world time_Now s = (Ok now, s')"
    then have "rfc3339_ok now"
      using env by (cases s) (auto simp: time_Now_def typed_at_def env_typed_def)
    with that show "preserves (typed_at E)
        (seq (set_state (\<lambda>s. s\<lparr>st_InitProcessPid := pid, st_Created := now, st_Status := Created\<rparr>)) (\<lambda>_. rest))"
      by (intro preserves_seq typed_set_state) (simp_all add: State_typed_updates)
  qed
  have tail: "preserves (typed_at E) (seq (on_world (proc_Start a b d)) (\<lambda>pid.
      seq (on_world time_Now) (\<lambda>now.
      seq (set_state (\<lambda>s. s\<lparr>st_InitProcessPid := pid, st_Created := now, st_Status := Created\<rparr>)) (\<lambda>_.
      rest pid))))" if "\<And>pid. preserves (typed_at E) (rest pid)" for a b d and rest :: "int \<Rightarrow> ('a, Process) meth"
  proof (rule preserves_seq_value [OF typed_on_world [OF proc]])
    fix pid and s s' :: "nablaContainer \<times> 'a world"
    assume "typed_at E s" "on_world (proc_Start a b d) s = (Ok pid, s')"
    then have "int64_ok pid" using spawn [of a b d "snd s" pid "snd s'"]
      by (cases s) (auto simp: typed_at_def split: prod.splits)
    then show "preserves (typed_at E) (seq (on_world time_Now) (\<lambda>now.
      seq (set_state (\<lambda>s. s\<lparr>st_InitProcessPid := pid, st_Created := now, st_Status := Created\<rparr>)) (\<lambda>_. rest pid)))"
      by (rule rec [OF _ that])
  qed
  show ?thesis
    unfolding start_def Let_def
    by (intro preserves_seq preserves_map_err preserves_this typed_on_world blind_NewSockPair blind_os_ops(8)
        blind_sock_Write fs_blind_world_env tail preserves_try_io preserves_ignore typed_saveState save
        start_time preserves_fail preserves_ret)
qed

subsection \<open>Handlers\<close>

text \<open>The options a handler is given and returns are Go maps: a key is there once.\<close>

definition input_typed :: "GenericInput \<Rightarrow> bool" where
  "input_typed i \<longleftrightarrow> (\<forall>l. Some l \<in> {gi_FsState i, gi_NetworkState i, gi_ExecState i} \<longrightarrow> LLState_typed l)"

definition result_typed :: "(GenericInput \<Rightarrow> ('n world, LLState option) io) \<Rightarrow> bool" where
  "result_typed f \<longleftrightarrow> (\<forall>i w l w'. input_typed i \<longrightarrow> f i w = (Ok (Some l), w') \<longrightarrow> LLState_typed l)"

locale typed_runllc = runllc H for H :: "'n RunllcHandler" +
  assumes typed_create: "result_typed (FsCreateFunc (FsH H))" "result_typed (NetworkCreateFunc (NetworkH H))"
      "result_typed (ExecCreateFunc (ExecH H))"
    and typed_destroy: "result_typed (FsDestroyFunc (FsH H))" "result_typed (NetworkDestroyFunc (NetworkH H))"
      "result_typed (ExecDestroyFunc (ExecH H))"

lemma result_typedD:
  "result_typed f \<Longrightarrow> input_typed i \<Longrightarrow> f i w = (Ok x, w') \<Longrightarrow> LLState_typed (or_empty x)"
  by (cases x) (auto simp: result_typed_def or_empty_def LLState_typed_def empty_LLState_def)

lemma empty_typed [simp]: "LLState_typed empty_LLState"
  by (simp add: LLState_typed_def empty_LLState_def)

lemma option_typed: "LLState_typed (or_empty x) \<Longrightarrow> x = Some l \<Longrightarrow> LLState_typed l"
  by (simp add: or_empty_def)

context typed_runllc
begin

lemma typed_destroy_handlers:
  assumes c: "container_typed c"
  shows "preserves (typed_at E) (destroy_handlers H c)"
proof -
  have st: "LLState_typed (st_FsState (nc_state c))" "LLState_typed (st_NetworkState (nc_state c))"
    "LLState_typed (st_ExecState (nc_state c))"
    using c by (simp_all add: container_typed_def State_typed_def)
  have i: "input_typed (destroy_input c fs ex)" if "LLState_typed (or_empty fs)" "LLState_typed (or_empty ex)" for fs ex
    using that st option_typed by (auto simp: input_typed_def destroy_input_def)
  note blind = fs_blind_world_env
  have net: "net_blind (\<lambda>w. w_env w = E)" by (simp add: net_blind_def)
  have set: "preserves (typed_at E) (set_state (st_ExecState_update (\<lambda>_. l)))"
    "preserves (typed_at E) (set_state (st_FsState_update (\<lambda>_. l)))"
    "preserves (typed_at E) (set_state (st_NetworkState_update (\<lambda>_. l)))" if "LLState_typed l" for l
    using that by (intro typed_set_state; simp add: State_typed_def)+
  have world: "on_world m s = (Ok a, s') \<Longrightarrow> m (snd s) = (Ok a, snd s')" for m a and s s' :: "nablaContainer \<times> 'n world"
    by (cases s) (auto split: prod.splits)
  show ?thesis
    unfolding destroy_handlers_def
  proof (rule preserves_seq_value [OF typed_on_world [OF preserves_pure [OF exec.exec_destroy_pure]]])
    fix ex and s s' :: "nablaContainer \<times> 'n world"
    assume "on_world (ExecDestroyFunc (ExecH H) (destroy_input c (Some (st_FsState (nc_state c)))
        (Some (st_ExecState (nc_state c))))) s = (Ok ex, s')"
    from result_typedD [OF typed_destroy(3) i world [OF this]] st have ex: "LLState_typed (or_empty ex)"
      by (simp add: or_empty_def)
    show "preserves (typed_at E) (seq (set_state (\<lambda>s. s\<lparr>st_ExecState := or_empty ex\<rparr>)) (\<lambda>_.
       seq (on_world (FsDestroyFunc (FsH H) (destroy_input c (Some (st_FsState (nc_state c))) ex))) (\<lambda>fsState.
       seq (set_state (\<lambda>s. s\<lparr>st_FsState := or_empty fsState\<rparr>)) (\<lambda>_.
       seq (on_world (NetworkDestroyFunc (NetworkH H) (destroy_input c fsState ex))) (\<lambda>networkState.
       set_state (\<lambda>s. s\<lparr>st_NetworkState := or_empty networkState\<rparr>))))))"
    proof (rule preserves_seq [OF set(1) [OF ex]],
        rule preserves_seq_value [OF typed_on_world [OF fs.fs_blind_keep(2) [OF blind]]])
      fix fs and s s' :: "nablaContainer \<times> 'n world"
      assume "on_world (FsDestroyFunc (FsH H) (destroy_input c (Some (st_FsState (nc_state c))) ex)) s = (Ok fs, s')"
      from result_typedD [OF typed_destroy(1) i world [OF this]] st ex have fs: "LLState_typed (or_empty fs)"
        by (simp add: or_empty_def)
      show "preserves (typed_at E) (seq (set_state (\<lambda>s. s\<lparr>st_FsState := or_empty fs\<rparr>)) (\<lambda>_.
         seq (on_world (NetworkDestroyFunc (NetworkH H) (destroy_input c fs ex))) (\<lambda>networkState.
         set_state (\<lambda>s. s\<lparr>st_NetworkState := or_empty networkState\<rparr>))))"
      proof (rule preserves_seq [OF set(2) [OF fs]],
          rule preserves_seq_value [OF typed_on_world [OF net.net_blind_keep(2) [OF net]]])
        fix n and s s' :: "nablaContainer \<times> 'n world"
        assume "on_world (NetworkDestroyFunc (NetworkH H) (destroy_input c fs ex)) s = (Ok n, s')"
        from result_typedD [OF typed_destroy(2) i [OF fs ex] world [OF this]]
        show "preserves (typed_at E) (set_state (\<lambda>s. s\<lparr>st_NetworkState := or_empty n\<rparr>))" by (rule set(3))
      qed
    qed
  qed
qed

lemma typed_destroy_container: "preserves (typed_at E) (destroy H)"
  unfolding destroy_def
proof (rule preserves_seq)
  show "preserves (typed_at E) (set_state (\<lambda>s. s\<lparr>st_InitProcessPid := 0, st_Status := Stopped\<rparr>))"
    by (rule typed_set_state) (simp_all add: State_typed_def int64_ok_def)
  show "preserves (typed_at E) (seq (this id) (destroy_handlers H))"
    by (rule preserves_seq_value [OF preserves_this]) (auto simp: typed_at_def intro: typed_destroy_handlers)
qed

text \<open>A new container is well formed when its configuration is.\<close>

lemma typed_create_fs:
  assumes "create_fs H cid root config w = (Ok (config', fsS), w')"
  shows "LLState_typed (or_empty fsS) \<and> (Config_ok config \<longrightarrow> Config_ok config')"
proof (cases "isPauseContainer config")
  case True
  then show ?thesis
    using assms by (auto simp: create_fs_def lift_res_def applyPauseHack_def or_empty_def seq_def try_io_def Config_ok_def)
next
  case False
  then have "FsCreateFunc (FsH H) (create_input cid root config (Some empty_LLState) (Some empty_LLState)) w = (Ok fsS, w')"
    and "config' = config"
    using assms by (auto simp: create_fs_def seq_Ok_iff map_err_Ok_iff)
  moreover have "input_typed (create_input cid root config (Some empty_LLState) (Some empty_LLState))"
    by (simp add: input_typed_def create_input_def)
  ultimately show ?thesis using result_typedD [OF typed_create(1)] by blast
qed

lemma typed_Create:
  assumes "fac_LLCHandler l = H" and "Create l cid config w = (Ok c, w')" and "Config_ok config"
  shows "container_typed c"
proof -
  from assms(1,2) obtain config' fsS netS exS wa wb wc wd we where
    fs: "create_fs H cid (Join [fac_Root l, cid]) config wa = (Ok (config', fsS), wb)"
    and n: "NetworkCreateFunc (NetworkH H) (create_input cid (Join [fac_Root l, cid]) config' fsS (Some empty_LLState)) wb = (Ok netS, wc)"
    and e: "ExecCreateFunc (ExecH H) (create_input cid (Join [fac_Root l, cid]) config' fsS netS) wd = (Ok exS, we)"
    and c: "c = new_container cid (Join [fac_Root l, cid]) config' fsS netS exS"
    by (auto simp: Create_def Let_def seq_Ok_iff map_err_Ok_iff split: if_splits)
  have fsT: "LLState_typed (or_empty fsS)" "Config_ok config'" using typed_create_fs [OF fs] assms(3) by blast+
  have i: "input_typed (create_input cid r config' fsS x)" if "LLState_typed (or_empty x)" for r x
    using option_typed that fsT(1) by (auto simp: input_typed_def create_input_def)
  have netT: "LLState_typed (or_empty netS)"
    using result_typedD [OF typed_create(2) i n] by (simp add: or_empty_def)
  have exT: "LLState_typed (or_empty exS)" using result_typedD [OF typed_create(3) i [OF netT] e] .
  have "rfc3339_ok zero_time" using dec_time_ok [of JNull] by simp
  then show ?thesis
    using fsT netT exT by (simp add: c new_container_def container_typed_def State_typed_def int64_ok_def)
qed

end

text \<open>A loaded container is well formed, whatever the file holds.\<close>

lemma typed_Load:
  assumes "Load l cid w = (Ok c, w')"
  shows "container_typed c \<and> nc_id c = cid \<and> nc_root c = Join [fac_Root l, cid]"
proof -
  let ?root = "Join [fac_Root l, cid]"
  obtain s w1 where ld: "loadState ?root cid w = (Ok (Some s), w1)"
    and c: "c = \<lparr>nc_id = cid, nc_root = ?root, nc_config = st_Config s, nc_state = s\<rparr>"
    using assms by (auto simp: Load_def Let_def seq_Ok_iff split: if_splits option.splits)
  then obtain f w2 where "deferred (file_Close f) (seq (map_err (\<lambda>e. newGenericError e SystemError)
      (file_ReadAll f)) decode_state) w2 = (Ok (Some s), w1)"
    by (auto simp: loadState_def seq_Ok_iff map_err_Ok_iff)
  then obtain u v where "decode_state u v = (Ok (Some s), v)"
    by (fastforce dest: deferred_result [OF _ file_Close_returns] simp: seq_Ok_iff map_err_Ok_iff decode_state_def split: option.splits)
  then have "State_typed s"
    by (auto simp: decode_state_def split: option.splits dest: dec_State_ptr_typed simp del: bind_eq_Some_conv)
      (metis bind_eq_Some_conv dec_State_ptr_typed)
  then show ?thesis by (simp add: c container_typed_def)
qed

end
