(* ===== verification/Lifecycle.thy ===== *)
theory Lifecycle
  imports RunnerFacts TypedState
begin

text \<open>
  The life of a container as its state file shows it: an abstract machine of four kinds of states and
  the steps that \<open>state\<close>, \<open>start\<close>, \<open>kill\<close> and \<open>delete\<close> may make, what every run of that machine keeps,
  and the proof that the commands, each a process of its own that meets the others in the file system
  only, make no other steps.
\<close>

subsection \<open>The abstract machine\<close>

text \<open>
  \<open>Broken\<close> is a state file that cannot be read back: it was truncated and not written again.
\<close>

datatype life = Absent | Broken | Present Status int

datatype command = CmdState | CmdStart | CmdKill | CmdDelete

text \<open>A save that is refused leaves what was there, or a truncated file.\<close>

definition may_save :: "life \<Rightarrow> life \<Rightarrow> life set" where
  "may_save a b = {a, Broken, b}"

inductive lifecycle :: "life \<Rightarrow> command \<Rightarrow> bool \<Rightarrow> event list \<Rightarrow> life \<Rightarrow> bool" where
  Refused: "lifecycle a k False [] a"
| Shown: "b \<in> may_save (Present s p) (Present Stopped p) \<Longrightarrow> lifecycle (Present s p) CmdState True [] b"
| Found_dead: "b \<in> may_save (Present s p) (Present Stopped p) \<Longrightarrow> lifecycle (Present s p) CmdStart False [] b"
| Begun: "b \<in> may_save (Present Created p) (Present Running p) \<Longrightarrow> lifecycle (Present Created p) CmdStart True [] b"
| Killed: "q = p \<or> q = - p \<Longrightarrow> 0 < sig \<Longrightarrow> lifecycle (Present s p) CmdKill True [Signalled q sig] (Present s p)"
| Deleted: "b = Absent \<or> b \<in> may_save (Present s p) (Present Stopped p) \<Longrightarrow>
    evs = [] \<or> evs = [Signalled p SIGKILL] \<and> s \<noteq> Stopped \<Longrightarrow> lifecycle (Present s p) CmdDelete ok evs b"

inductive_cases lifecycle_PresentE: "lifecycle (Present s p) k ok evs b"

inductive_simps lifecycle_gone: "lifecycle Absent k ok evs b" "lifecycle Broken k ok evs b"

inductive lives :: "life \<Rightarrow> (command \<times> bool) list \<Rightarrow> event list \<Rightarrow> life \<Rightarrow> bool" where
  lives_nil: "lives a [] [] a"
| lives_snoc: "lives a ks evs b \<Longrightarrow> lifecycle b k ok evs' c \<Longrightarrow> lives a (ks @ [(k, ok)]) (evs @ evs') c"

text \<open>How a status may change: forward only.\<close>

definition later :: "Status \<Rightarrow> Status \<Rightarrow> bool" where
  "later s t \<longleftrightarrow> t = s \<or> t = Stopped \<or> s = Created \<and> t = Running"

lemma later_refl [simp]: "later s s"
  by (simp add: later_def)

lemma later_trans: "later s t \<Longrightarrow> later t u \<Longrightarrow> later s u"
  by (auto simp: later_def)

text \<open>Only the container's own process, or its group, is signalled.\<close>

definition own_signal :: "int \<Rightarrow> event \<Rightarrow> bool" where
  "own_signal p ev \<longleftrightarrow> (\<exists>q sig. ev = Signalled q sig \<and> (q = p \<or> q = - p) \<and> 0 < sig)"

definition descends :: "Status \<Rightarrow> int \<Rightarrow> life \<Rightarrow> bool" where
  "descends s p b \<longleftrightarrow> b = Absent \<or> b = Broken \<or> (\<exists>t. b = Present t p \<and> later s t)"

lemma lifecycle_descends:
  assumes "lifecycle (Present s p) k ok evs b"
  shows "descends s p b \<and> list_all (own_signal p) evs"
  by (rule lifecycle_PresentE [OF assms]) (auto simp: descends_def may_save_def later_def own_signal_def SIGKILL_def)

lemma lifecycle_gone_stays: "a = Absent \<or> a = Broken \<Longrightarrow> lifecycle a k ok evs b \<Longrightarrow> b = a \<and> \<not> ok \<and> evs = []"
  by (auto simp: lifecycle_gone)

lemma lives_descends:
  assumes "lives a ks evs b" and "a = Present s p"
  shows "descends s p b \<and> list_all (own_signal p) evs"
  using assms
proof (induction rule: lives.induct)
  case (lives_nil a)
  then show ?case by (simp add: descends_def)
next
  case (lives_snoc a ks evs b k ok evs' c)
  then have IH: "descends s p b" "list_all (own_signal p) evs" by simp_all
  show ?case
  proof (cases b)
    case (Present t q)
    then have t: "q = p" "later s t" using IH(1) by (auto simp: descends_def)
    with lifecycle_descends [of t q k ok evs' c] lives_snoc.hyps(2) Present
    have "descends t p c" "list_all (own_signal p) evs'" by auto
    then show ?thesis using IH(2) t(2) later_trans by (auto simp: descends_def)
  qed (use lives_snoc.hyps(2) IH in \<open>auto simp: lifecycle_gone\<close>)
qed

text \<open>A start succeeds at most once between two saves: after it the container is not created any more.\<close>

lemma lives_never_created:
  assumes "lives a ks evs b" and "\<forall>p. a \<noteq> Present Created p"
  shows "\<forall>p. b \<noteq> Present Created p" and "(CmdStart, True) \<notin> set ks"
proof -
  have "(\<forall>p. b \<noteq> Present Created p) \<and> (CmdStart, True) \<notin> set ks"
    using assms
  proof (induction rule: lives.induct)
    case (lives_snoc a ks evs b k ok evs' c)
    then have "\<forall>p. b \<noteq> Present Created p" "(CmdStart, True) \<notin> set ks" by auto
    with lives_snoc.hyps(2) show ?case
      by (cases rule: lifecycle.cases) (auto simp: may_save_def)
  qed simp
  then show "\<forall>p. b \<noteq> Present Created p" and "(CmdStart, True) \<notin> set ks" by simp_all
qed


subsection \<open>What the state file shows\<close>

definition life_text :: "string \<Rightarrow> life" where
  "life_text t = (case Option.bind (parse_json t) dec_State_ptr of
     Some (Some s) \<Rightarrow> Present (st_Status s) (st_InitProcessPid s) | _ \<Rightarrow> Broken)"

definition life_of :: "inode option \<Rightarrow> life" where
  "life_of x = (case x of None \<Rightarrow> Absent
     | Some n \<Rightarrow> (case i_kind n of KFile t \<Rightarrow> life_text t | _ \<Rightarrow> Broken))"

definition state_path :: "string \<Rightarrow> string \<Rightarrow> path" where
  "state_path root cid = resolve root root @ [cid, stateFilename]"

definition life :: "string \<Rightarrow> string \<Rightarrow> 'n world \<Rightarrow> life" where
  "life root cid w = life_of (fs_get w (state_path root cid))"

text \<open>The commands, with what they return dropped.\<close>

fun perform :: "command \<Rightarrow> cliContext \<Rightarrow> 'n runclib \<Rightarrow> 'n RunllcHandler \<Rightarrow> ('n world, unit) io" where
  "perform CmdState ctx R H = seq (state_action ctx R H) (\<lambda>_. ret ())"
| "perform CmdStart ctx R H = start_action ctx R H"
| "perform CmdKill ctx R H = kill_action ctx H"
| "perform CmdDelete ctx R H = delete_action ctx R H"

text \<open>The place: an absolute root, outside \<open>/dev/net\<close>, and an id that names one of its entries.\<close>

definition place_ok :: "string \<Rightarrow> string \<Rightarrow> bool" where
  "place_ok root cid \<longleftrightarrow> IsAbs root \<and> validateID cid = Ok () \<and> cid \<noteq> ''.'' \<and> cid \<noteq> ''..''
     \<and> \<not> dev_net (state_path root cid)"

lemma place_plain: "place_ok root cid \<Longrightarrow> plain_elem cid"
  by (simp add: place_ok_def valid_plain)

lemma state_path_resolve:
  assumes "place_ok root cid"
  shows "resolve c (Join [Join [Clean root, cid], stateFilename]) = state_path root cid"
    and "resolve c (Join [Join [Clean root, cid], execFifoFilename]) \<noteq> state_path root cid"
    and "IsAbs (Join [Clean root, cid])" and "resolve c (Join [Clean root, cid]) = butlast (state_path root cid)"
    and "resolve c (Join [root, cid]) = butlast (state_path root cid)"
proof -
  have abs: "IsAbs root" using assms by (simp add: place_ok_def)
  then have absC: "IsAbs (Clean root)" by (simp add: Clean_abs [of root root])
  have r: "resolve c root = resolve root root" using abs by (rule resolve_abs_cwd)
  show a: "IsAbs (Join [Clean root, cid])" by (rule IsAbs_Join [OF absC])
  show d: "resolve c (Join [Clean root, cid]) = butlast (state_path root cid)"
    using absC place_plain [OF assms] abs by (simp add: resolve_Join_plain resolve_Clean r state_path_def butlast_append)
  show "resolve c (Join [root, cid]) = butlast (state_path root cid)"
    using place_plain [OF assms] abs by (simp add: resolve_Join_plain r state_path_def butlast_append)
  show "resolve c (Join [Join [Clean root, cid], stateFilename]) = state_path root cid"
    using a d by (simp add: resolve_Join_plain state_path_def butlast_append)
  show "resolve c (Join [Join [Clean root, cid], execFifoFilename]) \<noteq> state_path root cid"
  proof -
    have "resolve c (Join [Join [Clean root, cid], execFifoFilename]) = resolve root root @ [cid, execFifoFilename]"
      using a d by (simp add: resolve_Join_plain state_path_def butlast_append)
    then show ?thesis by (simp add: state_path_def execFifoFilename_def stateFilename_def)
  qed
qed

subsection \<open>Operations that leave the state file alone\<close>

text \<open>The state file shows one of \<open>A\<close>, and the program has logged \<open>l\<close>.\<close>

definition at_life :: "path \<Rightarrow> string \<Rightarrow> event list \<Rightarrow> life set \<Rightarrow> 'n world \<Rightarrow> bool" where
  "at_life P c l A w \<longleftrightarrow> w_cwd w = c \<and> w_log w = l \<and> life_of (fs_get w P) \<in> A"

lemma at_life_tick [simp]: "at_life P c l A (w\<lparr>w_tick := t\<rparr>) = at_life P c l A w"
  by (simp add: at_life_def)

lemma at_life_agrees:
  assumes "\<And>f. preserves (fs_agrees c (\<lambda>q. q \<noteq> P) f) m" and "\<And>l. preserves (\<lambda>w. w_log w = l) m"
  shows "preserves (at_life P c l A) m"
proof (rule preservesI)
  fix w r w' assume w: "at_life P c l A w" and run: "m w = (r, w')"
  have "fs_agrees c (\<lambda>q. q \<noteq> P) (fs_get w) w" using w by (simp add: fs_agrees_def at_life_def)
  then have "fs_agrees c (\<lambda>q. q \<noteq> P) (fs_get w) w'" using assms(1) run by (blast dest: preservesD)
  moreover have "w_log w' = l" using preservesD [OF assms(2) run] w by (simp add: at_life_def)
  ultimately show "at_life P c l A w'" using w by (simp add: fs_agrees_def at_life_def)
qed

lemma at_life_reads:
  "preserves (at_life P c l A) (os_Open p)" "preserves (at_life P c l A) (file_Close q)"
  "preserves (at_life P c l A) (file_ReadAll q)" "preserves (at_life P c l A) (fifo_ReadAll q)"
  "preserves (at_life P c l A) (os_Process_Signal pid 0)" "preserves (at_life P c l A) (sys_Kill pid 0)"
  by (intro at_life_agrees agrees_read agrees_read_more agrees_Process_Signal blind_os_ops blind_os_more
      blind_os_read probe_Process_Signal probe_keeps_log fs_blind_log)+

lemma at_life_read_all: "preserves (at_life P c l A) (read_all f)"
  by (rule preservesI) (auto simp: read_all_def split: option.splits if_splits
    dest!: preservesD [OF at_life_reads(3)] preservesD [OF at_life_reads(4)])

lemma at_life_Remove: "resolve c p \<noteq> P \<Longrightarrow> preserves (at_life P c l A) (os_Remove p)"
  by (intro at_life_agrees agrees_write blind_os_read fs_blind_log)

lemma parse_empty [simp]: "parse_json '''' = None"
  by code_simp

lemma life_text_empty [simp]: "life_text '''' = Broken"
  by (simp add: life_text_def)

lemma life_truncated: "life_of (Some (truncate_inode n)) = Broken"
  by (auto simp: life_of_def truncate_inode_def split: kind.split)

lemma life_text_saved:
  assumes "WriteJSON_encodes R" and "State_typed s"
  shows "life_text (rl_WriteJSON R (enc_State s)) = Present (st_Status s) (st_InitProcessPid s)"
proof -
  have "enc_State s \<noteq> JNull" by (simp add: enc_State_def)
  then show ?thesis
    using assms by (simp add: life_text_def WriteJSON_encodes_def dec_State_ptr_def dec_ptr_def dec_enc_typed)
qed

text \<open>Saving a well-formed state: the file is as it was, truncated, or shows that state.\<close>

lemma life_append:
  "life_of (Some n) = Broken \<Longrightarrow> (\<And>t. i_kind n = KFile t \<Longrightarrow> t = '''') \<Longrightarrow>
   life_of (Some (append_inode s n)) \<in> {Broken, life_text s}"
  by (cases "i_kind n") (auto simp: append_inode_def life_of_def)

definition truncated_at :: "path \<Rightarrow> string \<Rightarrow> event list \<Rightarrow> 'n world \<Rightarrow> bool" where
  "truncated_at P c l w \<longleftrightarrow> w_cwd w = c \<and> w_log w = l \<and>
     (\<exists>n. fs_get w P = Some n \<and> life_of (Some n) = Broken \<and> (\<forall>t. i_kind n = KFile t \<longrightarrow> t = ''''))"

lemma ensures_Create_state:
  assumes "resolve c p = P"
  shows "ensures (at_life P c l A) (os_Create p) (\<lambda>q w. q = P \<and> truncated_at P c l w)
    (\<lambda>_. at_life P c l A) (\<lambda>_ _. False)"
proof -
  have new: "life_of (Some (new_inode w (KFile '''') m)) = Broken"
    "i_kind (new_inode w (KFile '''') m) = KFile ''''" for m and w :: "'b world"
    by (simp_all add: life_of_def new_inode_def)
  have trunc: "i_kind (truncate_inode n) = KFile t \<Longrightarrow> t = ''''" for n t
    by (auto simp: truncate_inode_def split: kind.splits)
  show ?thesis
    unfolding ensures_def os_Create_def at_path_def syscall_def create_entry_def
    using assms trunc
    by (auto simp: at_life_def truncated_at_def life_truncated new Let_def split: option.split)
qed

lemma ensures_Write_state:
  "ensures (truncated_at P c l) (file_Write P t) (\<lambda>_. at_life P c l {Broken, life_text t})
     (\<lambda>_. at_life P c l {Broken, life_text t}) (\<lambda>_ _. False)"
proof (unfold ensures_def, intro allI impI)
  fix w :: "'a world" assume "truncated_at P c l w"
  then obtain n where w: "w_cwd w = c" "w_log w = l" "fs_get w P = Some n" "life_of (Some n) = Broken"
    "\<And>t. i_kind n = KFile t \<Longrightarrow> t = ''''" unfolding truncated_at_def by blast
  from life_append [OF w(4,5), of t] w(1-4)
  show "case file_Write P t w of (Ok a, w) \<Rightarrow> at_life P c l {Broken, life_text t} w
      | (Err e, w) \<Rightarrow> at_life P c l {Broken, life_text t} w | (Stop x, w) \<Rightarrow> False"
    unfolding file_Write_def syscall_def update_inode_def
    by (auto simp: at_life_def Let_def split: option.split)
qed

lemma preserves_ensured: "ensures P m (\<lambda>_. P) (\<lambda>_. P) (\<lambda>_. P) \<Longrightarrow> preserves P m"
  by (rule preservesI) (rule ensures_snd)

lemma at_life_write_state:
  assumes "WriteJSON_encodes R" and "State_typed s" and "resolve c (Join [root, stateFilename]) = P"
    and "Broken \<in> A" and "Present (st_Status s) (st_InitProcessPid s) \<in> A"
  shows "preserves (at_life P c l A) (write_state R root s)"
proof -
  let ?W = "at_life P c l {Broken, life_text (rl_WriteJSON R (enc_State s))}"
  have sub: "{Broken, life_text (rl_WriteJSON R (enc_State s))} \<subseteq> A"
    using assms(4,5) life_text_saved [OF assms(1,2)] by auto
  have written: "ensures (truncated_at P c l) (file_Write P (rl_WriteJSON R (enc_State s)))
      (\<lambda>_. at_life P c l A) (\<lambda>_. at_life P c l A) (\<lambda>_ _. False)"
    by (rule ensures_weaken [OF ensures_Write_state]) (use sub in \<open>auto simp: at_life_def\<close>)
  have "ensures (at_life P c l A) (write_state R root s) (\<lambda>_. at_life P c l A) (\<lambda>_. at_life P c l A) (\<lambda>_ _. False)"
    unfolding write_state_def
  proof (rule ensures_seq [OF ensures_Create_state [OF assms(3)]])
    fix f
    show "ensures (\<lambda>w. f = P \<and> truncated_at P c l w) (deferred (file_Close f) (file_Write f (rl_WriteJSON R (enc_State s))))
      (\<lambda>_. at_life P c l A) (\<lambda>_. at_life P c l A) (\<lambda>_ _. False)"
    proof (cases "f = P")
      case True
      have "ensures (truncated_at P c l) (deferred (file_Close P) (file_Write P (rl_WriteJSON R (enc_State s))))
        (\<lambda>_. at_life P c l A) (\<lambda>_. at_life P c l A) (\<lambda>_ _. False)"
        by (rule ensures_deferred [OF written at_life_reads(2) at_life_reads(2) returns_os(4)])
      then show ?thesis using True by simp
    qed (simp add: ensures_def)
  qed
  then have "ensures (at_life P c l A) (write_state R root s) (\<lambda>_. at_life P c l A) (\<lambda>_. at_life P c l A) (\<lambda>_. at_life P c l A)"
    by (rule ensures_weaken) simp_all
  then show ?thesis by (rule preserves_ensured)
qed

subsection \<open>Loading\<close>

lemma life_of_loaded:
  assumes "fs_get w P = Some n" and "file_ReadAll P w = (Ok t, w')" and "fst (decode_state t u) = Ok (Some s)"
  shows "life_of (fs_get w P) = Present (st_Status s) (st_InitProcessPid s)"
proof -
  have "t = (case i_kind n of KFile t \<Rightarrow> t | _ \<Rightarrow> '''')"
    using assms(1,2) by (auto simp: file_ReadAll_def syscall_def Let_def split: option.splits kind.splits)
  moreover have dec: "Option.bind (parse_json t) dec_State_ptr = Some (Some s)"
    using assms(3) by (simp add: decode_state_def split: option.splits)
  ultimately show ?thesis
    using assms(1) by (cases "i_kind n") (auto simp: life_of_def life_text_def)
qed

lemma loadState_life:
  assumes run: "loadState root cid w = (r, w')" and P: "resolve (w_cwd w) (Join [root, stateFilename]) = P"
    and ne: "Join [root, stateFilename] \<noteq> ''''"
  shows "\<exists>t. w' = w\<lparr>w_tick := t\<rparr>"
    and "r = Ok (Some s) \<Longrightarrow> life_of (fs_get w P) = Present (st_Status s) (st_InitProcessPid s)"
    and "r = Err e \<Longrightarrow> api_code e = Some ContainerNotExists \<Longrightarrow> life_of (fs_get w P) = Absent"
proof -
  let ?o = "os_Open (Join [root, stateFilename])" and ?w = "w\<lparr>w_tick := Suc (w_tick w)\<rparr>"
  have "(\<exists>t. w' = w\<lparr>w_tick := t\<rparr>) \<and>
    (r = Ok (Some s) \<longrightarrow> life_of (fs_get w P) = Present (st_Status s) (st_InitProcessPid s)) \<and>
    (r = Err e \<longrightarrow> api_code e = Some ContainerNotExists \<longrightarrow> life_of (fs_get w P) = Absent)"
  proof (cases "fst (?o w)")
    case (Err d)
    then have o: "?o w = (Err d, ?w)" and d: "IsNotExist d \<Longrightarrow> fs_get w P = None"
      using ne P by (auto simp: os_Open_run split: option.splits)
    have r: "r = Err (if IsNotExist d then newGenericError (Msg (''container '' @ cid @ '' does not exist'')) ContainerNotExists
        else newGenericError d SystemError)" and w': "w' = ?w"
      using run o by (auto simp: loadState_def)
    have "\<exists>n. d = Errno n" using o by (auto simp: os_Open_run split: if_splits option.splits)
    then have "api_code (newGenericError d SystemError) = Some SystemError" by auto
    with r d show ?thesis by (auto simp: w' life_of_def)
  next
    case (Ok f)
    then have o: "?o w = (Ok f, ?w)" "f = P" and "fs_get w P \<noteq> None"
      using ne P by (auto simp: os_Open_run split: option.splits)
    then obtain n where n: "fs_get ?w P = Some n" by auto
    let ?m = "seq (map_err (\<lambda>e. newGenericError e SystemError) (file_ReadAll P)) decode_state"
    have d: "deferred (file_Close P) ?m ?w = (r, w')" using run o by (simp add: loadState_def)
    obtain t where m: "?m ?w = (r, t)" and w': "w' = snd (file_Close P t) \<or> w' = t"
      using deferred_result [OF d file_Close_returns] by blast
    obtain x u where rd: "file_ReadAll P ?w = (x, u)" by (meson surj_pair)
    then have u: "\<exists>k. u = w\<lparr>w_tick := k\<rparr>" and noStop: "x \<noteq> Stop y" for y
      by (auto simp: file_ReadAll_def syscall_def Let_def split: option.splits kind.splits)
    have dec: "\<exists>q. decode_state tx v = (q, v)" for tx and v :: "'a world"
      by (simp add: decode_state_def split: option.split)
    have "\<exists>k. t = w\<lparr>w_tick := k\<rparr>"
    proof (cases x)
      case (Ok tx)
      with dec [of tx u] m rd u show ?thesis by auto
    qed (use m rd u in auto)
    moreover have "\<exists>k. snd (file_Close P t) = t\<lparr>w_tick := k\<rparr>"
      using file_Close_state [of P t] by (metis prod.collapse)
    ultimately have tick: "\<exists>k. w' = w\<lparr>w_tick := k\<rparr>" using w' by auto
    have err: "r = Err e \<Longrightarrow> api_code e = Some SystemError"
      using read_decode_code [of P ?w e] m by simp
    have "r = Ok (Some s) \<Longrightarrow> life_of (fs_get w P) = Present (st_Status s) (st_InitProcessPid s)"
    proof -
      assume "r = Ok (Some s)"
      then obtain tx where "x = Ok tx" "decode_state tx u = (Ok (Some s), t)"
        using m rd by (cases x) auto
      with life_of_loaded [OF n rd [unfolded \<open>x = Ok tx\<close>], of u s] show ?thesis by simp
    qed
    with tick err show ?thesis by auto
  qed (use run in \<open>auto simp: os_Open_run split: if_splits option.splits\<close>)
  then show "\<exists>t. w' = w\<lparr>w_tick := t\<rparr>"
    and "r = Ok (Some s) \<Longrightarrow> life_of (fs_get w P) = Present (st_Status s) (st_InitProcessPid s)"
    and "r = Err e \<Longrightarrow> api_code e = Some ContainerNotExists \<Longrightarrow> life_of (fs_get w P) = Absent" by blast+
qed

lemma Load_life:
  assumes "Load l cid w = (r, w')" and "fac_Root l = Clean root" and "place_ok root cid"
  shows "\<exists>t. w' = w\<lparr>w_tick := t\<rparr>"
    and "r = Ok c \<Longrightarrow> life root cid w = Present (st_Status (nc_state c)) (st_InitProcessPid (nc_state c))"
    and "r = Err e \<Longrightarrow> api_code e = Some ContainerNotExists \<Longrightarrow> life root cid w = Absent"
proof -
  let ?root = "Join [Clean root, cid]"
  note P = state_path_resolve [OF assms(3)]
  have ne: "Join [?root, stateFilename] \<noteq> ''''" by (rule IsAbs_nonempty [OF IsAbs_Join [OF P(3)]])
  have cr: "Clean root \<noteq> ''''" using assms(3) by (simp add: place_ok_def Clean_abs [of root root] path_text_def)
  obtain x u where ld: "loadState ?root cid w = (x, u)" by (meson surj_pair)
  note L = loadState_life [OF ld P(1) ne]
  show "\<exists>t. w' = w\<lparr>w_tick := t\<rparr>"
    using L(1) ld assms(1,2) cr by (cases x) (auto simp: Load_def Let_def split: option.splits)
  show "r = Ok c \<Longrightarrow> life root cid w = Present (st_Status (nc_state c)) (st_InitProcessPid (nc_state c))"
    using L(2) ld assms(1,2) cr by (cases x) (auto simp: Load_def Let_def life_def split: option.splits)
  show "r = Err e \<Longrightarrow> api_code e = Some ContainerNotExists \<Longrightarrow> life root cid w = Absent"
    using L(3) ld assms(1,2) cr by (cases x) (auto simp: Load_def Let_def life_def split: option.splits)
qed

text \<open>Finding the container: the root may be made, and then nothing but the clock moves.\<close>

definition ctx_names :: "cliContext \<Rightarrow> string \<Rightarrow> string \<Rightarrow> bool" where
  "ctx_names ctx root cid \<longleftrightarrow> ctx_GlobalString ctx ''root'' = root \<and> Args_Get ctx 0 = cid"

lemma for_each_answer:
  "(\<And>x s. \<exists>n. fst (body x s) = Ok () \<or> fst (body x s) = Err (Errno n)) \<Longrightarrow>
   \<exists>n. fst (for_each xs body s) = Ok () \<or> fst (for_each xs body s) = Err (Errno n)"
proof (induction xs arbitrary: s)
  case (Cons x xs)
  obtain r t where b: "body x s = (r, t)" by (meson surj_pair)
  with Cons.prems [of x s] obtain n where "r = Ok () \<or> r = Err (Errno n)" by auto
  then show ?case using b Cons.IH [OF Cons.prems, of t] by auto
qed simp

lemma MkdirAll_answer: "os_MkdirAll p m w = (x, u) \<Longrightarrow> \<exists>n. x = Ok () \<or> x = Err (Errno n)"
proof -
  assume run: "os_MkdirAll p m w = (x, u)"
  have "\<exists>n. fst (mkdir_missing m q s) = Ok () \<or> fst (mkdir_missing m q s) = Err (Errno n)" for q and s :: "'a world"
    by (simp add: mkdir_missing_def split: option.split)
  note loop = for_each_answer [of "mkdir_missing m", OF this]
  show ?thesis
  proof (cases "p = [] \<or> e_fault (w_env w) (w_tick w) (OpMkdir (resolve (w_cwd w) p)) \<noteq> None")
    case True
    then show ?thesis using run
      by (auto simp: os_MkdirAll_def at_path_def syscall_def Let_def split: if_splits option.splits)
  next
    case False
    then show ?thesis
      using run loop [of "prefixes (resolve (w_cwd w) p)" "w\<lparr>w_tick := Suc (w_tick w)\<rparr>"]
      by (auto simp: os_MkdirAll_def at_path_def syscall_def Let_def)
  qed
qed

lemma loadFactory_life:
  assumes "loadFactory ctx H w = (r, w')" and "ctx_names ctx root cid" and "place_ok root cid"
    and "at_life (state_path root cid) c l A w"
  shows "at_life (state_path root cid) c l A w'" and "r = Ok f \<Longrightarrow> fac_Root f = Clean root"
    and "r = Err e \<Longrightarrow> api_code e = None" and "r \<noteq> Stop y"
proof -
  have abs: "IsAbs root" using assms(3) by (simp add: place_ok_def)
  have cr: "Clean root \<noteq> ''''" using abs by (simp add: Clean_abs [of root root] path_text_def)
  have new: "loadFactory ctx H = New (Clean root) H []"
    using assms(2) abs by (simp add: loadFactory_def ctx_names_def filepath_Abs_def)
  let ?m = "os_MkdirAll (Clean root) (octal3 7 0 0) :: ('a world, unit) io"
  have pre: "\<not> prefix (state_path root cid) (resolve c (Clean root))"
    using abs resolve_abs_cwd [OF abs, of c root]
    by (auto simp: resolve_Clean state_path_def dest: prefix_length_le)
  have "preserves (at_life (state_path root cid) c l A) ?m"
    by (intro at_life_agrees agrees_MkdirAll blind_os_ops fs_blind_log) (use pre in auto)
  then have w1: "at_life (state_path root cid) c l A (snd (?m w))" using assms(4) by (rule preserves_snd)
  obtain x u where m: "?m w = (x, u)" by (meson surj_pair)
  then have res: "\<exists>n. x = Ok () \<or> x = Err (Errno n)"
    by (rule MkdirAll_answer)
  show "at_life (state_path root cid) c l A w'"
    using assms(1) m w1 res cr by (auto simp: new New_def)
  show "r = Ok f \<Longrightarrow> fac_Root f = Clean root" "r = Err e \<Longrightarrow> api_code e = None" "r \<noteq> Stop y"
    using assms(1) m res cr by (auto simp: new New_def)
qed


text \<open>The container that a command found, and its state file.\<close>

definition loaded :: "string \<Rightarrow> string \<Rightarrow> nablaContainer \<Rightarrow> 'n world \<Rightarrow> bool" where
  "loaded root cid c w \<longleftrightarrow> container_typed c \<and> nc_root c = Join [Clean root, cid]
     \<and> life root cid w = Present (st_Status (nc_state c)) (st_InitProcessPid (nc_state c))"

lemma getContainer_life:
  assumes "getContainer ctx H w = (r, w')" and "ctx_names ctx root cid" and "place_ok root cid"
  shows "life root cid w' = life root cid w \<and> w_log w' = w_log w \<and> w_cwd w' = w_cwd w"
    and "r = Ok c \<Longrightarrow> loaded root cid c w'"
    and "r = Err e \<Longrightarrow> api_code e = Some ContainerNotExists \<Longrightarrow> life root cid w = Absent"
proof -
  let ?P = "at_life (state_path root cid) (w_cwd w) (w_log w) {life root cid w}"
  have w: "?P w" by (simp add: at_life_def life_def)
  have cid: "Args_Get ctx 0 = cid" "cid \<noteq> ''''"
    using assms(2,3) by (auto simp: ctx_names_def place_ok_def validateID_Ok)
  obtain x u where f: "loadFactory ctx H w = (x, u)" by (meson surj_pair)
  note F = loadFactory_life [OF f assms(2,3) w]
  have run: "seq (loadFactory ctx H) (\<lambda>l. Load l cid) w = (r, w')"
    using assms(1) cid by (simp add: getContainer_def)
  have all: "(life root cid w' = life root cid w \<and> w_log w' = w_log w \<and> w_cwd w' = w_cwd w) \<and>
    (r = Ok c \<longrightarrow> loaded root cid c w') \<and>
    (r = Err e \<longrightarrow> api_code e = Some ContainerNotExists \<longrightarrow> life root cid w = Absent)"
  proof (cases x)
    case (Ok l)
    then have ld: "Load l cid u = (r, w')" and l: "fac_Root l = Clean root" using run f F(2) by auto
    note L = Load_life [OF ld l assms(3)]
    obtain k where w': "w' = u\<lparr>w_tick := k\<rparr>" using L(1) by blast
    have "life root cid w' = life root cid u" by (simp add: life_def w')
    moreover have "r = Ok c \<Longrightarrow> container_typed c \<and> nc_root c = Join [Clean root, cid]"
      using typed_Load [of l cid u c w'] ld l by simp
    ultimately show ?thesis
      using F(1) L(2,3) w' by (auto simp: at_life_def life_def loaded_def)
  next
    case (Err d)
    then show ?thesis using run f F(1) F(3) by (auto simp: at_life_def life_def)
  qed (use F(4) in simp)
  from all show "life root cid w' = life root cid w \<and> w_log w' = w_log w \<and> w_cwd w' = w_cwd w"
    and "r = Ok c \<Longrightarrow> loaded root cid c w'"
    and "r = Err e \<Longrightarrow> api_code e = Some ContainerNotExists \<Longrightarrow> life root cid w = Absent" by blast+
qed

subsection \<open>The commands on a container that was found\<close>

text \<open>A step of a command on a world: what it logged and what the state file then shows.\<close>

definition life_step :: "string \<Rightarrow> string \<Rightarrow> command \<Rightarrow> 'a res \<Rightarrow> 'n world \<Rightarrow> 'n world \<Rightarrow> bool" where
  "life_step root cid k r w w' \<longleftrightarrow> (\<exists>evs. w_log w' = w_log w @ evs \<and>
     lifecycle (life root cid w) k (\<exists>a. r = Ok a) evs (life root cid w'))"

lemma life_stepI:
  "w_log w' = w_log w @ evs \<Longrightarrow> lifecycle (life root cid w) k (\<exists>a. r = Ok a) evs (life root cid w') \<Longrightarrow>
   life_step root cid k r w w'"
  by (auto simp: life_step_def)

lemma life_step_refused:
  "w_log w' = w_log w \<Longrightarrow> life root cid w' = life root cid w \<Longrightarrow> (\<And>a. r \<noteq> Ok a) \<Longrightarrow> life_step root cid k r w w'"
  by (rule life_stepI [where evs = "[]"]) (simp_all add: lifecycle.Refused)

lemma probed_life [simp]: "life root cid (probed c w) = life root cid w" "w_log (probed c w) = w_log w"
  "w_cwd (probed c w) = w_cwd w"
  using probed_clock [of c w] by (auto simp: life_def)

lemma loaded_probed [simp]: "loaded root cid c (probed c w) = loaded root cid c w"
  by (simp add: loaded_def)

lemma saved_life:
  assumes "WriteJSON_encodes R" and "place_ok root cid" and "container_typed c" and "nc_root c = Join [Clean root, cid]"
  shows "life root cid (snd (write_state R (nc_root c) (nc_state c) w)) \<in>
      may_save (life root cid w) (Present (st_Status (nc_state c)) (st_InitProcessPid (nc_state c)))"
    and "w_log (snd (write_state R (nc_root c) (nc_state c) w)) = w_log w"
proof -
  let ?A = "may_save (life root cid w) (Present (st_Status (nc_state c)) (st_InitProcessPid (nc_state c)))"
  let ?P = "at_life (state_path root cid) (w_cwd w) (w_log w) ?A"
  have "preserves ?P (write_state R (nc_root c) (nc_state c))"
    using assms state_path_resolve(1) [OF assms(2), of "w_cwd w"]
    by (intro at_life_write_state) (simp_all add: container_typed_def may_save_def)
  moreover have "?P w" by (simp add: at_life_def may_save_def life_def)
  ultimately have "?P (snd (write_state R (nc_root c) (nc_state c) w))" by (rule preserves_snd)
  then show "life root cid (snd (write_state R (nc_root c) (nc_state c) w)) \<in> ?A"
    and "w_log (snd (write_state R (nc_root c) (nc_state c) w)) = w_log w"
    by (simp_all add: at_life_def life_def)
qed

lemma typed_set_status: "container_typed c \<Longrightarrow> Status_ok s \<Longrightarrow> container_typed (set_status s c)"
  by (simp add: container_typed_def set_status_def State_typed_updates)

lemma set_status_fields [simp]:
  "nc_root (set_status s c) = nc_root c" "st_InitProcessPid (nc_state (set_status s c)) = st_InitProcessPid (nc_state c)"
  "st_Status (nc_state (set_status s c)) = s"
  by (simp_all add: set_status_def)

lemma saved_stopped_life:
  assumes "WriteJSON_encodes R" and "place_ok root cid" and "loaded root cid c w"
  shows "life root cid (saved_stopped R c w) \<in> may_save (life root cid w) (Present Stopped (st_InitProcessPid (nc_state c)))"
    and "w_log (saved_stopped R c w) = w_log w"
  using saved_life [OF assms(1,2) typed_set_status [of c Stopped], of "probed c w"] assms(3)
  by (simp_all add: saved_stopped_def loaded_def)


lemma kill_life:
  assumes "container_Signal sig al (c, w) = (r, (c', w'))" and "0 < sig" and "loaded root cid c w"
  shows "life_step root cid CmdKill r w w'"
proof -
  let ?q = "if al then - st_InitProcessPid (nc_state c) else st_InitProcessPid (nc_state c)"
  obtain x u where k: "sys_Kill ?q sig w = (x, u)" by (meson surj_pair)
  then have r: "r = x" "w' = u" using assms(1) by (auto simp: container_Signal_def)
  from k have "(\<exists>t. x = Ok () \<and> u = w\<lparr>w_tick := t, w_log := w_log w @ [Signalled ?q sig]\<rparr>) \<or>
      (\<exists>t e. x = Err e \<and> u = w\<lparr>w_tick := t\<rparr>)"
    using assms(2) unfolding sys_Kill_def syscall_def Let_def by (auto split: option.splits if_splits)
  then show ?thesis
  proof (elim disjE exE conjE)
    fix t assume x: "x = Ok ()" "u = w\<lparr>w_tick := t, w_log := w_log w @ [Signalled ?q sig]\<rparr>"
    then have "life root cid w' = life root cid w" by (simp add: r life_def)
    then show ?thesis
      using assms(2,3) x unfolding r loaded_def
      by (intro life_stepI [where evs = "[Signalled ?q sig]"]) (auto intro: lifecycle.Killed)
  next
    fix t e assume "x = Err e" "u = w\<lparr>w_tick := t\<rparr>"
    then show ?thesis by (intro life_step_refused) (simp_all add: r life_def)
  qed
qed

text \<open>An object's method that neither logs nor touches the state file.\<close>

definition still :: "string \<Rightarrow> string \<Rightarrow> life set \<Rightarrow> 'n world \<Rightarrow> nablaContainer \<times> 'n world \<Rightarrow> bool" where
  "still root cid A w s \<longleftrightarrow> at_life (state_path root cid) (w_cwd w) (w_log w) A (snd s)"

lemma still_on_world:
  "preserves (at_life (state_path root cid) (w_cwd w) (w_log w) A) m \<Longrightarrow> preserves (still root cid A w) (on_world m)"
  unfolding still_def by (rule preserves_on_world)

lemma ensures_given: "(b \<Longrightarrow> ensures P m Q E X) \<Longrightarrow> ensures (\<lambda>s. b \<and> P s) m Q E X"
  by (auto simp: ensures_def)

lemma ensures_at:
  "ensures P m Q E X \<Longrightarrow> P s \<Longrightarrow> m s = (r, s') \<Longrightarrow> case r of Ok a \<Rightarrow> Q a s' | Err e \<Rightarrow> E e s' | Stop x \<Rightarrow> X x s'"
  by (cases r) (auto dest: ensuresD)

lemma exec_life:
  assumes R: "WriteJSON_encodes R" and place: "place_ok root cid" and c: "loaded root cid c w"
    and created: "st_Status (nc_state c) = Created" and run: "exec R (c, w) = (r, (c', w'))"
  shows "life_step root cid CmdStart r w w'"
proof -
  let ?p = "st_InitProcessPid (nc_state c)" and ?P = "state_path root cid"
  let ?A = "may_save (Present Created ?p) (Present Running ?p)"
  let ?U = "\<lambda>s. fst s = c \<and> still root cid {Present Created ?p} w s"
  let ?fifo = "Join [nc_root c, execFifoFilename]"
  have root: "nc_root c = Join [Clean root, cid]" "container_typed c" "life root cid w = Present Created ?p"
    using c created by (simp_all add: loaded_def)
  have fifo: "resolve d ?fifo \<noteq> ?P" for d using state_path_resolve(2) [OF place] root by simp
  have returns_Remove: "returns (os_Remove p)" for p
    unfolding os_Remove_def by (intro returns_at_path returns_syscall) (simp add: returns_def)
  have marks: "\<exists>s'. seq (set_state (\<lambda>s. s\<lparr>st_Status := Running\<rparr>)) (\<lambda>_.
      seq (ignore (saveState R)) (\<lambda>_. ignore (on_world (os_Remove ?fifo)))) (c, v) = (Ok (), s') \<and> still root cid ?A w s'"
    if v: "still root cid {Present Created ?p} w (c, v)" for v
  proof -
    let ?d = "set_status Running c" and ?v = "snd (write_state R (nc_root c) (nc_state (set_status Running c)) v)"
    obtain q t where save: "ignore (saveState R) (?d, v) = (q, t)" by (meson surj_pair)
    then have "snd t = ?v"
      by (auto simp: ignore_def saveState_def try_io_def split: prod.splits res.splits)
    with saveState_object [OF save] have t: "q = Ok ()" "t = (?d, ?v)" by (auto simp: prod_eq_iff)
    have "still root cid ?A w (?d, ?v)"
    proof -
      have "State_typed (nc_state ?d)"
        using typed_set_status [OF root(2)] by (simp add: container_typed_def)
      then have "preserves (at_life ?P (w_cwd w) (w_log w) ?A) (write_state R (nc_root c) (nc_state ?d))"
        using state_path_resolve(1) [OF place, of "w_cwd w"] root(1)
        by (intro at_life_write_state R) (simp_all add: may_save_def)
      moreover have "at_life ?P (w_cwd w) (w_log w) ?A v" using v by (simp add: still_def at_life_def may_save_def)
      ultimately show ?thesis by (simp add: still_def preserves_snd)
    qed
    moreover obtain x u where rm: "os_Remove ?fifo ?v = (x, u)" by (meson surj_pair)
    moreover have "x \<noteq> Stop y" for y using rm returns_Remove unfolding returns_def by (metis fst_conv)
    ultimately have "still root cid ?A w (?d, u)" "ignore (on_world (os_Remove ?fifo)) (?d, ?v) = (Ok (), (?d, u))"
      using preservesD [OF at_life_Remove [OF fifo] rm] by (auto simp: still_def ignore_def try_io_def split: res.splits)
    moreover have "set_state (\<lambda>s. s\<lparr>st_Status := Running\<rparr>) (c, v) = (Ok (), (?d, v))" by (simp add: set_status_def)
    ultimately show ?thesis using save t by simp
  qed
  have close: "preserves (still root cid A w) (on_world (file_Close f))" for A f
    by (intro still_on_world at_life_reads)
  have closeU: "preserves ?U (on_world (file_Close f))" for f
    using preservesD [OF close] by (intro preservesI) (fastforce split: prod.splits)
  have keepU: "ensures ?U (on_world m) (\<lambda>_. ?U) (\<lambda>_. ?U) (\<lambda>_. ?U)" if
    "preserves (at_life ?P (w_cwd w) (w_log w) {Present Created ?p}) m" for m :: "('a world, 'x) io"
    by (rule ensuresI) (use still_on_world [OF that] in \<open>auto split: prod.splits dest: preservesD simp: preserves_def\<close>)
  have path: "ensures ?U (this (\<lambda>c. Join [nc_root c, execFifoFilename])) (\<lambda>a s. a = ?fifo \<and> ?U s) (\<lambda>_. ?U) (\<lambda>_. ?U)"
    by (rule ensuresI) (auto simp: this_def split: prod.splits)
  note opened = ensures_map_err [OF keepU [OF at_life_reads(1)]]
  have marking: "ensures ?U (if data \<noteq> [] then seq (set_state (\<lambda>s. s\<lparr>st_Status := Running\<rparr>)) (\<lambda>_.
      seq (ignore (saveState R)) (\<lambda>_. ignore (on_world (os_Remove ?fifo))))
      else fail (Msg ''cannot start an already running container''))
      (\<lambda>_. still root cid ?A w) (\<lambda>_. ?U) (\<lambda>_. ?U)" for data :: string
  proof (rule ensuresI; elim conjE)
    fix s :: "nablaContainer \<times> 'a world" and a s'
    assume s: "fst s = c" "still root cid {Present Created ?p} w s"
      and run: "(if data \<noteq> [] then seq (set_state (\<lambda>s. s\<lparr>st_Status := Running\<rparr>)) (\<lambda>_.
      seq (ignore (saveState R)) (\<lambda>_. ignore (on_world (os_Remove ?fifo))))
      else fail (Msg ''cannot start an already running container'')) s = (Ok a, s')"
    then show "still root cid ?A w s'"
      using marks [of "snd s"] by (cases s) (auto split: if_splits)
  next
    fix s :: "nablaContainer \<times> 'a world" and e s'
    assume s: "fst s = c" "still root cid {Present Created ?p} w s"
      and run: "(if data \<noteq> [] then seq (set_state (\<lambda>s. s\<lparr>st_Status := Running\<rparr>)) (\<lambda>_.
      seq (ignore (saveState R)) (\<lambda>_. ignore (on_world (os_Remove ?fifo))))
      else fail (Msg ''cannot start an already running container'')) s = (Err e, s')"
    then show "?U s'"
      using marks [of "snd s"] by (cases s) (auto split: if_splits)
  next
    fix s :: "nablaContainer \<times> 'a world" and x s'
    assume s: "fst s = c" "still root cid {Present Created ?p} w s"
      and run: "(if data \<noteq> [] then seq (set_state (\<lambda>s. s\<lparr>st_Status := Running\<rparr>)) (\<lambda>_.
      seq (ignore (saveState R)) (\<lambda>_. ignore (on_world (os_Remove ?fifo))))
      else fail (Msg ''cannot start an already running container'')) s = (Stop x, s')"
    then show "?U s'"
      using marks [of "snd s"] by (cases s) (auto split: if_splits)
  qed
  have "ensures ?U (exec R) (\<lambda>_. still root cid ?A w) (\<lambda>_. ?U) (\<lambda>_. ?U)"
    unfolding exec_def
  proof (rule ensures_seq [OF path])
    fix q
    let ?m = "\<lambda>q. seq (map_err (\<lambda>e. newSystemErrorWithCause e ''open exec fifo for reading'') (on_world (os_Open q)))
      (\<lambda>f. deferred (on_world (file_Close f)) (seq (on_world (read_all f)) (\<lambda>data. if data \<noteq> [] then
        seq (set_state (\<lambda>s. s\<lparr>st_Status := Running\<rparr>)) (\<lambda>_.
        seq (ignore (saveState R)) (\<lambda>_. ignore (on_world (os_Remove q))))
      else fail (Msg ''cannot start an already running container''))))"
    have m: "ensures ?U (?m ?fifo) (\<lambda>_. still root cid ?A w) (\<lambda>_. ?U) (\<lambda>_. ?U)"
      by (rule ensures_seq [OF opened], rule ensures_deferred [OF ensures_seq [OF keepU [OF at_life_read_all] marking]])
        (intro close closeU returns_on_world returns_os)+
    show "ensures (\<lambda>s. q = ?fifo \<and> ?U s) (?m q) (\<lambda>_. still root cid ?A w) (\<lambda>_. ?U) (\<lambda>_. ?U)"
      by (rule ensures_given) (simp only: m)
  qed
  moreover have "?U (c, w)" using root by (simp add: still_def at_life_def life_def)
  ultimately have "case r of Ok a \<Rightarrow> still root cid ?A w (c', w') | Err e \<Rightarrow> ?U (c', w') | Stop x \<Rightarrow> ?U (c', w')"
    using run by (rule ensures_at)
  then have res: "case r of Ok a \<Rightarrow> still root cid ?A w (c', w') | _ \<Rightarrow> still root cid {Present Created ?p} w (c', w')"
    by (cases r) (simp_all add: still_def)
  show ?thesis
  proof (cases r)
    case (Ok a)
    then show ?thesis
      using res root by (intro life_stepI [where evs = "[]"])
        (auto simp: still_def at_life_def life_def intro: lifecycle.Begun)
  qed (use res root in \<open>auto simp: still_def at_life_def life_def intro!: life_step_refused\<close>)
qed


lemma start_life:
  assumes R: "WriteJSON_encodes R" and place: "place_ok root cid" and c: "loaded root cid c w"
    and run: "start_found R (c, w) = (r, (c', w'))"
  shows "life_step root cid CmdStart r w w'"
proof (cases "answers c w")
  case False
  then have r: "r = Err (Msg ''cannot start a container that has stopped'')" "w' = saved_stopped R c w"
    using run by (simp_all add: start_found_cases)
  then show ?thesis
    using saved_stopped_life [OF R place c] c unfolding loaded_def
    by (intro life_stepI [where evs = "[]"]) (auto intro: lifecycle.Found_dead)
next
  case alive: True
  show ?thesis
  proof (cases "st_Status (nc_state c) = Created")
    case True
    then have "exec R (c, probed c w) = (r, (c', w'))" using run alive by (simp add: start_found_cases)
    from exec_life [OF R place _ True this] c show ?thesis by (simp add: life_step_def)
  next
    case False
    then show ?thesis using run alive by (intro life_step_refused) (auto simp: start_found_cases)
  qed
qed

text \<open>Two probes: whichever finds the process gone saves the container as stopped.\<close>

lemma currentState_life:
  assumes R: "WriteJSON_encodes R" and place: "place_ok root cid"
    and c: "container_typed c" "nc_root c = Join [Clean root, cid]" "st_InitProcessPid (nc_state c) = p"
    and run: "currentState R (c, w) = (r, (c', w'))"
  shows "container_typed c' \<and> nc_root c' = Join [Clean root, cid] \<and> st_InitProcessPid (nc_state c') = p
    \<and> r = Ok (nc_state c') \<and> w_log w' = w_log w \<and> life root cid w' \<in> may_save (life root cid w) (Present Stopped p)"
proof -
  obtain q w1 where s: "os_Process_Signal (st_InitProcessPid (nc_state c)) 0 w = (q, w1)" by (meson surj_pair)
  have w1: "w1 = probed c w" using s by (simp add: probed_def)
  show ?thesis
  proof (cases "q = Ok ()")
    case True
    then show ?thesis using currentState_cases(1) [OF s, of R] run c w1 by (simp add: may_save_def)
  next
    case False
    then have "r = Ok (nc_state (set_status Stopped c))" "c' = set_status Stopped c"
      "w' = snd (write_state R (nc_root (set_status Stopped c)) (nc_state (set_status Stopped c)) (probed c w))"
      using currentState_cases(2) [OF s, of R] run w1 by (simp_all add: set_status_def)
    then show ?thesis
      using saved_life [OF R place typed_set_status [OF c(1), of Stopped], of "probed c w"] c typed_set_status [OF c(1), of Stopped]
      by simp
  qed
qed

lemma state_life:
  assumes R: "WriteJSON_encodes R" and place: "place_ok root cid" and c: "loaded root cid c w"
    and run: "state_found R (c, w) = (r, (c', w'))"
  shows "(\<exists>a. r = Ok a) \<and> life_step root cid CmdState r w w'"
proof -
  let ?p = "st_InitProcessPid (nc_state c)"
  obtain r1 c1 w1 where 1: "currentState R (c, w) = (r1, (c1, w1))" by (metis surj_pair)
  obtain r2 c2 w2 where 2: "currentState R (c1, w1) = (r2, (c2, w2))" by (metis surj_pair)
  have cc: "container_typed c" "nc_root c = Join [Clean root, cid]" using c by (simp_all add: loaded_def)
  note L1 = currentState_life [OF R place cc refl 1]
  then have cc1: "container_typed c1" "nc_root c1 = Join [Clean root, cid]" "st_InitProcessPid (nc_state c1) = ?p"
    by simp_all
  note L2 = currentState_life [OF R place cc1 2]
  have s2: "currentStatus R (c1, w1) = (Ok (st_Status (nc_state c2)), (c2, w2))"
    using 2 L2 by (simp add: currentStatus_def)
  have "(\<exists>a. r = Ok a) \<and> w' = w2"
    using run 1 s2 L1 by (simp add: state_found_def) blast
  moreover have "life root cid w2 \<in> may_save (life root cid w) (Present Stopped ?p)"
    using L1 L2 by (auto simp: may_save_def)
  ultimately show ?thesis
    using L1 L2 c unfolding loaded_def
    by (intro conjI life_stepI [where evs = "[]"]) (auto intro: lifecycle.Shown)
qed

subsection \<open>Deletion\<close>

text \<open>A runtime whose destruction of a file system only removes files.\<close>

locale life_runllc = typed_runllc H for H :: "'n RunllcHandler" +
  assumes fs_only_removes: "FsDestroyFunc (FsH H) i w = (r, w') \<Longrightarrow> fs_get w' q = None \<or> fs_get w' q = fs_get w q"

context life_runllc
begin

lemma destroy_logged_life:
  assumes "destroy_logged H (c, w) = (r, (c', w'))" and "\<not> dev_net (state_path root cid)"
  shows "life root cid w' = Absent \<or> life root cid w' = life root cid w" and "w_log w' = w_log w"
proof -
  obtain x d v where d: "destroy H (c, w) = (x, (d, v))" by (metis surj_pair)
  then have w': "w' = v" using assms(1) by (cases x) (auto simp: destroy_logged_def ignore_def)
  let ?P = "\<lambda>v. fs_get v (state_path root cid) = None \<or> fs_get v (state_path root cid) = fs_get w (state_path root cid)"
  have "?P v"
  proof (rule destroy_keeps [OF _ _ _ d])
    fix i :: GenericInput
    show "preserves ?P (FsDestroyFunc (FsH H) i)"
    proof (rule preservesI)
      fix s r s' assume "?P s" "FsDestroyFunc (FsH H) i s = (r, s')"
      then show "?P s'" using fs_only_removes [of i s r s' "state_path root cid"] by auto
    qed
    show "preserves ?P (NetworkDestroyFunc (NetworkH H) i)"
    proof (rule preservesI)
      fix s r s' assume "?P s" "NetworkDestroyFunc (NetworkH H) i s = (r, s')"
      then show "?P s'" using agreesD(1) [OF net.net_region(2), of i s r s' "state_path root cid"] assms(2) by auto
    qed
  qed simp
  then show "life root cid w' = Absent \<or> life root cid w' = life root cid w" by (auto simp: w' life_def life_of_def)
  show "w_log w' = w_log w" using destroy_outside [OF d] by (simp add: w' outside_def)
qed

lemma killContainer_life:
  assumes "killContainer H (c, w) = (r, (c', w'))" and "\<not> dev_net (state_path root cid)"
  shows "life root cid w' = Absent \<or> life root cid w' = life root cid w"
proof -
  obtain x w1 where k: "sys_Kill (st_InitProcessPid (nc_state c)) SIGKILL w = (x, w1)" by (meson surj_pair)
  have "x \<noteq> Stop y" for y using k returns_os(6) unfolding returns_def by (metis fst_conv)
  then consider "x = Ok ()" | e where "x = Err e" by (cases x) auto
  then have a: "await_exit H 100 (c, w1) = (r, (c', w'))"
    by cases (use assms(1) k in \<open>simp_all add: killContainer_def container_Signal_def ignore_def\<close>)
  have w1: "life root cid (w1\<lparr>w_tick := t\<rparr>) = life root cid w" for t
    using sys_Kill_run [OF k] by (auto simp: life_def)
  show ?thesis
  proof (cases "\<forall>k<100. answers_at (st_InitProcessPid (nc_state c)) w1 (w_tick w1 + 2 * k + 1)")
    case True
    from await_exit_cases [of 100 c w1 H, unfolded if_P [OF True]] a w1 show ?thesis by simp
  next
    case False
    from await_exit_cases [of 100 c w1 H, unfolded if_not_P [OF False]]
    obtain k where "await_exit H 100 (c, w1) = destroy_logged H (c, w1\<lparr>w_tick := w_tick w1 + 2 * k + 2\<rparr>)" by blast
    with a have "destroy_logged H (c, w1\<lparr>w_tick := w_tick w1 + 2 * k + 2\<rparr>) = (r, (c', w'))" by simp
    from destroy_logged_life(1) [OF this assms(2)] w1 show ?thesis by simp
  qed
qed

lemma delete_life:
  assumes R: "WriteJSON_encodes R" and place: "place_ok root cid" and c: "loaded root cid c w"
    and run: "delete_found R H name force (c, w) = (r, (c', w'))"
  shows "life_step root cid CmdDelete r w w'"
proof -
  let ?p = "st_InitProcessPid (nc_state c)" and ?s = "st_Status (nc_state c)"
  have dev: "\<not> dev_net (state_path root cid)" using place by (simp add: place_ok_def)
  have life: "life root cid w = Present ?s ?p" using c by (simp add: loaded_def)
  show ?thesis
  proof (cases "answers c w")
    case False
    then have d: "destroy_logged H (set_status Stopped c, saved_stopped R c w) = (r, (c', w'))"
      using run by (simp add: delete_found_cases)
    from destroy_logged_life [OF d dev] saved_stopped_life [OF R place c]
    show ?thesis unfolding life by (intro life_stepI [where evs = "[]"]) (auto simp: life intro!: lifecycle.Deleted)
  next
    case alive: True
    consider "?s = Stopped" | "?s \<noteq> Stopped" "?s = Created \<or> force" | "?s \<noteq> Stopped" "?s \<noteq> Created" "\<not> force" by blast
    then show ?thesis
    proof cases
      case 1
      then have d: "destroy_logged H (c, probed c w) = (r, (c', w'))" using run alive by (simp add: delete_found_cases)
      from destroy_logged_life [OF d dev] show ?thesis
        by (intro life_stepI [where evs = "[]"]) (auto simp: life may_save_def intro!: lifecycle.Deleted)
    next
      case 2
      then have k: "killContainer H (c, probed c w) = (r, (c', w'))" using run alive by (simp add: delete_found_cases)
      from killContainer_log [OF k] obtain evs where "w_log w' = w_log w @ evs" "evs = [] \<or> evs = [Signalled ?p SIGKILL]"
        by auto
      with killContainer_life [OF k dev] 2 show ?thesis
        by (intro life_stepI [where evs = evs]) (auto simp: life may_save_def intro!: lifecycle.Deleted)
    next
      case 3
      then show ?thesis using run alive by (intro life_step_refused) (auto simp: delete_found_cases)
    qed
  qed
qed

subsection \<open>The commands implement the machine\<close>

lemma step_after_getContainer:
  assumes "getContainer ctx H w = (Ok c, u)" and "ctx_names ctx root cid" and "place_ok root cid"
    and "loaded root cid c u \<Longrightarrow> life_step root cid k r u w'"
  shows "life_step root cid k r w w'"
  using getContainer_life(1,2) [OF assms(1-3)] assms(4) by (auto simp: life_step_def)

lemma step_without_container:
  assumes "getContainer ctx H w = (x, u)" and "ctx_names ctx root cid" and "place_ok root cid" and "\<And>a. r \<noteq> Ok a"
  shows "life_step root cid k r w u"
  using getContainer_life(1) [OF assms(1-3)] assms(4) by (intro life_step_refused) auto

lemma command_life:
  assumes R: "WriteJSON_encodes R" and ctx: "ctx_names ctx root cid" and place: "place_ok root cid"
    and run: "perform k ctx R H w = (r, w')"
  shows "life_step root cid k r w w'"
proof -
  obtain x u where g: "getContainer ctx H w = (x, u)" by (meson surj_pair)
  note none = step_without_container [OF g ctx place]
  show ?thesis
  proof (cases x)
    case (Ok c)
    note found = step_after_getContainer [OF g [unfolded Ok] ctx place]
    have wc: "with_container c m u = (q, w') \<Longrightarrow> \<exists>c'. m (c, u) = (q, (c', w'))" for m and q :: "unit res"
      by (auto simp: with_container_def split: prod.splits)
    show ?thesis
    proof (cases k)
      case CmdState
      obtain q v where s: "with_container c (state_found R) u = (q, v)" by (meson surj_pair)
      then obtain c' where m: "state_found R (c, u) = (q, (c', v))"
        by (auto simp: with_container_def split: prod.splits)
      show ?thesis
      proof (rule found)
        assume ld: "loaded root cid c u"
        from state_life [OF R place ld m] obtain a where a: "q = Ok a" "life_step root cid CmdState q u v" by blast
        then have "r = Ok ()" "w' = v"
          using run g s CmdState Ok by (auto simp: state_action_def)
        with a CmdState show "life_step root cid k r u w'" by (simp add: life_step_def)
      qed
    next
      case CmdStart
      then have "with_container c (start_found R) u = (r, w')" using run g Ok by (simp add: start_action_def)
      with CmdStart wc start_life [OF R place] show ?thesis by (intro found) blast
    next
      case CmdKill
      let ?sig = "parseSignal (if Args_Get ctx 1 = '''' then ''SIGTERM'' else Args_Get ctx 1)"
      have kill: "(case ?sig of Ok sig \<Rightarrow> with_container c (container_Signal sig (ctx_Bool ctx ''all'')) u
          | Err e \<Rightarrow> (Err e, u) | Stop y \<Rightarrow> (Stop y, u)) = (r, w')"
        using run g Ok CmdKill by (cases ?sig) (simp_all add: kill_action_def Let_def)
      show ?thesis
      proof (cases ?sig)
        case (Ok sig)
        then have "with_container c (container_Signal sig (ctx_Bool ctx ''all'')) u = (r, w')" using kill by simp
        moreover have "0 < sig" using parseSignal_range [OF Ok] by simp
        ultimately show ?thesis using CmdKill wc kill_life by (intro found) blast
      qed (use kill none [of r k] in auto)
    next
      case CmdDelete
      then have "with_container c (delete_found R H (Args_Get ctx 0) (ctx_Bool ctx ''force'')) u = (r, w')"
        using run g Ok by (simp add: delete_action_def Let_def)
      with CmdDelete wc delete_life [OF R place] show ?thesis by (intro found) blast
    qed
  next
    case (Err e)
    show ?thesis
    proof (cases "k = CmdDelete \<and> api_code e = Some ContainerNotExists")
      case True
      let ?dir = "Join [root, cid]"
      obtain q v where rm: "os_RemoveAll ?dir u = (q, v)" by (meson surj_pair)
      have "w' = v \<and> (\<forall>a. r \<noteq> Ok a)"
        using run g Err True rm ctx
        by (cases q) (auto simp: delete_action_def Let_def ctx_names_def ignore_def)
      moreover have absent: "life root cid w = Absent" using getContainer_life(3) [OF g ctx place Err] True by simp
      moreover have u: "life root cid u = life root cid w" "w_log u = w_log w"
        using getContainer_life(1) [OF g ctx place] by simp_all
      moreover have "w_log v = w_log u"
        using preservesD [OF blind_os_read(4) [OF fs_blind_log] rm] by simp
      moreover have "life root cid v = Absent"
      proof -
        have "fs_get u (state_path root cid) = None"
          using absent u by (auto simp: life_def life_of_def life_text_def split: option.splits kind.splits)
        moreover have "fs_get v p = None \<or> fs_get v p = fs_get u p" for p
          using rm by (auto simp: os_RemoveAll_def at_path_def syscall_def Let_def split: if_splits option.splits)
        ultimately have "fs_get v (state_path root cid) = None" by metis
        then show ?thesis by (simp add: life_def life_of_def)
      qed
      ultimately show ?thesis by (intro life_step_refused) auto
    next
      case False
      then have "w' = u \<and> (\<forall>a. r \<noteq> Ok a)"
        using run g Err
        by (cases k) (auto simp: state_action_def start_action_def kill_action_def delete_action_def Let_def fatal_def)
      with none [of r k] show ?thesis by auto
    qed
  next
    case (Stop y)
    then have "w' = u \<and> (\<forall>a. r \<noteq> Ok a)"
      using run g
      by (cases k) (auto simp: state_action_def start_action_def kill_action_def delete_action_def Let_def)
    with none [of r k] show ?thesis by auto
  qed
qed

end


subsection \<open>Runs\<close>

text \<open>
  A history of one container: commands on it, successful or not, between which anything may happen to
  the machine (processes end, other containers come and go) that leaves its state file as it is. The log
  is that of what the commands did.
\<close>

inductive history ::
  "'n runclib \<Rightarrow> 'n RunllcHandler \<Rightarrow> string \<Rightarrow> string \<Rightarrow> 'n world \<Rightarrow> (command \<times> bool) list \<Rightarrow> 'n world \<Rightarrow> bool"
  for R H root cid where
  history_nil: "history R H root cid w [] w"
| history_other: "history R H root cid w ks v \<Longrightarrow> life root cid u = life root cid v \<Longrightarrow> w_log u = w_log v \<Longrightarrow>
    history R H root cid w ks u"
| history_command: "history R H root cid w ks v \<Longrightarrow> ctx_names ctx root cid \<Longrightarrow> perform k ctx R H v = (r, u) \<Longrightarrow>
    history R H root cid w (ks @ [(k, \<exists>a. r = Ok a)]) u"


lemma result_typed_intros:
  "result_typed (\<lambda>i. ret (Some empty_LLState))"
  "result_typed iso_FsCreateFunc" "result_typed iso_FsDestroyFunc"
  "result_typed (tapBr_CreateFunc nl)" "result_typed (tapBr_DestroyFunc nl)"
proof -
  show "result_typed (\<lambda>i. ret (Some empty_LLState))" by (simp add: result_typed_def)
  show "result_typed iso_FsCreateFunc"
    by (auto simp: result_typed_def iso_FsCreateFunc_def seq_Ok_iff LLState_typed_def empty_LLState_def)
  show "result_typed iso_FsDestroyFunc"
    by (auto simp: result_typed_def iso_FsDestroyFunc_def seq_Ok_iff input_typed_def)
  show "result_typed (tapBr_CreateFunc nl)"
    by (auto simp: result_typed_def tapBr_CreateFunc_def seq_Ok_iff LLState_typed_def)
  show "result_typed (tapBr_DestroyFunc nl)"
    by (auto simp: result_typed_def tapBr_DestroyFunc_def seq_Ok_iff input_typed_def)
qed

lemma RemoveAll_only_removes: "os_RemoveAll p w = (r, w') \<Longrightarrow> fs_get w' q = None \<or> fs_get w' q = fs_get w q"
  by (auto simp: os_RemoveAll_def at_path_def syscall_def Let_def split: if_splits option.splits)

interpretation runnc_life: life_runllc "nablaLLCHandler nl" for nl
proof unfold_locales
  show "result_typed (FsCreateFunc (FsH (nablaLLCHandler nl)))"
    "result_typed (NetworkCreateFunc (NetworkH (nablaLLCHandler nl)))"
    "result_typed (ExecCreateFunc (ExecH (nablaLLCHandler nl)))"
    "result_typed (FsDestroyFunc (FsH (nablaLLCHandler nl)))"
    "result_typed (NetworkDestroyFunc (NetworkH (nablaLLCHandler nl)))"
    "result_typed (ExecDestroyFunc (ExecH (nablaLLCHandler nl)))"
    by (simp_all add: nablaLLCHandler_def iSOFsHandler_def tapBrNetworkHandler_def nablaExecHandler_def result_typed_intros)
next
  fix i :: GenericInput and w w' :: "'a world" and r q
  assume run: "FsDestroyFunc (FsH (nablaLLCHandler nl)) i w = (r, w')"
  obtain x u where rm: "os_RemoveAll (gi_ContainerRoot i) w = (x, u)" by (meson surj_pair)
  with run have "w' = u"
    by (cases x) (auto simp: nablaLLCHandler_def iSOFsHandler_def iso_FsDestroyFunc_def)
  with RemoveAll_only_removes [OF rm] show "fs_get w' q = None \<or> fs_get w' q = fs_get w q" by simp
qed

lemma history_lives:
  assumes "history R (nablaLLCHandler nl) root cid w ks w'" and R: "WriteJSON_encodes R" and place: "place_ok root cid"
  shows "\<exists>evs. w_log w' = w_log w @ evs \<and> lives (life root cid w) ks evs (life root cid w')"
  using assms(1)
proof (induction rule: history.induct)
  case (history_nil w)
  then show ?case by (intro exI [where x = "[]"]) (simp add: lives_nil)
next
  case (history_other w ks v u)
  then show ?case by simp
next
  case (history_command w ks v ctx k r u)
  then obtain evs where "w_log v = w_log w @ evs" "lives (life root cid w) ks evs (life root cid v)" by blast
  moreover obtain evs' where "w_log u = w_log v @ evs'"
    "lifecycle (life root cid v) k (\<exists>a. r = Ok a) evs' (life root cid u)"
    using runnc_life.command_life [OF R history_command.hyps(2) place history_command.hyps(3)]
    by (auto simp: life_step_def)
  ultimately show ?case by (intro exI [where x = "evs @ evs'"]) (auto intro: lives_snoc)
qed

end
