(* ===== verification/Api.thy ===== *)
theory Api
  imports Lifecycle Init
begin

text \<open>
  The interfaces of \<open>libcontainer/container.go\<close>, \<open>factory.go\<close> and \<open>stats.go\<close>, and the methods by
  which \<open>nablaContainer\<close> and \<open>NablaFactory\<close> implement them. Most methods of a container hold its mutex:
  their state is that of the mutex beside the object and the world. The commands run the operations
  below the mutex; calls made one after the other give the same.
\<close>

subsection \<open>The mutex\<close>

type_synonym ('n, 'a) api = "(bool \<times> nablaContainer \<times> 'n world, 'a) io"

definition mutex_Lock :: "(bool \<times> 's, unit) io" where
  "mutex_Lock = (\<lambda>(held, s). if held then (Stop (Blocked ''mutex''), (held, s)) else (Ok (), (True, s)))"

definition mutex_Unlock :: "(bool \<times> 's, unit) io" where
  "mutex_Unlock = (\<lambda>(held, s). if held then (Ok (), (False, s))
     else (Stop (Panic ''unlock of unlocked mutex''), (held, s)))"

text \<open>A method that does not touch the mutex, and one that holds it until it returns.\<close>

definition unlocked :: "('s, 'a) io \<Rightarrow> (bool \<times> 's, 'a) io" where
  "unlocked m = zoom snd (\<lambda>s (held, _). (held, s)) m"

definition locked :: "('s, 'a) io \<Rightarrow> (bool \<times> 's, 'a) io" where
  "locked m = seq mutex_Lock (\<lambda>_. deferred mutex_Unlock (unlocked m))"

subsection \<open>A container\<close>

record Stats = stats_none :: unit

record 'n BaseContainer =
  bc_ID :: "('n, string) api"
  bc_Status :: "('n, Status) api"
  bc_State :: "('n, State) api"
  bc_Config :: "('n, Config) api"
  bc_Processes :: "('n, int list) api"
  bc_Stats :: "('n, Stats) api"
  bc_Set :: "Config \<Rightarrow> ('n, unit) api"
  bc_Start :: "Process \<Rightarrow> ('n, Process) api"
  bc_Run :: "Process \<Rightarrow> ('n, Process) api"
  bc_Destroy :: "('n, unit) api"
  bc_Signal :: "int \<Rightarrow> bool \<Rightarrow> ('n, unit) api"
  bc_Exec :: "('n, unit) api"

text \<open>\<open>Start\<close> and \<open>Run\<close> return the process as they leave it.\<close>

definition nabla_ID :: "('n, string) api" where
  "nabla_ID = unlocked (this nc_id)"

definition nabla_Status :: "'n runclib \<Rightarrow> ('n, Status) api" where
  "nabla_Status R = locked (currentStatus R)"

definition nabla_State :: "'n runclib \<Rightarrow> ('n, State) api" where
  "nabla_State R = locked (currentState R)"

definition nabla_Config :: "('n, Config) api" where
  "nabla_Config = unlocked (this nc_config)"

definition nabla_Processes :: "('n, int list) api" where
  "nabla_Processes = unlocked (fail (Msg ''NablaContainer.Processes not implemented''))"

definition nabla_Stats :: "('n, Stats) api" where
  "nabla_Stats = unlocked (fail (Msg ''NablaContainer.Stats not implemented''))"

definition nabla_Set :: "Config \<Rightarrow> ('n, unit) api" where
  "nabla_Set config = locked (fail (Msg ''NablaContainer.Set not implemented''))"

definition nabla_Start :: "'n runclib \<Rightarrow> Process \<Rightarrow> ('n, Process) api" where
  "nabla_Start R process = locked (start R process)"

definition nabla_Run :: "Process \<Rightarrow> ('n, Process) api" where
  "nabla_Run process = locked (fail (Msg ''NablaContainer.Run not implemented''))"

definition nabla_Destroy :: "'n RunllcHandler \<Rightarrow> ('n, unit) api" where
  "nabla_Destroy H = locked (destroy H)"

definition nabla_Signal :: "int \<Rightarrow> bool \<Rightarrow> ('n, unit) api" where
  "nabla_Signal sig al = unlocked (container_Signal sig al)"

definition nabla_Exec :: "'n runclib \<Rightarrow> ('n, unit) api" where
  "nabla_Exec R = locked (exec R)"

definition nabla_container :: "'n runclib \<Rightarrow> 'n RunllcHandler \<Rightarrow> 'n BaseContainer" where
  "nabla_container R H = \<lparr>bc_ID = nabla_ID, bc_Status = nabla_Status R, bc_State = nabla_State R,
     bc_Config = nabla_Config, bc_Processes = nabla_Processes, bc_Stats = nabla_Stats, bc_Set = nabla_Set,
     bc_Start = nabla_Start R, bc_Run = nabla_Run, bc_Destroy = nabla_Destroy H, bc_Signal = nabla_Signal,
     bc_Exec = nabla_Exec R\<rparr>"

subsection \<open>A factory\<close>

record 'n Factory =
  fi_Create :: "string \<Rightarrow> Config \<Rightarrow> ('n world, nablaContainer) io"
  fi_Load :: "string \<Rightarrow> ('n world, nablaContainer) io"
  fi_StartInitialization :: "('n world, unit) io"
  fi_Type :: string

definition nabla_factory :: "'n initlib \<Rightarrow> inherited \<Rightarrow> 'n NablaFactory \<Rightarrow> 'n Factory" where
  "nabla_factory N I l = \<lparr>fi_Create = Create l, fi_Load = Load l,
     fi_StartInitialization = StartInitialization N I l, fi_Type = factory_Type\<rparr>"

subsection \<open>Calls one after the other\<close>

datatype container_call = CallStatus | CallState | CallSet Config | CallStart Process | CallRun Process | CallDestroy
  | CallSignal int bool | CallExec | CallStats | CallProcesses

text \<open>A call whose value is not used, by the interface and below the mutex.\<close>

definition void :: "('s, 'a) io \<Rightarrow> ('s, unit) io" where
  "void m = seq m (\<lambda>_. ret ())"

fun api_call :: "'n BaseContainer \<Rightarrow> container_call \<Rightarrow> ('n, unit) api" where
  "api_call C CallStatus = void (bc_Status C)"
| "api_call C CallState = void (bc_State C)"
| "api_call C (CallSet config) = bc_Set C config"
| "api_call C (CallStart p) = void (bc_Start C p)"
| "api_call C (CallRun p) = void (bc_Run C p)"
| "api_call C CallDestroy = bc_Destroy C"
| "api_call C (CallSignal sig al) = bc_Signal C sig al"
| "api_call C CallExec = bc_Exec C"
| "api_call C CallStats = void (bc_Stats C)"
| "api_call C CallProcesses = void (bc_Processes C)"

fun plain_call :: "'n runclib \<Rightarrow> 'n RunllcHandler \<Rightarrow> container_call \<Rightarrow> ('n, unit) meth" where
  "plain_call R H CallStatus = void (currentStatus R)"
| "plain_call R H CallState = void (currentState R)"
| "plain_call R H (CallSet config) = fail (Msg ''NablaContainer.Set not implemented'')"
| "plain_call R H (CallStart p) = void (start R p)"
| "plain_call R H (CallRun p) = fail (Msg ''NablaContainer.Run not implemented'')"
| "plain_call R H CallDestroy = destroy H"
| "plain_call R H (CallSignal sig al) = container_Signal sig al"
| "plain_call R H CallExec = exec R"
| "plain_call R H CallStats = fail (Msg ''NablaContainer.Stats not implemented'')"
| "plain_call R H CallProcesses = fail (Msg ''NablaContainer.Processes not implemented'')"

text \<open>The caller looks at each error and goes on; what stops the program stops the sequence.\<close>

fun calls :: "('op \<Rightarrow> ('s, unit) io) \<Rightarrow> 'op list \<Rightarrow> ('s, unit res list) io" where
  "calls f [] = ret []"
| "calls f (x # xs) = seq (try_io (f x) (\<lambda>e. ret (Err e)) (\<lambda>_. ret (Ok ()))) (\<lambda>r.
     seq (calls f xs) (\<lambda>rs. ret (r # rs)))"

lemma locked_free: "locked m (False, s) = (case m s of (r, s') \<Rightarrow> (r, ((case r of Stop x \<Rightarrow> True | _ \<Rightarrow> False), s')))"
  by (simp add: locked_def mutex_Lock_def mutex_Unlock_def deferred_def unlocked_def zoom_def seq_def try_io_def
    ignore_def ret_def fail_def split: prod.split res.split)

lemma locked_held: "locked m (True, s) = (Stop (Blocked ''mutex''), (True, s))"
  by (simp add: locked_def mutex_Lock_def seq_def try_io_def)

lemma unlocked_run: "unlocked m (l, s) = (case m s of (r, s') \<Rightarrow> (r, (l, s')))"
  by (simp add: unlocked_def zoom_def)

text \<open>An interface whose operations may hold one mutex until they return.\<close>

locale monitor =
  fixes call :: "'op \<Rightarrow> (bool \<times> 's, unit) io" and body :: "'op \<Rightarrow> ('s, unit) io"
  assumes guarded: "call x = locked (body x) \<or> call x = unlocked (body x)"
begin

lemma call_free:
  "\<exists>l. call x (False, s) = (case body x s of (r, s') \<Rightarrow> (r, (l, s'))) \<and> ((\<exists>y. fst (body x s) = Stop y) \<or> \<not> l)"
proof -
  obtain r t where "body x s = (r, t)" by (meson surj_pair)
  then show ?thesis using guarded [of x] by (cases r) (auto simp: locked_free unlocked_run)
qed

lemma calls_free:
  "\<exists>l. calls call xs (False, s) = (case calls body xs s of (r, s') \<Rightarrow> (r, (l, s')))
    \<and> ((\<exists>y. fst (calls body xs s) = Stop y) \<or> \<not> l)"
proof (induction xs arbitrary: s)
  case (Cons x xs)
  obtain l where l: "call x (False, s) = (case body x s of (r, s') \<Rightarrow> (r, (l, s')))"
    "(\<exists>y. fst (body x s) = Stop y) \<or> \<not> l"
    using call_free by blast
  obtain r t where run: "body x s = (r, t)" by (meson surj_pair)
  obtain k where k: "calls call xs (False, t) = (case calls body xs t of (r, s') \<Rightarrow> (r, (k, s')))"
    "(\<exists>y. fst (calls body xs t) = Stop y) \<or> \<not> k"
    using Cons.IH by blast
  obtain q u where rest: "calls body xs t = (q, u)" by (meson surj_pair)
  show ?case
  proof (cases "\<exists>y. r = Stop y")
    case True
    then show ?thesis using l run by auto
  next
    case False
    with l run have "\<not> l" by simp
    then have "call x (False, s) = (r, (False, t))" using l(1) run by simp
    then have "calls call (x # xs) (False, s) = (case calls body (x # xs) s of (q, s') \<Rightarrow> (q, (k, s')))"
      using False run k(1) rest by (cases r; cases q) (simp_all add: seq_def try_io_def ret_def)
    moreover have "(\<exists>y. fst (calls body (x # xs) s) = Stop y) \<or> \<not> k"
      using k(2) run rest by (cases r; cases q) (simp_all add: seq_def try_io_def ret_def)
    ultimately show ?thesis by blast
  qed
qed (simp, blast)

end

subsection \<open>The container's interface is such a monitor\<close>

lemma void_locked: "void (locked m) = locked (void m)"
proof (rule ext, simp only: split_paired_all)
  fix held :: bool and t
  obtain r u where "m t = (r, u)" by (meson surj_pair)
  then show "void (locked m) (held, t) = locked (void m) (held, t)"
    by (cases r; cases held)
      (simp_all add: void_def locked_def mutex_Lock_def mutex_Unlock_def deferred_def unlocked_def zoom_def
        seq_def try_io_def ignore_def ret_def fail_def)
qed

lemma void_unlocked: "void (unlocked m) = unlocked (void m)"
proof (rule ext, simp only: split_paired_all)
  fix held :: bool and t
  obtain r u where "m t = (r, u)" by (meson surj_pair)
  then show "void (unlocked m) (held, t) = unlocked (void m) (held, t)"
    by (cases r) (simp_all add: void_def unlocked_def zoom_def seq_def try_io_def ret_def fail_def)
qed

lemma void_fail [simp]: "void (fail e) = fail e"
  by (simp add: void_def fun_eq_iff seq_def try_io_def fail_def)

lemma nabla_guarded:
  "api_call (nabla_container R H) x = locked (plain_call R H x) \<or>
   api_call (nabla_container R H) x = unlocked (plain_call R H x)"
  by (cases x) (simp_all add: nabla_container_def nabla_Status_def nabla_State_def nabla_Processes_def nabla_Stats_def
    nabla_Set_def nabla_Start_def nabla_Run_def nabla_Destroy_def nabla_Signal_def nabla_Exec_def void_locked void_unlocked)

interpretation nabla_api: monitor "api_call (nabla_container R H)" "plain_call R H"
  by unfold_locales (rule nabla_guarded)

subsection \<open>Calls keep a container well formed\<close>

lemma typed_void: "preserves P m \<Longrightarrow> preserves P (void m)"
  unfolding void_def by (intro preserves_seq preserves_ret)

context typed_runllc
begin

lemma plain_call_typed:
  assumes "StartTime_reads R" and "env_typed E"
  shows "preserves (typed_at E) (plain_call R H x)"
  by (cases x) (auto intro!: typed_void typed_currentState typed_start [OF assms] typed_Signal typed_exec
    typed_destroy_container preserves_fail)

lemma calls_typed:
  assumes "StartTime_reads R" and "env_typed E"
  shows "preserves (typed_at E) (calls (plain_call R H) xs)"
  by (induction xs) (simp_all only: calls.simps, (intro preserves_seq preserves_try_io preserves_ret plain_call_typed assms | assumption)+)

end

end
