(* ===== verification/Creation.thy ===== *)
theory Creation
  imports Lifecycle
begin

text \<open>
  How a life begins: what the \<open>create\<close> command leaves in the state file when it succeeds. Everything it
  runs but the save leaves that file alone, and the save writes the process that was started, is refused,
  or leaves the file truncated.
\<close>

subsection \<open>Operations that leave the state file alone\<close>

text \<open>The state file is \<open>P\<close>; the log may grow.\<close>

definition shows_life :: "path \<Rightarrow> string \<Rightarrow> life set \<Rightarrow> 'n world \<Rightarrow> bool" where
  "shows_life P c A w \<longleftrightarrow> w_cwd w = c \<and> life_of (fs_get w P) \<in> A"

lemma shows_life_log: "shows_life P c A w = at_life P c (w_log w) A w"
  by (simp add: shows_life_def at_life_def)

lemma shows_agrees:
  assumes "\<And>f. preserves (fs_agrees c (\<lambda>q. q \<noteq> P) f) m"
  shows "preserves (shows_life P c A) m"
proof (rule preservesI)
  fix w r w' assume w: "shows_life P c A w" and run: "m w = (r, w')"
  have "fs_agrees c (\<lambda>q. q \<noteq> P) (fs_get w) w" using w by (simp add: fs_agrees_def shows_life_def)
  then have "fs_agrees c (\<lambda>q. q \<noteq> P) (fs_get w) w'" using assms run by (blast dest: preservesD)
  then show "shows_life P c A w'" using w by (simp add: fs_agrees_def shows_life_def)
qed

lemma shows_write_state:
  assumes "WriteJSON_encodes R" and "State_typed s" and "resolve c (Join [root, stateFilename]) = P"
    and "Broken \<in> A" and "Present (st_Status s) (st_InitProcessPid s) \<in> A"
  shows "preserves (shows_life P c A) (write_state R root s)"
proof (rule preservesI)
  fix w r w' assume w: "shows_life P c A w" and run: "write_state R root s w = (r, w')"
  then show "shows_life P c A w'"
    using preservesD [OF at_life_write_state [OF assms, of "w_log w"] run] by (simp add: shows_life_def at_life_def)
qed

text \<open>The place of the new container: its files are not the state file.\<close>

definition apart :: "string \<Rightarrow> path \<Rightarrow> string \<Rightarrow> bool" where
  "apart c P rootfs \<longleftrightarrow> IsAbs rootfs \<and> \<not> prefix (resolve c rootfs) P \<and> \<not> prefix P (resolve c rootfs)"

lemma apart_writable: "apart c P rootfs \<Longrightarrow> writable_from (\<lambda>q. q \<noteq> P) f (resolve c rootfs @ es)"
  unfolding apart_def writable_from_def by (auto dest: append_prefixD simp: prefix_append)

subsection \<open>Creating\<close>

lemma place_files:
  assumes "place_ok root cid" and "IsAbs r" and "resolve c r = butlast (state_path root cid)" and "plain_elem x" and "x \<noteq> stateFilename"
  shows "resolve c (Join [r, x]) \<noteq> state_path root cid"
  using assms by (simp add: resolve_Join_plain state_path_def butlast_append)

lemma create_root_keeps:
  assumes place: "place_ok root cid" and r: "r = Join [Clean root, cid]"
  shows "preserves (fs_agrees c (\<lambda>q. q \<noteq> state_path root cid) f) (create_root id' r u g)"
proof -
  let ?P = "state_path root cid"
  have abs: "IsAbs r" and at: "resolve c r = butlast ?P"
    using state_path_resolve [OF place] by (simp_all add: r)
  have len: "length (butlast ?P) < length ?P" by (simp add: state_path_def)
  then have dir: "resolve c r \<noteq> ?P" unfolding at by (metis less_irrefl)
  have fifo: "resolve c (Join [r, execFifoFilename]) \<noteq> ?P"
    by (rule place_files [OF place abs at]) (simp, simp add: execFifoFilename_def stateFilename_def)
  have "\<not> prefix ?P (resolve c r)" using at len by (auto dest: prefix_length_le)
  then have "preserves (fs_agrees c (\<lambda>q. q \<noteq> ?P) f) (os_MkdirAll r (octal3 7 1 1))"
    by (intro agrees_MkdirAll) auto
  then show ?thesis
    using dir fifo by (intro keep_create_root make_fifo_pres agrees_read agrees_write)
qed

lemma create_fs_keeps:
  assumes place: "place_ok root cid" and r: "r = Join [Clean root, cid]"
    and P: "P = resolve root root @ [cid, x]" "x \<noteq> ''rootfs.iso''" and a: "apart c P (cfg_Rootfs config)"
  shows "preserves (fs_agrees c (\<lambda>q. q \<noteq> P) f) (create_fs (nablaLLCHandler nl) cid r config)"
proof -
  have abs: "IsAbs r" and at: "resolve c r = resolve root root @ [cid]"
    using state_path_resolve [OF place] by (simp_all add: r state_path_def butlast_append)
  then have iso: "resolve c (Join [r, ''rootfs.iso'']) \<noteq> P"
    using P by (simp add: resolve_Join_plain plain_elem_def)
  have "preserves (fs_agrees c (\<lambda>q. q \<noteq> P) f) (createRootfsISO config r)"
    using a iso apart_writable [OF a] by (intro agrees_createRootfsISO abs) (simp_all add: apart_def)
  then show ?thesis
    unfolding create_fs_def nablaLLCHandler_def iSOFsHandler_def iso_FsCreateFunc_def
    by (auto simp: create_input_def iso_FsCreateFunc_def
      intro!: preserves_seq preserves_lift_res preserves_map_err preserves_ret)
qed

lemma Create_keeps:
  assumes place: "place_ok root cid" and l: "fac_Root l = Clean root" "fac_LLCHandler l = nablaLLCHandler nl"
    and a: "apart c (state_path root cid) (cfg_Rootfs config)"
  shows "preserves (fs_agrees c (\<lambda>q. q \<noteq> state_path root cid) f) (Create l cid config)"
proof -
  have dev: "\<not> dev_net (state_path root cid)" using place by (simp add: place_ok_def)
  have net: "preserves (fs_agrees c (\<lambda>q. q \<noteq> state_path root cid) f) (NetworkCreateFunc (NetworkH (nablaLLCHandler nl)) i)" for i
    by (rule fs_agrees_weaken [OF runnc.net.net_region(1)]) (use dev in auto)
  have exec: "preserves (fs_agrees c (\<lambda>q. q \<noteq> state_path root cid) f) (ExecCreateFunc (ExecH (nablaLLCHandler nl)) i)" for i
    by (rule preserves_pure) (rule runnc.exec.exec_create_pure)
  show ?thesis
    unfolding Create_def Let_def l
    by (intro preserves_if preserves_fail preserves_seq preserves_lift_res preserves_case_prod preserves_map_err preserves_ret
        create_root_keeps [OF place refl] create_fs_keeps [where x = stateFilename, OF place refl _ _ a] net exec)
      (simp_all add: state_path_def stateFilename_def)
qed

lemma createContainer_life:
  assumes run: "createContainer ctx (nablaLLCHandler nl) cid spec w = (Ok c, w')" and names: "ctx_names ctx root cid"
    and place: "place_ok root cid" and config: "ParseSpec (Some spec) = Ok config" "Config_ok config"
    and a: "apart (w_cwd w) (state_path root cid) (cfg_Rootfs config)"
  shows "container_typed c \<and> nc_root c = Join [Clean root, cid] \<and> shows_life (state_path root cid) (w_cwd w) {life root cid w} w'"
proof -
  let ?config = "config\<lparr>cfg_Labels := cfg_Labels config @ [''bundle='' @ ctx_String ctx ''bundle'']\<rparr>"
  let ?P = "state_path root cid" and ?H = "nablaLLCHandler nl"
  obtain u v l x where st: "os_Stat (cfg_Rootfs config) w = (Ok u, v)"
    and fac: "loadFactory ctx ?H v = (Ok l, x)" and create: "Create l cid ?config x = (Ok c, w')"
    using run config(1) by (auto simp: createContainer_def Let_def seq_Ok_iff map_err_Ok_iff)
  have "shows_life ?P (w_cwd w) {life root cid w} w" by (simp add: shows_life_def life_def)
  then have v: "shows_life ?P (w_cwd w) {life root cid w} v"
    using preservesD [OF shows_agrees [OF agrees_read(1)] st] by blast
  note F = loadFactory_life [OF fac names place v [unfolded shows_life_log]]
  have x: "shows_life ?P (w_cwd w) {life root cid w} x" using F(1) by (simp add: shows_life_def at_life_def)
  have l: "fac_Root l = Clean root" "fac_LLCHandler l = ?H"
    using F(2) fac by (auto simp: loadFactory_def New_def seq_Ok_iff)
  have "shows_life ?P (w_cwd w) {life root cid w} w'"
    by (rule preservesD [OF shows_agrees [OF Create_keeps [OF place l]] create x]) (use a in simp)
  moreover have "container_typed c"
    using runnc_life.typed_Create [OF l(2) create] config(2) by (simp add: Config_ok_def)
  moreover have "nc_root c = Join [Clean root, cid]"
    using create l(1) by (auto simp: Create_def Let_def seq_Ok_iff new_container_def split: if_splits)
  ultimately show ?thesis by blast
qed

subsection \<open>Starting\<close>

lemma wf_NewSockPair: "preserves fs_wf (NewSockPair n)"
  unfolding NewSockPair_def by (intro preserves_seq preserves_ret wf_read)

lemma agrees_NewSockPair: "preserves (fs_agrees c R f) (NewSockPair n)"
  unfolding NewSockPair_def by (intro preserves_seq preserves_ret agrees_read)

text \<open>
  A start that succeeds: until it saves the state it has changed no file, and what it saves is the state
  of the new process.
\<close>

lemma start_saves:
  assumes lib: "StartTime_reads R" and run: "start R p (c, w) = (Ok p', (c', w'))"
  obtains v k where "\<And>q. fs_get v q = fs_get w q" and "w_cwd v = w_cwd w" and "w_env v = w_env w" and "fs_wf w \<Longrightarrow> fs_wf v"
    and "w' = snd (write_state R (nc_root c) (nc_state c') v)" and "st_Status (nc_state c') = Created"
    and "p_ops p' = Some (st_InitProcessPid (nc_state c'))" and "st_InitProcessPid (nc_state c') = e_spawn (w_env w) k"
proof -
  obtain n w1 rootDir w2 w3 pid w4 where
    pipe: "NewSockPair ''init'' w = (Ok n, w1)" and dir: "os_Open (nc_root c) w1 = (Ok rootDir, w2)"
    and send: "sock_Write (print_json (enc_initConfig (init_config c)) @ [CHR 0x0A]) w2 = (Ok (), w3)"
    and spawn: "proc_Start (cmd_Path (add_state_dir rootDir (commandTemplate c p)))
      (cmd_Args (add_state_dir rootDir (commandTemplate c p))) (cmd_Dir (add_state_dir rootDir (commandTemplate c p))) w3 = (Ok pid, w4)"
    and rest: "seq (on_world time_Now) (\<lambda>now.
     seq (set_state (\<lambda>s. s\<lparr>st_InitProcessPid := pid, st_Created := now, st_Status := Created\<rparr>)) (\<lambda>_.
     try_io (on_world (rl_GetProcessStartTime R pid))
       (\<lambda>e. seq (set_state (\<lambda>s. s\<lparr>st_InitProcessStartTime := ''''\<rparr>)) (\<lambda>_. fail e))
       (\<lambda>t. seq (set_state (\<lambda>s. s\<lparr>st_InitProcessStartTime := t\<rparr>)) (\<lambda>_.
            seq (ignore (saveState R)) (\<lambda>_. ret (p\<lparr>p_ops := Some pid\<rparr>)))))) (c, w4) = (Ok p', (c', w'))"
    using run by (auto simp: start_def Let_def seq_Ok_iff map_err_Ok_iff on_world_Ok_iff simp del: on_world_run command_path)
  let ?same = "fs_agrees (w_cwd w) (\<lambda>_. False) (fs_get w)"
  have "?same w" by (simp add: fs_agrees_def)
  then have w4: "?same w4"
    using preservesD [OF agrees_NewSockPair pipe] preservesD [OF agrees_read(2) dir] preservesD [OF agrees_sock_Write send]
      preservesD [OF agrees_read(10) spawn] by blast
  have env: "w_env w4 = w_env w \<and> (\<exists>k. pid = e_spawn (w_env w) k)"
  proof -
    have blind: "fs_blind (\<lambda>v. w_env v = w_env w)" by (rule fs_blind_env [of "\<lambda>e _ _ _. e = w_env w"])
    have "preserves (\<lambda>v. w_env v = w_env w) (NewSockPair ''init'')"
      unfolding NewSockPair_def sys_Socketpair_def by (intro preserves_seq preserves_ret blind_syscall blind)
    then have "w_env w1 = w_env w" using pipe by (rule preservesD) simp
    with dir have "w_env w2 = w_env w" by (rule preservesD [OF blind_os_ops(8) [OF blind]])
    with send have "w_env w3 = w_env w" by (rule preservesD [OF blind_sock_Write [OF blind]])
    moreover have "w_env w4 = w_env w3 \<and> (\<exists>k. pid = e_spawn (w_env w3) k)"
      using spawn by (auto simp: proc_Start_def syscall_def Let_def split: option.splits if_splits)
    ultimately show ?thesis by simp
  qed
  obtain q where clock: "rl_GetProcessStartTime R pid w4 = (q, w4)"
    using lib by (metis StartTime_reads_def prod.collapse)
  obtain now where now: "time_Now w4 = (Ok now, w4)" by (simp add: time_Now_def)
  obtain t where q: "q = Ok t"
    using rest by (cases q) (auto simp: now clock)
  define c2 where "c2 = c\<lparr>nc_state := (nc_state c)\<lparr>st_InitProcessPid := pid, st_Created := now, st_Status := Created,
    st_InitProcessStartTime := t\<rparr>\<rparr>"
  have save: "seq (ignore (saveState R)) (\<lambda>_. ret (p\<lparr>p_ops := Some pid\<rparr>)) (c2, w4) = (Ok p', (c', w'))"
    using rest by (simp add: now clock q c2_def)
  obtain y u where ig: "ignore (saveState R) (c2, w4) = (y, u)" by (meson surj_pair)
  then have "snd u = snd (write_state R (nc_root c2) (nc_state c2) w4)"
    by (auto simp: ignore_def saveState_def try_io_def split: prod.splits res.splits)
  with saveState_object [OF ig] save ig have "c' = c2" "w' = snd (write_state R (nc_root c) (nc_state c2) w4)"
    "p' = p\<lparr>p_ops := Some pid\<rparr>"
    by (auto simp: c2_def)
  moreover have "fs_wf w \<Longrightarrow> fs_wf w4"
    using preservesD [OF wf_NewSockPair pipe] preservesD [OF wf_read(2) dir] preservesD [OF wf_sock_Write send]
      preservesD [OF wf_read(9) spawn] by blast
  moreover obtain k where "pid = e_spawn (w_env w) k" using env by blast
  ultimately show thesis using w4 env by (intro that [of w4 k]) (simp_all add: fs_agrees_def c2_def)
qed

lemma start_shows:
  assumes R: "WriteJSON_encodes R" and lib: "StartTime_reads R" and env: "env_typed (w_env w)"
    and place: "place_ok root cid" and c: "container_typed c" "nc_root c = Join [Clean root, cid]"
    and w: "shows_life (state_path root cid) d {a} w" and run: "start R p (c, w) = (Ok p', (c', w'))"
  shows "shows_life (state_path root cid) d {a, Broken, Present Created (st_InitProcessPid (nc_state c'))} w'"
proof -
  let ?A = "{a, Broken, Present Created (st_InitProcessPid (nc_state c'))}"
  obtain v where v: "\<And>q. fs_get v q = fs_get w q" "w_cwd v = w_cwd w"
    "w' = snd (write_state R (nc_root c) (nc_state c') v)" "st_Status (nc_state c') = Created"
    using start_saves [OF lib run] by blast
  have "typed_at (w_env w) (c', w')"
    by (rule preservesD [OF typed_start [OF lib env] run]) (simp add: typed_at_def c)
  then have "State_typed (nc_state c')" by (simp add: typed_at_def container_typed_def)
  then have "preserves (shows_life (state_path root cid) d ?A) (write_state R (nc_root c) (nc_state c'))"
    using state_path_resolve(1) [OF place, of d] c(2) v(4) by (intro shows_write_state R) simp_all
  moreover have "shows_life (state_path root cid) d ?A v" using w v(1,2) by (simp add: shows_life_def)
  ultimately show ?thesis unfolding v(3) by (rule preserves_snd)
qed

subsection \<open>The runner\<close>

lemma or_destroy_Ok: "or_destroy H r m s = (Ok a, t) \<longleftrightarrow> m s = (Ok a, t)"
  by (cases "m s"; cases "fst (m s)") (auto simp: or_destroy_def seq_Ok_iff)

lemma or_kill_Ok: "or_kill H r p m s = (Ok a, t) \<longleftrightarrow> m s = (Ok a, t)"
  by (cases "m s"; cases "fst (m s)") (auto simp: or_kill_def seq_Ok_iff)

lemma agrees_pid_files:
  assumes "R (resolve c old)" and "R (resolve c new)"
  shows "preserves (fs_agrees c R f) (os_CreateExcl old m)" and "preserves (fs_agrees c R f) (os_CreateTrunc old m)"
    and "preserves (fs_agrees c R f) (os_Rename old new)"
  unfolding os_CreateExcl_def os_CreateTrunc_def os_Rename_def
  by (intro agrees_at_path agrees_syscall;
      use assms in \<open>auto simp: preserves_def create_entry_def seq_def try_io_def ret_def fail_def
        intro!: agrees_put agrees_remove split: option.splits if_splits\<close>)+

lemma process_id_run: "p_ops p = Some pid \<Longrightarrow> process_id p = ret pid"
  by (simp add: process_id_def Process_Pid_def)

lemma agrees_close: "preserves (fs_agrees c R f) (ignore (file_Close q))"
  by (intro preserves_ignore agrees_read_more)

lemma agrees_write_new:
  assumes "R (resolve c path)" and "k = os_CreateExcl path m \<or> k = os_CreateTrunc path m"
    and "\<And>q b. preserves (fs_agrees c R f) (rest q b)"
  shows "preserves (fs_agrees c R f) (seq k (\<lambda>q. try_io (file_Write q s)
    (\<lambda>e. seq (ignore (file_Close q)) (\<lambda>_. fail e)) (rest q)))"
proof (rule preserves_seq_value)
  show "preserves (fs_agrees c R f) k"
    using assms(2) agrees_pid_files(1,2) [where R = R and c = c and old = path and new = path] assms(1) by blast
next
  fix q w w' assume w: "fs_agrees c R f w" and run: "k w = (Ok q, w')"
  then have "q = resolve c path"
    using assms(2) w by (auto simp: os_CreateExcl_def os_CreateTrunc_def at_path_def syscall_def seq_Ok_iff Let_def fs_agrees_def
      split: if_splits option.splits)
  then show "preserves (fs_agrees c R f) (try_io (file_Write q s) (\<lambda>e. seq (ignore (file_Close q)) (\<lambda>_. fail e)) (rest q))"
    using assms(1,3) by (intro preserves_try_io preserves_seq agrees_close preserves_fail agrees_file_Write) simp_all
qed

lemma createPidFile_keeps:
  assumes "resolve c (pid_temp path) \<noteq> P" and "resolve c path \<noteq> P" and "p_ops p = Some pid"
  shows "preserves (fs_agrees c (\<lambda>q. q \<noteq> P) f) (createPidFile path p)"
  unfolding createPidFile_def process_id_run [OF assms(3)] seq_ret
  by (rule agrees_write_new [where path = "pid_temp path"])
    (use assms in \<open>auto intro!: preserves_seq agrees_close agrees_pid_files(3)\<close>)

lemma resolve_Join3:
  assumes "IsAbs a" and "plain_elem e"
  shows "last (resolve c (Join [a, b, e])) = e"
proof -
  let ?p = "a @ CHR ''/'' # b"
  have abs: "IsAbs ?p" using assms(1) by (rule IsAbs_append)
  have "Join [a, b, e] = Clean (?p @ CHR ''/'' # e)"
    using IsAbs_nonempty [OF assms(1)] by (simp add: Join_def)
  then have "resolve c (Join [a, b, e]) = resolve c (?p @ CHR ''/'' # e)"
    by (metis IsAbs_append abs resolve_Clean)
  also have "\<dots> = resolve c ?p @ [e]"
    using resolve_append_noslash [OF abs, of e c] assms(2) by (simp add: clean_step_plain plain_elem_def)
  finally show ?thesis by simp
qed

lemma adjustOomScore_keeps:
  assumes "last P \<noteq> ''oom_score_adj''" and "p_ops p = Some pid"
  shows "preserves (fs_agrees c (\<lambda>q. q \<noteq> P) f) (adjustOomScore p)"
proof -
  have "last (resolve c (Join [''/proc/'', int_text pid, ''oom_score_adj''])) = ''oom_score_adj''"
    by (rule resolve_Join3) (simp_all add: plain_elem_def IsAbs_def HasPrefix_def)
  then have "resolve c (Join [''/proc/'', int_text pid, ''oom_score_adj'']) \<noteq> P"
    using assms(1) by auto
  then have "preserves (fs_agrees c (\<lambda>q. q \<noteq> P) f)
      (ioutil_WriteFile (Join [''/proc/'', int_text pid, ''oom_score_adj'']) v (octal3 6 4 4))" for v
    unfolding ioutil_WriteFile_def by (intro agrees_write_new) (auto intro: agrees_read_more)
  then show ?thesis
    unfolding adjustOomScore_def process_id_run [OF assms(2)] seq_ret
    by (intro preserves_case_option preserves_fail)
qed

text \<open>What follows the start of the process, and the whole runner, when they succeed.\<close>

lemma after_start_quiet:
  assumes run: "after_start R H T r no_tty signals p (c, w) = (Ok st, (c', w'))" and r: "rn_create r"
    and pidfile: "rn_pidFile r \<noteq> '''' \<Longrightarrow> preserves Q (createPidFile (rn_pidFile r) p)"
    and oom: "preserves Q (adjustOomScore p)" and w: "Q w"
  shows "c' = c \<and> Q w'"
proof -
  have close: "tty_ClosePostStart no_tty = ret ()" by (simp add: tty_ClosePostStart_def close_all_def no_tty_def)
  obtain s1 where s1: "(if rn_pidFile r \<noteq> '''' then or_kill H r p (on_world (createPidFile (rn_pidFile r) p)) else ret ()) (c, w) = (Ok (), s1)"
    and s2: "(if p_OOMScoreAdj p \<noteq> None then or_kill H r p (on_world (adjustOomScore p)) else ret ()) s1 = (Ok (), (c', w'))"
    using run r unfolding after_start_def close
    by (auto simp: seq_Ok_iff or_kill_Ok on_world_Ok_iff split: if_splits)
  have "fst s1 = c \<and> Q (snd s1)"
    using s1 w by (cases "rn_pidFile r = ''''")
      (auto simp: or_kill_Ok on_world_Ok_iff simp del: on_world_run dest: preservesD [OF pidfile])
  then show ?thesis
    using s2 by (cases "p_OOMScoreAdj p"; cases s1)
      (auto simp: or_kill_Ok on_world_Ok_iff simp del: on_world_run dest: preservesD [OF oom])
qed

lemma after_start_keeps:
  assumes run: "after_start R H T r no_tty signals p (c, w) = (Ok st, (c', w'))" and r: "rn_create r" and ops: "p_ops p = Some pid"
    and pidfile: "rn_pidFile r = '''' \<or>
      resolve (w_cwd w) (pid_temp (rn_pidFile r)) \<noteq> P \<and> resolve (w_cwd w) (rn_pidFile r) \<noteq> P"
    and P: "last P \<noteq> ''oom_score_adj''"
  shows "c' = c \<and> w_cwd w' = w_cwd w \<and> fs_get w' P = fs_get w P"
proof -
  let ?same = "fs_agrees (w_cwd w) (\<lambda>q. q \<noteq> P) (fs_get w)"
  have "c' = c \<and> ?same w'"
    by (rule after_start_quiet [OF run r createPidFile_keeps adjustOomScore_keeps [OF P ops]])
      (use ops pidfile in \<open>auto simp: fs_agrees_def\<close>)
  then show ?thesis by (simp add: fs_agrees_def)
qed

lemma run_parts:
  assumes lib: "StartTime_reads R" "Subreaper_quiet R" and r: "rn_create r"
    and run: "run R H T r signals sp (c, w) = (Ok st, (c', w'))"
  obtains p1 k p2 c3 w3 where "start R p1 (c, w\<lparr>w_tick := k\<rparr>) = (Ok p2, (c3, w3))"
    and "after_start R H T r no_tty signals p2 (c3, w3) = (Ok st, (c', w'))"
proof -
  obtain p1 t0 w1 t w2 where io: "setupIO T (listen_files (rn_listenFDs r) (newProcess sp)) 0 0 (rn_console r) (sp_Terminal sp) True w = (Ok (p1, t0), w1)"
    and sig: "newSignalHandler R t0 (rn_enableSubreaper r) w1 = (Ok t, w2)"
    and go: "deferred (on_world (tty_Close T t)) (seq (or_destroy H r (start R p1)) (after_start R H T r t signals)) (c, w2) = (Ok st, (c', w'))"
    using run r unfolding run_def Let_def
    by (auto simp: seq_Ok_iff or_destroy_Ok on_world_Ok_iff HostUID_def HostGID_def simp del: on_world_run)
  obtain k where t0: "t0 = no_tty" and w1: "w1 = w\<lparr>w_tick := k\<rparr>" using setupIO_detached [OF io] by auto
  have t: "t = no_tty" and w2: "w2 = w\<lparr>w_tick := k\<rparr>" using newSignalHandler_quiet [OF lib(2) sig] t0 w1 by auto
  have "tty_Close T no_tty = ret ()"
    by (auto simp: tty_Close_def no_tty_def close_all_def ret_def seq_def try_io_def)
  then obtain p2 c3 w3 where "start R p1 (c, w\<lparr>w_tick := k\<rparr>) = (Ok p2, (c3, w3))"
    "after_start R H T r no_tty signals p2 (c3, w3) = (Ok st, (c', w'))"
    using go w2 by (auto simp: t deferred_def seq_Ok_iff or_destroy_Ok try_io_def ignore_def split: prod.splits res.splits)
  then show thesis by (rule that)
qed

lemma run_shows:
  assumes R: "WriteJSON_encodes R" and lib: "StartTime_reads R" "Subreaper_quiet R" and env: "env_typed (w_env w)"
    and place: "place_ok root cid" and c: "container_typed c" "nc_root c = Join [Clean root, cid]"
    and r: "rn_create r" and pidfile: "rn_pidFile r = '''' \<or>
      resolve d (pid_temp (rn_pidFile r)) \<noteq> state_path root cid \<and> resolve d (rn_pidFile r) \<noteq> state_path root cid"
    and w: "shows_life (state_path root cid) d {a} w" and run: "run R H T r signals sp (c, w) = (Ok st, (c', w'))"
  shows "shows_life (state_path root cid) d {a, Broken, Present Created (st_InitProcessPid (nc_state c'))} w'"
proof -
  obtain p1 k p2 c3 w3 where st: "start R p1 (c, w\<lparr>w_tick := k\<rparr>) = (Ok p2, (c3, w3))"
    and after: "after_start R H T r no_tty signals p2 (c3, w3) = (Ok st, (c', w'))"
    using run_parts [OF lib r run] .
  have w3: "shows_life (state_path root cid) d {a, Broken, Present Created (st_InitProcessPid (nc_state c3))} w3"
    by (rule start_shows [OF R lib(1) _ place c _ st]) (use env w in \<open>simp_all add: shows_life_def\<close>)
  then have d: "w_cwd w3 = d" by (simp add: shows_life_def)
  have ops: "p_ops p2 = Some (st_InitProcessPid (nc_state c3))" using start_saves [OF lib(1) st] by blast
  have "last (state_path root cid) \<noteq> ''oom_score_adj''" by (simp add: state_path_def stateFilename_def)
  from after_start_keeps [OF after r ops _ this] pidfile d w3 show ?thesis by (simp add: shows_life_def)
qed

text \<open>The command: the process it started, and the state file.\<close>

lemma startContainer_parts:
  assumes run: "startContainer ctx R H T signals spec True w = (Ok st, w')" and names: "ctx_names ctx root cid"
    and place: "place_ok root cid"
  obtains c v sp c' where "createContainer ctx H cid spec w = (Ok c, v)"
    and "run R H T \<lparr>rn_enableSubreaper = \<not> ctx_Bool ctx ''no-subreaper'', rn_shouldDestroy = True,
      rn_detach = ctx_Bool ctx ''detach'', rn_listenFDs = [], rn_pidFile = ctx_String ctx ''pid-file'',
      rn_console = ctx_String ctx ''console'', rn_create = True\<rparr> signals sp (c, v) = (Ok st, (c', w'))"
proof -
  have cid: "Args_Get ctx 0 = cid" "cid \<noteq> ''''" using names place by (auto simp: ctx_names_def place_ok_def validateID_Ok)
  obtain c v sp where "createContainer ctx H cid spec w = (Ok c, v)"
    and "with_container c (run R H T \<lparr>rn_enableSubreaper = \<not> ctx_Bool ctx ''no-subreaper'', rn_shouldDestroy = True,
      rn_detach = ctx_Bool ctx ''detach'', rn_listenFDs = [], rn_pidFile = ctx_String ctx ''pid-file'',
      rn_console = ctx_String ctx ''console'', rn_create = True\<rparr> signals sp) v = (Ok st, w')"
    using run cid by (auto simp: startContainer_def Let_def seq_Ok_iff split: option.splits)
  then show thesis by (auto simp: with_container_def intro: that split: prod.splits)
qed

lemma startContainer_life:
  assumes R: "WriteJSON_encodes R" and lib: "StartTime_reads R" "Subreaper_quiet R" and env: "env_typed (w_env w)"
    and names: "ctx_names ctx root cid" and place: "place_ok root cid"
    and config: "ParseSpec (Some spec) = Ok config" "Config_ok config"
    and a: "apart (w_cwd w) (state_path root cid) (cfg_Rootfs config)"
    and pidfile: "ctx_String ctx ''pid-file'' = '''' \<or>
      resolve (w_cwd w) (pid_temp (ctx_String ctx ''pid-file'')) \<noteq> state_path root cid \<and>
      resolve (w_cwd w) (ctx_String ctx ''pid-file'') \<noteq> state_path root cid"
    and run: "startContainer ctx R (nablaLLCHandler nl) T signals spec True w = (Ok st, w')"
  shows "\<exists>pid. w_log w' = w_log w @ [Started ''/proc/self/exe'' [''/proc/self/exe'', ''init''] pid]
    \<and> life root cid w' \<in> {life root cid w, Broken, Present Created pid}"
proof -
  let ?H = "nablaLLCHandler nl"
  let ?r = "\<lparr>rn_enableSubreaper = \<not> ctx_Bool ctx ''no-subreaper'', rn_shouldDestroy = True,
    rn_detach = ctx_Bool ctx ''detach'', rn_listenFDs = [], rn_pidFile = ctx_String ctx ''pid-file'',
    rn_console = ctx_String ctx ''console'', rn_create = True\<rparr>"
  obtain c v sp c' where create: "createContainer ctx ?H cid spec w = (Ok c, v)"
    and main: "run R ?H T ?r signals sp (c, v) = (Ok st, (c', w'))"
    using startContainer_parts [OF run names place] .
  note C = createContainer_life [OF create names place config a]
  have out: "outside v = outside w" by (rule preservesD [OF runnc.createContainer_outside create refl])
  have "shows_life (state_path root cid) (w_cwd w) {life root cid w, Broken, Present Created (st_InitProcessPid (nc_state c'))} w'"
    by (rule run_shows [OF R lib _ place _ _ _ _ _ main]) (use C out env pidfile in \<open>auto simp: outside_def\<close>)
  moreover have "started c (w_log v) (c', w')"
    using ensuresD(1) [OF runnc.run_cases [of ?r R c "w_log v" nl T signals sp], of "(c, v)" st "(c', w')"] main lib
    by (simp add: unstarted_def)
  ultimately show ?thesis
    using out by (auto simp: started_def shows_life_def life_def outside_def)
qed

end
