(* ===== verification/Progress.thy ===== *)
theory Progress
  imports Lifecycle
begin

text \<open>
  What the commands achieve when the machine lets them: where no call is refused and the tree is well
  formed, a created container whose process waits at the FIFO is started, and a container whose process
  goes away is deleted.
\<close>

subsection \<open>A machine that refuses nothing\<close>

definition refuses_nothing :: "'n world \<Rightarrow> bool" where
  "refuses_nothing w \<longleftrightarrow> (\<forall>t oper. e_fault (w_env w) t oper = None) \<and> fs_wf w"

lemma refuses_nothing_tick [simp]: "refuses_nothing (w\<lparr>w_tick := t\<rparr>) = refuses_nothing w"
  by (simp add: refuses_nothing_def)

lemma syscall_lets: "refuses_nothing w \<Longrightarrow> syscall oper m w = m (w\<lparr>w_tick := Suc (w_tick w)\<rparr>)"
  by (simp add: syscall_def refuses_nothing_def Let_def)

lemma wf_dir_above: "fs_wf w \<Longrightarrow> fs_get w p = Some n \<Longrightarrow> strict_prefix q p \<Longrightarrow> is_dir w q"
proof (induction p arbitrary: n rule: rev_induct)
  case (snoc x xs)
  then have "is_dir w (butlast (xs @ [x]))" unfolding fs_wf_def by blast
  then have dir: "is_dir w xs" by simp
  show ?case
  proof (cases "q = xs")
    case False
    with snoc.prems(3) have "strict_prefix q xs" by (metis prefix_order.less_le prefix_snoc)
    with snoc.IH [OF snoc.prems(1)] is_dir_exists [OF dir] show ?thesis by blast
  qed (use dir in simp)
qed simp

lemma mkdir_there: "(\<And>q. q \<in> set qs \<Longrightarrow> is_dir w q) \<Longrightarrow> for_each qs (mkdir_missing m) w = (Ok (), w)"
proof (induction qs)
  case (Cons q qs)
  then obtain n where "fs_get w q = Some n" "i_kind n = KDir" using is_dir_exists [of w q] by auto
  then have "mkdir_missing m q w = (Ok (), w)" by (simp add: mkdir_missing_def)
  with Cons show ?case by simp
qed simp

lemma MkdirAll_there:
  assumes "refuses_nothing w" and "p \<noteq> ''''" and "\<And>q. prefix q (resolve (w_cwd w) p) \<Longrightarrow> is_dir w q"
  shows "os_MkdirAll p m w = (Ok (), w\<lparr>w_tick := Suc (w_tick w)\<rparr>)"
proof -
  have "for_each (prefixes (resolve (w_cwd w) p)) (mkdir_missing m) (w\<lparr>w_tick := Suc (w_tick w)\<rparr>)
      = (Ok (), w\<lparr>w_tick := Suc (w_tick w)\<rparr>)"
    by (rule mkdir_there) (simp add: assms(3))
  then show ?thesis using assms(1,2) by (simp add: os_MkdirAll_def at_path_def syscall_lets)
qed

text \<open>The state file of a container that is present, and what decoding it gives.\<close>

lemma life_PresentE:
  assumes "life root cid w = Present s p"
  obtains n tx st where "fs_get w (state_path root cid) = Some n" and "i_kind n = KFile tx"
    and "Option.bind (parse_json tx) dec_State_ptr = Some (Some st)" and "st_Status st = s" and "st_InitProcessPid st = p"
  using assms
  by (auto simp: life_def life_of_def life_text_def split: option.splits kind.splits)

lemma loadState_found:
  assumes ok: "refuses_nothing w" and P: "resolve (w_cwd w) (Join [r, stateFilename]) = P" and ne: "Join [r, stateFilename] \<noteq> ''''"
    and fl: "fs_get w P = Some n" "i_kind n = KFile tx" "Option.bind (parse_json tx) dec_State_ptr = Some (Some st)"
  shows "loadState r cid w = (Ok (Some st), w\<lparr>w_tick := w_tick w + 3\<rparr>)"
proof -
  have "os_Open (Join [r, stateFilename]) w = (Ok P, w\<lparr>w_tick := Suc (w_tick w)\<rparr>)"
    using ok ne P fl(1) by (simp add: os_Open_run refuses_nothing_def)
  moreover have "file_ReadAll P (w\<lparr>w_tick := Suc (w_tick w)\<rparr>) = (Ok tx, w\<lparr>w_tick := Suc (Suc (w_tick w))\<rparr>)"
    using ok fl(1,2) by (simp add: file_ReadAll_def syscall_lets)
  moreover have "file_Close P (w\<lparr>w_tick := Suc (Suc (w_tick w))\<rparr>) = (Ok (), w\<lparr>w_tick := w_tick w + 3\<rparr>)"
    using ok by (simp add: file_Close_def syscall_lets eval_nat_numeral)
  ultimately show ?thesis using fl(3)
    by (simp add: loadState_def decode_state_def deferred_def map_err_run ignore_def seq_def try_io_def ret_def)
qed

lemma getContainer_found:
  assumes ctx: "ctx_names ctx root cid" and place: "place_ok root cid" and ok: "refuses_nothing w"
    and life: "life root cid w = Present s p"
  obtains c where "getContainer ctx H w = (Ok c, w\<lparr>w_tick := w_tick w + 4\<rparr>)" and "loaded root cid c w"
    and "st_Status (nc_state c) = s" and "st_InitProcessPid (nc_state c) = p"
proof -
  obtain n tx st where fl: "fs_get w (state_path root cid) = Some n" "i_kind n = KFile tx"
    "Option.bind (parse_json tx) dec_State_ptr = Some (Some st)" "st_Status st = s" "st_InitProcessPid st = p"
    using life by (rule life_PresentE)
  let ?w = "w\<lparr>w_tick := Suc (w_tick w)\<rparr>"
  have abs: "IsAbs root" and cid: "Args_Get ctx 0 = cid" "cid \<noteq> ''''"
    using ctx place by (auto simp: ctx_names_def place_ok_def validateID_Ok)
  have cr: "Clean root \<noteq> ''''" using abs by (simp add: Clean_abs [of root root] path_text_def)
  have "is_dir w q" if "prefix q (resolve (w_cwd w) (Clean root))" for q
  proof (rule wf_dir_above [OF _ fl(1)])
    show "fs_wf w" using ok by (simp add: refuses_nothing_def)
    have "prefix q (resolve root root)" using that abs resolve_abs_cwd [OF abs, of "w_cwd w" root] by (simp add: resolve_Clean)
    then show "strict_prefix q (state_path root cid)"
      unfolding state_path_def by (metis list.distinct(1) prefix_order.le_less_trans strict_prefixI' append_Cons)
  qed
  then have dir: "os_MkdirAll (Clean root) m w = (Ok (), ?w)" for m by (intro MkdirAll_there ok cr)
  have fac: "loadFactory ctx H w = (Ok \<lparr>fac_Root = Clean root, fac_LLCHandler = H\<rparr>, ?w)"
    using ctx abs cr by (simp add: loadFactory_def ctx_names_def filepath_Abs_def New_def dir)
  let ?r = "Join [Clean root, cid]"
  have "Join [?r, stateFilename] \<noteq> ''''" by (rule IsAbs_nonempty [OF IsAbs_Join [OF state_path_resolve(3) [OF place]]])
  with loadState_found [of ?w ?r "state_path root cid" n tx st cid] ok fl state_path_resolve(1) [OF place, of "w_cwd w"]
  have ld: "loadState ?r cid ?w = (Ok (Some st), w\<lparr>w_tick := w_tick w + 4\<rparr>)" by (simp add: eval_nat_numeral)
  let ?c = "\<lparr>nc_id = cid, nc_root = ?r, nc_config = st_Config st, nc_state = st\<rparr>"
  have found: "getContainer ctx H w = (Ok ?c, w\<lparr>w_tick := w_tick w + 4\<rparr>)"
    using cid fac cr ld by (simp add: getContainer_def Load_def Let_def)
  moreover have "loaded root cid ?c w"
    using getContainer_life(2) [OF found ctx place] by (simp add: loaded_def life_def)
  ultimately show thesis using fl(4,5) by (intro that [of ?c]) simp_all
qed

subsection \<open>Starting\<close>

lemma write_state_done:
  assumes ok: "refuses_nothing w" and P: "resolve (w_cwd w) (Join [r, stateFilename]) = P" and ne: "Join [r, stateFilename] \<noteq> ''''"
    and old: "fs_get w P = Some n" "i_kind n = KFile tx"
  shows "write_state R r st w =
    (Ok (), (fs_put P (n\<lparr>i_kind := KFile (rl_WriteJSON R (enc_State st))\<rparr>) w)\<lparr>w_tick := w_tick w + 3\<rparr>)"
proof -
  let ?e = "fs_put P (n\<lparr>i_kind := KFile ''''\<rparr>) (w\<lparr>w_tick := Suc (w_tick w)\<rparr>)"
  have env: "e_fault (w_env w) t oper = None" for t oper using ok by (simp add: refuses_nothing_def)
  have made: "os_Create (Join [r, stateFilename]) w = (Ok P, ?e)"
    using P ne old by (simp add: os_Create_def at_path_def syscall_def env Let_def truncate_inode_def)
  have "fs_put P m (?e\<lparr>w_tick := t\<rparr>) = (fs_put P m w)\<lparr>w_tick := t\<rparr>" for m t
    by (simp add: fs_put_def update_last)
  then have wrote: "file_Write P x ?e = (Ok (), (fs_put P (n\<lparr>i_kind := KFile x\<rparr>) w)\<lparr>w_tick := Suc (Suc (w_tick w))\<rparr>)" for x
    by (simp add: file_Write_def syscall_def env Let_def update_inode_def append_inode_def)
  have close: "file_Close P v = (Ok (), v\<lparr>w_tick := Suc (w_tick v)\<rparr>)" if "w_env v = w_env w" for v :: "'a world"
    using that by (simp add: file_Close_def syscall_def env Let_def ret_def)
  show ?thesis
    by (simp add: write_state_def made deferred_def wrote close ignore_def seq_def try_io_def ret_def eval_nat_numeral)
qed

lemma Remove_fifo:
  assumes ok: "refuses_nothing w" and F: "p \<noteq> ''''" "fs_get w (resolve (w_cwd w) p) = Some n" "i_kind n = KFifo"
  shows "os_Remove p w = (Ok (), fs_remove (\<lambda>r. r = resolve (w_cwd w) p) (w\<lparr>w_tick := Suc (w_tick w)\<rparr>))"
proof -
  let ?F = "resolve (w_cwd w) p"
  have wf: "fs_wf w" and env: "e_fault (w_env w) t oper = None" for t oper using ok by (simp_all add: refuses_nothing_def)
  have leaf: "\<not> is_dir w ?F" using F(2,3) by (simp add: is_dir_get)
  then have "?F \<noteq> []" using wf unfolding fs_wf_def by auto
  moreover have "\<not> has_children w ?F"
  proof
    assume "has_children w ?F"
    then obtain q m where "(q, m) \<in> set (w_fs w)" "strict_prefix ?F q" by (auto simp: has_children_def list_ex_iff)
    moreover from this(1) obtain m' where "fs_get w q = Some m'" by (auto simp: fs_get_def dest: weak_map_of_SomeI)
    ultimately show False using wf_dir_above [OF wf] leaf by blast
  qed
  moreover have "exists_at w ?F" using F(2) by (simp add: exists_at_def)
  ultimately show ?thesis using F(1)
    by (simp add: os_Remove_def at_path_def syscall_def env Let_def exists_at_def has_children_def)
qed

lemma exec_done:
  assumes ok: "refuses_nothing w" and P: "resolve (w_cwd w) (Join [nc_root c, stateFilename]) = P" "Join [nc_root c, stateFilename] \<noteq> ''''"
    and F: "resolve (w_cwd w) (Join [nc_root c, execFifoFilename]) = F" "Join [nc_root c, execFifoFilename] \<noteq> ''''" and "F \<noteq> P"
    and old: "fs_get w P = Some n" "i_kind n = KFile tx"
    and fifo: "fs_get w F = Some k" "i_kind k = KFifo" "\<And>t. \<exists>x xs. e_fifo (w_env w) t F = Some (x # xs)"
  shows "\<exists>v. exec R (c, w) = (Ok (), (set_status Running c, v)) \<and> fs_get v F = None \<and> w_log v = w_log w
    \<and> refuses_nothing v \<and> fs_get v P = Some (n\<lparr>i_kind := KFile (rl_WriteJSON R (enc_State (nc_state (set_status Running c))))\<rparr>)"
proof -
  let ?w1 = "w\<lparr>w_tick := Suc (w_tick w)\<rparr>" and ?w2 = "w\<lparr>w_tick := Suc (Suc (w_tick w))\<rparr>" and ?d = "set_status Running c"
  let ?n = "n\<lparr>i_kind := KFile (rl_WriteJSON R (enc_State (nc_state ?d)))\<rparr>"
  have env: "e_fault (w_env w) t oper = None" for t oper using ok by (simp add: refuses_nothing_def)
  have opened: "os_Open (Join [nc_root c, execFifoFilename]) w = (Ok F, ?w1)"
    using F fifo(1) by (simp add: os_Open_run env)
  obtain x xs where "e_fifo (w_env w) (Suc (Suc (w_tick w))) F = Some (x # xs)" using fifo(3) by blast
  then have data: "read_all F ?w1 = (Ok (x # xs), ?w2)"
    using fifo(1,2) by (simp add: read_all_def fifo_ReadAll_def syscall_def env Let_def)
  let ?v = "(fs_put P ?n w)\<lparr>w_tick := w_tick w + 5\<rparr>"
  have save: "write_state R (nc_root c) (nc_state ?d) ?w2 = (Ok (), ?v)"
    using write_state_done [of ?w2 "nc_root c" P n tx R "nc_state ?d"] ok P old
    by (simp add: fs_put_def)
  have "fs_wf ?v"
    using preservesD [OF write_state_pres(2) save] ok by (simp add: refuses_nothing_def)
  then have "refuses_nothing ?v" using env by (simp add: refuses_nothing_def)
  then have rm: "os_Remove (Join [nc_root c, execFifoFilename]) ?v
      = (Ok (), fs_remove (\<lambda>r. r = F) (?v\<lparr>w_tick := w_tick w + 6\<rparr>))"
    using Remove_fifo [of ?v "Join [nc_root c, execFifoFilename]" k] F fifo(1,2) \<open>F \<noteq> P\<close> by (simp add: add.commute)
  have "fs_wf (fs_remove (\<lambda>r. r = F) (?v\<lparr>w_tick := w_tick w + 6\<rparr>))"
    using preservesD [OF wf_Remove rm] \<open>refuses_nothing ?v\<close> by (simp add: refuses_nothing_def)
  then have sound: "refuses_nothing (fs_remove (\<lambda>r. r = F) (?v\<lparr>w_tick := w_tick w + 6\<rparr>))"
    using env by (simp add: refuses_nothing_def fs_remove_def)
  note ran = save [unfolded set_status_def, simplified] rm [unfolded set_status_def, simplified]
  have close: "file_Close F v = (Ok (), v\<lparr>w_tick := Suc (w_tick v)\<rparr>)" if "w_env v = w_env w" for v :: "'a world"
    using that by (simp add: file_Close_def syscall_def env Let_def ret_def)
  show ?thesis
    using \<open>F \<noteq> P\<close> sound
    by (simp add: exec_def map_err_run opened deferred_def data ignore_def saveState_def ran close set_status_def
        seq_def try_io_def ret_def)
qed

text \<open>The FIFO of a container.\<close>

definition fifo_path :: "string \<Rightarrow> string \<Rightarrow> path" where
  "fifo_path root cid = resolve root root @ [cid, execFifoFilename]"

lemma fifo_resolve: "place_ok root cid \<Longrightarrow> resolve c (Join [Join [Clean root, cid], execFifoFilename]) = fifo_path root cid"
  using state_path_resolve(3,4) [of root cid]
  by (simp add: resolve_Join_plain fifo_path_def state_path_def butlast_append)

lemma answers_alive:
  assumes "refuses_nothing w" and "st_InitProcessPid (nc_state c) \<notin> {0, -1}"
  shows "answers c w \<longleftrightarrow> e_alive (w_env w) (Suc (w_tick w)) (st_InitProcessPid (nc_state c))"
    and "probed c w = w\<lparr>w_tick := Suc (w_tick w)\<rparr>"
  using assms by (auto simp: answers_def probed_def os_Process_Signal_def sys_Kill_def syscall_lets)

lemma start_done:
  assumes R: "WriteJSON_encodes R" and ctx: "ctx_names ctx root cid" and place: "place_ok root cid" and ok: "refuses_nothing w"
    and life: "life root cid w = Present Created p" and p: "p \<notin> {0, -1}" and alive: "\<And>t. e_alive (w_env w) t p"
    and fifo: "fs_get w (fifo_path root cid) = Some k" "i_kind k = KFifo"
    and data: "\<And>t. \<exists>x xs. e_fifo (w_env w) t (fifo_path root cid) = Some (x # xs)"
  shows "\<exists>v. perform CmdStart ctx R H w = (Ok (), v) \<and> life root cid v = Present Running p \<and> refuses_nothing v
    \<and> fs_get v (fifo_path root cid) = None \<and> w_log v = w_log w"
proof -
  let ?P = "state_path root cid" and ?F = "fifo_path root cid" and ?w = "w\<lparr>w_tick := w_tick w + 5\<rparr>"
  obtain c where c: "getContainer ctx H w = (Ok c, w\<lparr>w_tick := w_tick w + 4\<rparr>)" "loaded root cid c w"
    "st_Status (nc_state c) = Created" "st_InitProcessPid (nc_state c) = p"
    using getContainer_found [OF ctx place ok life] by blast
  obtain n tx st where n: "fs_get w ?P = Some n" "i_kind n = KFile tx" using life by (rule life_PresentE)
  have root: "nc_root c = Join [Clean root, cid]" "container_typed c" using c(2) by (simp_all add: loaded_def)
  have abs: "IsAbs (Join [nc_root c, x])" for x using state_path_resolve(3) [OF place] root by (simp add: IsAbs_Join)
  have FP: "?F \<noteq> ?P" by (simp add: fifo_path_def state_path_def execFifoFilename_def stateFilename_def)
  obtain v where v: "exec R (c, ?w) = (Ok (), (set_status Running c, v))" "fs_get v ?F = None" "w_log v = w_log w" "refuses_nothing v"
    "fs_get v ?P = Some (n\<lparr>i_kind := KFile (rl_WriteJSON R (enc_State (nc_state (set_status Running c))))\<rparr>)"
    using exec_done [where w = ?w and c = c and P = ?P and F = ?F and n = n and tx = tx and k = k and R = R] ok FP n fifo data root IsAbs_nonempty [OF abs]
      state_path_resolve(1) [OF place, of "w_cwd w"] fifo_resolve [OF place, of "w_cwd w"] by auto
  have "start_found R (c, w\<lparr>w_tick := w_tick w + 4\<rparr>) = (Ok (), (set_status Running c, v))"
    using answers_alive [where w = "w\<lparr>w_tick := w_tick w + 4\<rparr>" and c = c] ok p c(3,4) alive v(1)
    by (simp add: start_found_cases eval_nat_numeral)
  then have "perform CmdStart ctx R H w = (Ok (), v)" using c(1) by (simp add: start_action_def with_container_def)
  moreover have "life root cid v = Present Running p"
    using life_text_saved [OF R, of "nc_state (set_status Running c)"] typed_set_status [OF root(2), of Running] c(4)
    by (simp add: life_def life_of_def v(5) container_typed_def)
  ultimately show ?thesis using v(2-4) by blast
qed

subsection \<open>Deleting\<close>

lemma path_text_last: "\<exists>xs. path_text (es @ [e]) = xs @ CHR ''/'' # e"
proof (induction es)
  case (Cons x es)
  then obtain xs where "CHR ''/'' # join_with ''/'' (es @ [e]) = xs @ CHR ''/'' # e" by (auto simp: path_text_def)
  moreover have "join_with ''/'' ((x # es) @ [e]) = x @ CHR ''/'' # join_with ''/'' (es @ [e])"
    by (cases "es @ [e]") simp_all
  ultimately have "path_text ((x # es) @ [e]) = (CHR ''/'' # x @ xs) @ CHR ''/'' # e" by (simp add: path_text_def)
  then show ?case by blast
qed (simp add: path_text_def)

lemma no_dot_suffix:
  assumes "plain_elem e"
  shows "\<not> HasSuffix (path_text (es @ [e])) ''/.''"
proof
  assume "HasSuffix (path_text (es @ [e])) ''/.''"
  then obtain xs ys where "xs @ CHR ''/'' # e = ys @ ''/.''"
    using path_text_last [of es e] by (auto simp: HasSuffix_def suffix_def)
  then have r: "rev e @ CHR ''/'' # rev xs = CHR ''.'' # CHR ''/'' # rev ys"
    by (metis append_Cons append_Nil append_assoc rev.simps(2) rev_append rev_rev_ident)
  obtain a as where "rev e = a # as" using assms by (cases "rev e") (auto simp: plain_elem_def)
  with r have "a = CHR ''.''" "as @ CHR ''/'' # rev xs = CHR ''/'' # rev ys" by auto
  moreover have "CHR ''/'' \<notin> set as" using assms \<open>rev e = a # as\<close> by (metis list.set_intros(2) plain_elem_def set_rev)
  ultimately have "as = []" by (cases as) auto
  with \<open>rev e = a # as\<close> \<open>a = CHR ''.''\<close> have "e = ''.''" by simp
  then show False using assms by (simp add: plain_elem_def)
qed

lemma RemoveAll_done:
  assumes env: "\<And>t oper. e_fault (w_env w) t oper = None" and place: "place_ok root cid"
  shows "\<exists>v. os_RemoveAll (Join [Clean root, cid]) w = (Ok (), v) \<and> fs_get v (state_path root cid) = None"
proof -
  let ?r = "Join [Clean root, cid]"
  have abs: "IsAbs ?r" "IsAbs (Clean root)" using state_path_resolve(3) [OF place] place
    by (simp_all add: place_ok_def Clean_abs [of root root])
  have here: "resolve (w_cwd w) ?r = resolve root root @ [cid]"
    using state_path_resolve(4) [OF place] by (simp add: state_path_def butlast_append)
  have "?r = path_text (resolve root root @ [cid])"
    using here Join_abs [OF abs(2), of cid "w_cwd w"] unfolding resolve_Join_abs [OF abs(2)] by simp
  then have suffix: "\<not> HasSuffix ?r ''/.''" using no_dot_suffix [OF place_plain [OF place]] by simp
  have "?r \<noteq> ''.''" "?r \<noteq> ''''" using abs(1) by (auto simp: IsAbs_def HasPrefix_def)
  moreover have "prefix (resolve root root @ [cid]) (state_path root cid)" by (simp add: state_path_def prefix_def)
  ultimately show ?thesis
    using suffix here by (simp add: os_RemoveAll_def at_path_def syscall_def env Let_def)
qed

text \<open>The network handler comes back: what is above the netlink package always does.\<close>

definition link_del_returns :: "'n netlink \<Rightarrow> bool" where
  "link_del_returns nl \<longleftrightarrow> (\<forall>l. returns (nl_LinkDel nl l))"

lemma returns_SetupTunDev: "returns (SetupTunDev :: ('n world, unit) io)"
proof -
  have verify: "returns (verifyTunDevice :: ('n world, unit) io)"
    unfolding verifyTunDevice_def
    by (intro returns_seq returns_os) (simp add: returns_def fail_def ret_def split: prod.split)
  have mk: "returns (os_Mkdir p m :: ('n world, unit) io)" "returns (sys_Mknod p m a b :: ('n world, unit) io)" for p m a b
    unfolding os_Mkdir_def sys_Mknod_def
    by (intro returns_at_path returns_syscall; simp add: returns_def create_entry_def)+
  have "returns (createTunDevice :: ('n world, unit) io)"
    unfolding createTunDevice_def
    by (intro returns_seq returns_try_io returns_os mk) (auto simp: returns_basic mk)
  then show ?thesis unfolding SetupTunDev_def
    by (intro returns_try_io returns_seq returns_map_err verify returns_basic)
qed

lemma network_destroy_returns:
  assumes "link_del_returns nl" and "gi_NetworkState i = Some st"
  shows "returns (NetworkDestroyFunc (NetworkH (nablaLLCHandler nl)) i)"
proof -
  have "returns (stored_tap i)"
    using assms(2) by (simp add: stored_tap_def returns_basic split: option.split)
  then show ?thesis
    using assms(1) unfolding link_del_returns_def
    by (simp add: nablaLLCHandler_def tapBrNetworkHandler_def tapBr_DestroyFunc_def RemoveTapDevice_def)
      (intro returns_seq returns_SetupTunDev returns_net_op returns_basic; simp)
qed

lemma destroy_done:
  assumes env: "\<And>t oper. e_fault (w_env w) t oper = None" and place: "place_ok root cid"
    and root: "nc_root c = Join [Clean root, cid]" and nl: "link_del_returns nl"
  shows "\<exists>c' v. destroy_logged (nablaLLCHandler nl) (c, w) = (Ok (), (c', v)) \<and> life root cid v = Absent"
proof -
  let ?H = "nablaLLCHandler nl" and ?P = "state_path root cid"
  obtain u where u: "os_RemoveAll (nc_root c) w = (Ok (), u)" "fs_get u ?P = None"
    using RemoveAll_done [OF env place] root by auto
  let ?c = "c\<lparr>nc_state := (nc_state c)\<lparr>st_InitProcessPid := 0, st_Status := Stopped\<rparr>\<rparr>"
  let ?i = "destroy_input ?c (Some (st_FsState (nc_state c))) (Some empty_LLState)"
  obtain r v where n: "NetworkDestroyFunc (NetworkH ?H) ?i u = (r, v)" by (meson surj_pair)
  have "\<not> dev_net ?P" using place by (simp add: place_ok_def)
  then have "fs_get v ?P = None"
    using agreesD(1) [OF runnc.net.net_region(2) n, of ?P] u(2) by simp
  then have gone: "life root cid v = Absent" by (simp add: life_def life_of_def)
  have "r \<noteq> Stop y" for y
    using network_destroy_returns [OF nl, of ?i "st_NetworkState (nc_state c)"] n
    by (simp add: destroy_input_def returns_def) (metis fst_conv)
  then have r: "(\<exists>s. r = Ok s) \<or> (\<exists>e. r = Err e)" by (cases r) auto
  have "\<exists>q c'. destroy ?H (c, w) = (q, (c', v)) \<and> (\<forall>y. q \<noteq> Stop y)"
    using u(1) n r
    by (auto simp: destroy_def destroy_handlers_def nablaLLCHandler_def nablaExecHandler_def iSOFsHandler_def
      iso_FsDestroyFunc_def destroy_input_def or_empty_def)
  then obtain q c' where "destroy ?H (c, w) = (q, (c', v))" "\<And>y. q \<noteq> Stop y" by blast
  then have "destroy_logged ?H (c, w) = (Ok (), (c', v))"
    by (cases q) (auto simp: destroy_logged_def ignore_def)
  with gone show ?thesis by blast
qed

text \<open>The wait for the end of a killed process is long enough when it is gone by the last of its probes but one.\<close>

lemma await_done:
  assumes env: "\<And>t oper. e_fault (w_env w) t oper = None" and place: "place_ok root cid"
    and root: "nc_root c = Join [Clean root, cid]" and nl: "link_del_returns nl"
    and gone: "\<And>t. w_tick w + 198 \<le> t \<Longrightarrow> \<not> e_alive (w_env w) t (st_InitProcessPid (nc_state c))"
  shows "\<exists>c' v. killContainer (nablaLLCHandler nl) (c, w) = (Ok (), (c', v)) \<and> life root cid v = Absent"
proof -
  let ?p = "st_InitProcessPid (nc_state c)" and ?H = "nablaLLCHandler nl"
  obtain x u where k: "sys_Kill ?p SIGKILL w = (x, u)" by (meson surj_pair)
  have u: "w_env u = w_env w" "w_tick u = Suc (w_tick w)" and x: "x = Ok () \<or> (\<exists>e. x = Err e)"
    using k by (auto simp: sys_Kill_def syscall_def env Let_def split: if_splits)
  have "\<not> answers_at ?p u (w_tick u + 2 * 98 + 1)"
    using gone [of "w_tick w + 199"] u by (simp add: answers_at_def sys_Kill_def syscall_def env Let_def add.commute)
  then have "\<not> (\<forall>k<100. answers_at ?p u (w_tick u + 2 * k + 1))"
    by (rule contrapos_nn) (rule spec [of _ 98, THEN mp], assumption, simp)
  from await_exit_cases [of 100 c u ?H, unfolded if_not_P [OF this]]
  obtain j where "await_exit ?H 100 (c, u) = destroy_logged ?H (c, u\<lparr>w_tick := w_tick u + 2 * j + 2\<rparr>)" by blast
  moreover have "killContainer ?H (c, w) = await_exit ?H 100 (c, u)"
    using k x by (auto simp: killContainer_def container_Signal_def ignore_def)
  moreover have "\<And>t oper. e_fault (w_env (u\<lparr>w_tick := w_tick u + 2 * j + 2\<rparr>)) t oper = None" using env u by simp
  from destroy_done [OF this place root nl] obtain c' v where
    "destroy_logged ?H (c, u\<lparr>w_tick := w_tick u + 2 * j + 2\<rparr>) = (Ok (), (c', v))" "life root cid v = Absent" by blast
  ultimately show ?thesis by simp
qed

lemma delete_done:
  assumes ctx: "ctx_names ctx root cid" and place: "place_ok root cid" and ok: "refuses_nothing w"
    and life: "life root cid w = Present s p" and p: "p \<notin> {0, -1}" and nl: "link_del_returns nl"
    and may: "ctx_Bool ctx ''force'' \<or> s = Created \<or> s = Stopped"
    and gone: "\<And>t. w_tick w + 200 \<le> t \<Longrightarrow> \<not> e_alive (w_env w) t p"
  shows "\<exists>v. perform CmdDelete ctx R (nablaLLCHandler nl) w = (Ok (), v) \<and> life root cid v = Absent"
proof -
  let ?H = "nablaLLCHandler nl" and ?u = "w\<lparr>w_tick := w_tick w + 4\<rparr>"
  obtain c where c: "getContainer ctx ?H w = (Ok c, ?u)" "loaded root cid c w"
    "st_Status (nc_state c) = s" "st_InitProcessPid (nc_state c) = p"
    using getContainer_found [OF ctx place ok life] by blast
  have root: "nc_root c = Join [Clean root, cid]" using c(2) by (simp add: loaded_def)
  have env: "e_fault (w_env w) t oper = None" for t oper using ok by (simp add: refuses_nothing_def)
  have probe: "probed c ?u = w\<lparr>w_tick := w_tick w + 5\<rparr>"
    using answers_alive(2) [of ?u c] ok p c(4) by (simp add: eval_nat_numeral)
  have "\<exists>c' v. delete_found R ?H cid (ctx_Bool ctx ''force'') (c, ?u) = (Ok (), (c', v)) \<and> life root cid v = Absent"
  proof (cases "answers c ?u")
    case False
    have "preserves (\<lambda>v. w_env v = w_env w) (write_state R (nc_root c) (nc_state (set_status Stopped c)))"
      by (rule write_state_pres(1)) (rule fs_blind_env [of "\<lambda>e _ _ _. e = w_env w"])
    then have "w_env (saved_stopped R c ?u) = w_env w"
      unfolding saved_stopped_def probe by (rule preserves_snd) simp
    then have "\<And>t oper. e_fault (w_env (saved_stopped R c ?u)) t oper = None" using env by simp
    from destroy_done [OF this place _ nl, of "set_status Stopped c"] root False
    show ?thesis by (simp add: delete_found_cases)
  next
    case True
    show ?thesis
    proof (cases "s = Stopped")
      case stopped: True
      from destroy_done [OF _ place root nl, of "probed c ?u"] True stopped c(3) env probe
      show ?thesis by (simp add: delete_found_cases)
    next
      case False
      from await_done [OF _ place root nl, of "probed c ?u"] True False c(3,4) env probe may gone
      show ?thesis by (auto simp: delete_found_cases)
    qed
  qed
  then show ?thesis
    using c(1) ctx by (auto simp: delete_action_def Let_def ctx_names_def with_container_def)
qed

end
