(* ===== verification/Composition.thy ===== *)
theory Composition
  imports Creation Progress
begin

text \<open>
  The commands one after the other: what \<open>create\<close> leaves behind is what \<open>start\<close> needs, and what \<open>start\<close>
  leaves behind can be deleted. Between two commands other programs run; what is assumed of them is that
  they leave the container's directory alone.
\<close>

subsection \<open>The container's directory\<close>

definition container_dir :: "string \<Rightarrow> string \<Rightarrow> path" where
  "container_dir root cid = resolve root root @ [cid]"

lemma container_files:
  "state_path root cid = container_dir root cid @ [stateFilename]"
  "fifo_path root cid = container_dir root cid @ [execFifoFilename]"
  by (simp_all add: container_dir_def state_path_def fifo_path_def)

lemma container_dir_resolve: "place_ok root cid \<Longrightarrow> resolve c (Join [Clean root, cid]) = container_dir root cid"
  using state_path_resolve(4) [of root cid] by (simp add: state_path_def container_dir_def butlast_append)

lemma fifo_not_net:
  assumes "place_ok root cid"
  shows "\<not> dev_net (fifo_path root cid)"
proof -
  have "\<not> prefix [''dev'', ''net''] (container_dir root cid @ [stateFilename])"
    using assms by (simp add: place_ok_def dev_net_def container_files)
  moreover have "container_dir root cid @ [execFifoFilename] \<noteq> [''dev'', ''net'']"
    by (auto simp: execFifoFilename_def)
  ultimately show ?thesis by (auto simp: dev_net_def container_files)
qed

lemma apart_files:
  assumes "IsAbs rootfs" and "\<not> prefix (resolve c rootfs) D" and "\<not> prefix D (resolve c rootfs)"
  shows "apart c (D @ [x]) rootfs"
  using assms by (auto simp: apart_def dest: append_prefixD)

text \<open>What one command hands over to the next: a machine that refuses nothing, with the same files of the container.\<close>

definition hands_over :: "string \<Rightarrow> string \<Rightarrow> 'n world \<Rightarrow> 'n world \<Rightarrow> bool" where
  "hands_over root cid w w' \<longleftrightarrow> refuses_nothing w' \<and>
     (\<forall>q. prefix (container_dir root cid) q \<longrightarrow> fs_get w' q = fs_get w q)"

lemma hands_over_files:
  assumes "hands_over root cid w w'"
  shows "life root cid w' = life root cid w" and "fs_get w' (fifo_path root cid) = fs_get w (fifo_path root cid)"
  using assms by (simp_all add: hands_over_def life_def container_files)

subsection \<open>What a creation leaves in the directory\<close>

lemma Create_fifo:
  assumes place: "place_ok root cid" and l: "fac_Root l = Clean root" "fac_LLCHandler l = nablaLLCHandler nl"
    and a: "apart (w_cwd w) (fifo_path root cid) (cfg_Rootfs config)" and run: "Create l cid config w = (Ok c, w')"
  shows "\<exists>n. fs_get w' (fifo_path root cid) = Some n \<and> i_kind n = KFifo"
proof -
  let ?F = "fifo_path root cid" and ?r = "Join [Clean root, cid]" and ?H = "nablaLLCHandler nl"
  obtain w1 w2 w3 cfg fsS netS execS where r: "create_root cid ?r 0 0 w = (Ok (), w1)"
    and f: "create_fs ?H cid ?r config w1 = (Ok (cfg, fsS), w2)"
    and n: "NetworkCreateFunc (NetworkH ?H) (create_input cid ?r cfg fsS (Some empty_LLState)) w2 = (Ok netS, w3)"
    and e: "ExecCreateFunc (ExecH ?H) (create_input cid ?r cfg fsS netS) w3 = (Ok execS, w')"
    using run l by (auto simp: Create_def HostUID_def HostGID_def Let_def seq_Ok_iff map_err_Ok_iff split: if_splits)
  obtain k where k: "fs_get w1 ?F = Some k" "i_kind k = KFifo"
    using create_root_Ok [OF r] fifo_resolve [OF place] by auto
  have cwd: "w_cwd w1 = w_cwd w" using preservesD [OF create_root_pres(2) r refl] by (simp add: outside_def)
  have "fs_get w2 ?F = fs_get w1 ?F"
    by (rule agreesD(1) [OF create_fs_keeps [OF place refl fifo_path_def] f]) (use a cwd in \<open>simp_all add: execFifoFilename_def\<close>)
  moreover have "fs_get w3 ?F = fs_get w2 ?F"
    using agreesD(1) [OF runnc.net.net_region(1) n] fifo_not_net [OF place] by blast
  moreover have "w' = w3" using runnc.exec.exec_create_pure e by (metis snd_conv)
  ultimately show ?thesis using k by simp
qed

lemma createContainer_parts:
  assumes run: "createContainer ctx H cid spec w = (Ok c, w')" and names: "ctx_names ctx root cid" and place: "place_ok root cid"
    and config: "ParseSpec (Some spec) = Ok config"
  obtains l x where "Create l cid (config\<lparr>cfg_Labels := cfg_Labels config @ [''bundle='' @ ctx_String ctx ''bundle'']\<rparr>) x = (Ok c, w')"
    and "fac_Root l = Clean root" and "fac_LLCHandler l = H" and "fs_wf w \<Longrightarrow> fs_wf x" and "w_cwd x = w_cwd w"
    and "life root cid x = life root cid w"
proof -
  obtain u v l x where st: "os_Stat (cfg_Rootfs config) w = (Ok u, v)"
    and fac: "loadFactory ctx H v = (Ok l, x)"
    and create: "Create l cid (config\<lparr>cfg_Labels := cfg_Labels config @ [''bundle='' @ ctx_String ctx ''bundle'']\<rparr>) x = (Ok c, w')"
    using run config by (auto simp: createContainer_def Let_def seq_Ok_iff map_err_Ok_iff)
  have v: "at_life (state_path root cid) (w_cwd w) (w_log v) {life root cid w} v" "fs_wf w \<Longrightarrow> fs_wf v"
    using preservesD [OF shows_agrees [OF agrees_read(1)] st, of "state_path root cid" "w_cwd w" "{life root cid w}"]
      preservesD [OF wf_read(1) st]
    by (simp_all add: shows_life_log shows_life_def life_def at_life_def)
  note F = loadFactory_life [OF fac names place v(1)]
  have "loadFactory ctx H = New (Clean root) H []"
    using names place by (simp add: loadFactory_def ctx_names_def filepath_Abs_def place_ok_def)
  moreover have "preserves fs_wf (New (Clean root) H [])"
    unfolding New_def by (intro preserves_seq preserves_if wf_MkdirAll) (simp_all add: preserves_def ret_def)
  ultimately have "preserves fs_wf (loadFactory ctx H)" by simp
  then have "fs_wf w \<Longrightarrow> fs_wf x" using fac v(2) by (blast dest: preservesD)
  moreover have "fac_LLCHandler l = H" using fac by (auto simp: loadFactory_def New_def seq_Ok_iff)
  ultimately show thesis using create F(1,2) by (intro that [of l x]) (simp_all add: at_life_def life_def)
qed

lemma createContainer_leaves:
  assumes run: "createContainer ctx (nablaLLCHandler nl) cid spec w = (Ok c, w')" and names: "ctx_names ctx root cid"
    and place: "place_ok root cid" and config: "ParseSpec (Some spec) = Ok config" and wf: "fs_wf w"
    and a: "\<And>x. apart (w_cwd w) (container_dir root cid @ [x]) (cfg_Rootfs config)"
  shows "life root cid w = Absent" and "fs_wf w'" and "\<exists>n. fs_get w' (fifo_path root cid) = Some n \<and> i_kind n = KFifo"
proof -
  let ?config = "config\<lparr>cfg_Labels := cfg_Labels config @ [''bundle='' @ ctx_String ctx ''bundle'']\<rparr>"
  obtain l x where create: "Create l cid ?config x = (Ok c, w')" and l: "fac_Root l = Clean root" "fac_LLCHandler l = nablaLLCHandler nl"
    and x: "fs_wf x" "w_cwd x = w_cwd w" "life root cid x = life root cid w"
    using createContainer_parts [OF run names place config] wf by metis
  show "fs_wf w'" by (rule preservesD [OF runnc.Create_wf [OF l(2)] create x(1)])
  show "\<exists>n. fs_get w' (fifo_path root cid) = Some n \<and> i_kind n = KFifo"
    by (rule Create_fifo [OF place l _ create]) (simp add: x(2) a container_files)
  have abs: "IsAbs (fac_Root l)" using place l(1) by (simp add: place_ok_def Clean_abs [of root root])
  have "fs_get x (container_dir root cid) = None"
    using Create_existing [OF abs, of x cid _ ?config] create l(1) container_dir_resolve [OF place, of "w_cwd x"]
    by (cases "fs_get x (container_dir root cid)") auto
  then have "fs_get x (state_path root cid) = None"
    using wf_dir_above [OF x(1), of "state_path root cid"] is_dir_exists [of x "container_dir root cid"]
    by (cases "fs_get x (state_path root cid)") (auto simp: container_files strict_prefix_def)
  then show "life root cid w = Absent" using x(3) by (simp add: life_def life_of_def)
qed

subsection \<open>The runner leaves the machine as sound as it was\<close>

lemma keeps_refusing:
  assumes "\<And>e. preserves (\<lambda>v. w_env v = e) m" and "preserves fs_wf m"
  shows "preserves refuses_nothing m"
  unfolding refuses_nothing_def
proof (rule preservesI)
  fix w r w' assume w: "(\<forall>t oper. e_fault (w_env w) t oper = None) \<and> fs_wf w" and run: "m w = (r, w')"
  show "(\<forall>t oper. e_fault (w_env w') t oper = None) \<and> fs_wf w'"
    using preservesD [OF assms(1) run refl] preservesD [OF assms(2) run] w by simp
qed

lemmas fs_blind_the_env = fs_blind_env [of "\<lambda>e _ _ _. e = x" for x]

lemma wf_Rename: "preserves fs_wf (os_Rename a b)"
proof -
  have "fs_wf (fs_put q n (fs_remove (\<lambda>r. r = p) w))"
    if wf: "fs_wf w" and p: "fs_get w p = Some n" "i_kind n \<noteq> KDir" and q: "\<not> is_dir w q" "is_dir w (butlast q)"
    for p q n and w :: "'n world"
  proof -
    have leaf: "\<not> is_dir w p" and root: "is_dir w []" using p wf by (simp_all add: is_dir_get fs_wf_def)
    let ?w = "fs_remove (\<lambda>r. r = p) w"
    have "fs_wf ?w"
    proof (rule fs_wf_remove [OF wf])
      show "[] \<noteq> p" using leaf root by auto
      fix r assume r: "r \<noteq> []" "exists_at w r" "butlast r = p"
      then have "is_dir w p" using wf by (auto simp: fs_wf_def exists_at_def)
      with leaf show "r = p" by simp
    qed
    moreover have "is_dir ?w (butlast q)" "\<not> is_dir ?w q" "q \<noteq> []" using q leaf root by (auto simp: is_dir_def)
    ultimately show ?thesis by (intro fs_wf_put) simp_all
  qed
  then show ?thesis unfolding os_Rename_def
    by (intro preserves_at_path wf_syscall) (auto simp: preserves_def split: option.split)
qed

lemma create_refusing: "preserves refuses_nothing (os_CreateExcl p m)" "preserves refuses_nothing (os_CreateTrunc p m)"
    "preserves refuses_nothing (os_Rename a b)" "preserves refuses_nothing (file_Write q s)" "preserves refuses_nothing (file_Close q)"
proof -
  have trunc: "preserves fs_wf (os_CreateTrunc p m)"
    unfolding os_CreateTrunc_def create_entry_def seq_def try_io_def ret_def
    by (intro preserves_at_path wf_syscall) (auto simp: preserves_def split: option.splits if_splits intro: fs_wf_create fs_wf_update)
  have trunc_env: "preserves (\<lambda>v. w_env v = e) (os_CreateTrunc p m)" for e
    unfolding os_CreateTrunc_def create_entry_def seq_def try_io_def ret_def
    by (intro preserves_at_path blind_syscall fs_blind_the_env) (auto simp: preserves_def fs_put_def split: option.splits if_splits)
  have rename_env: "preserves (\<lambda>v. w_env v = e) (os_Rename a b)" for e
    unfolding os_Rename_def
    by (intro preserves_at_path blind_syscall fs_blind_the_env)
      (auto simp: preserves_def fs_put_def fs_remove_def split: option.splits if_splits)
  show "preserves refuses_nothing (os_CreateExcl p m)"
    unfolding os_CreateExcl_def
    by (intro keeps_refusing preserves_at_path blind_syscall wf_syscall preserves_seq preserves_ret wf_create_entry
        blind_primitives fs_blind_the_env)
  show "preserves refuses_nothing (os_CreateTrunc p m)" by (intro keeps_refusing trunc trunc_env)
  show "preserves refuses_nothing (os_Rename a b)" by (intro keeps_refusing wf_Rename rename_env)
  show "preserves refuses_nothing (file_Write q s)" by (intro keeps_refusing wf_write blind_os_ops fs_blind_the_env)
  show "preserves refuses_nothing (file_Close q)" by (intro keeps_refusing wf_more blind_os_more fs_blind_the_env)
qed

lemma after_start_refusing:
  assumes "after_start R H T r no_tty signals p (c, w) = (Ok st, (c', w'))" and "rn_create r" and ops: "p_ops p = Some pid"
    and "refuses_nothing w"
  shows "refuses_nothing w'"
proof -
  have pid: "process_id p = ret pid" using ops by (rule process_id_run)
  have "preserves refuses_nothing (createPidFile f p)" for f
    unfolding createPidFile_def pid seq_ret
    by (intro preserves_seq preserves_try_io preserves_ignore preserves_fail create_refusing)
  moreover have "preserves refuses_nothing (adjustOomScore p)"
    unfolding adjustOomScore_def pid seq_ret ioutil_WriteFile_def
    by (intro preserves_case_option preserves_seq preserves_try_io preserves_ignore preserves_fail create_refusing)
  ultimately show ?thesis using after_start_quiet [OF assms(1,2), of refuses_nothing] assms(4) by blast
qed

subsection \<open>What a start saves in it\<close>

lemma write_state_new:
  assumes env: "\<And>t oper. e_fault (w_env w) t oper = None" and P: "resolve (w_cwd w) (Join [r, stateFilename]) = P"
    and ne: "Join [r, stateFilename] \<noteq> ''''" and new: "fs_get w P = None" "is_dir w (butlast P)"
  shows "\<exists>n v. write_state R r st w = (Ok (), v) \<and> i_kind n = KFile (rl_WriteJSON R (enc_State st))
    \<and> fs_get v P = Some n \<and> (\<forall>q. q \<noteq> P \<longrightarrow> fs_get v q = fs_get w q)"
proof -
  let ?w = "w\<lparr>w_tick := Suc (w_tick w)\<rparr>" and ?n = "new_inode w (KFile '''') (octal3 6 6 6)"
  let ?m = "?n\<lparr>i_kind := KFile (rl_WriteJSON R (enc_State st))\<rparr>"
  have same: "new_inode ?w k m = new_inode w k m" "exists_at ?w q = exists_at w q" "is_dir ?w q = is_dir w q" for k m q
    by (simp_all add: new_inode_def exists_at_def is_dir_def)
  have "create_entry (KFile '''') (octal3 6 6 6) P ?w = (Ok (), fs_put P ?n ?w)"
    using new by (simp add: create_entry_def same) (simp add: exists_at_def)
  then have made: "os_Create (Join [r, stateFilename]) w = (Ok P, fs_put P ?n ?w)"
    using P ne new(1) by (simp add: os_Create_def at_path_def syscall_def env Let_def)
  have wrote: "file_Write P (rl_WriteJSON R (enc_State st)) (fs_put P ?n ?w)
      = (Ok (), (fs_put P ?m w)\<lparr>w_tick := Suc (Suc (w_tick w))\<rparr>)"
    by (simp add: file_Write_def syscall_def env Let_def update_inode_def append_inode_def new_inode_def)
      (simp add: fs_put_def update_last)
  have close: "file_Close P v = (Ok (), v\<lparr>w_tick := Suc (w_tick v)\<rparr>)" if "w_env v = w_env w" for v :: "'a world"
    using that by (simp add: file_Close_def syscall_def env Let_def ret_def)
  show ?thesis
    by (simp add: write_state_def made deferred_def wrote close ignore_def seq_def try_io_def ret_def)
qed

lemma start_leaves:
  assumes R: "WriteJSON_encodes R" and lib: "StartTime_reads R" and env: "env_typed (w_env w)"
    and ok: "refuses_nothing w" and place: "place_ok root cid" and c: "container_typed c" "nc_root c = Join [Clean root, cid]"
    and w: "life root cid w = Absent" "fs_get w (fifo_path root cid) = Some k"
    and run: "start R p (c, w) = (Ok p', (c', w'))"
  shows "life root cid w' = Present Created (st_InitProcessPid (nc_state c'))" and "fs_get w' (fifo_path root cid) = Some k"
    and "refuses_nothing w'" and "w_cwd w' = w_cwd w" and "p_ops p' = Some (st_InitProcessPid (nc_state c'))"
    and "\<exists>t. st_InitProcessPid (nc_state c') = e_spawn (w_env w) t"
proof -
  let ?P = "state_path root cid" and ?F = "fifo_path root cid"
  have wf: "fs_wf w" and faults: "\<And>t oper. e_fault (w_env w) t oper = None" using ok by (simp_all add: refuses_nothing_def)
  obtain v t where v: "\<And>q. fs_get v q = fs_get w q" "w_cwd v = w_cwd w" "w_env v = w_env w" "fs_wf v"
    "w' = snd (write_state R (nc_root c) (nc_state c') v)" "st_Status (nc_state c') = Created"
    and ops: "p_ops p' = Some (st_InitProcessPid (nc_state c'))" and pid: "st_InitProcessPid (nc_state c') = e_spawn (w_env w) t"
    using start_saves [OF lib run] wf by metis
  have "typed_at (w_env w) (c', w')"
    by (rule preservesD [OF typed_start [OF lib env] run]) (simp add: typed_at_def c)
  then have typed: "State_typed (nc_state c')" by (simp add: typed_at_def container_typed_def)
  have new: "fs_get v ?P = None" using w(1) v(1) by (auto simp: life_def life_of_def life_text_def split: option.splits kind.splits)
  have "is_dir w (container_dir root cid)"
    using wf_dir_above [OF wf w(2), of "container_dir root cid"] by (simp add: container_files strict_prefix_def)
  then have dir: "is_dir v (butlast ?P)" using v(1) by (simp add: is_dir_def container_files)
  have ne: "Join [nc_root c, stateFilename] \<noteq> ''''"
    using IsAbs_nonempty [OF IsAbs_Join [OF state_path_resolve(3) [OF place]]] c(2) by simp
  have at: "resolve (w_cwd v) (Join [nc_root c, stateFilename]) = ?P" using state_path_resolve(1) [OF place] c(2) by simp
  have v_ok: "refuses_nothing v" using faults v(3,4) by (simp add: refuses_nothing_def)
  then have "\<And>t oper. e_fault (w_env v) t oper = None" by (simp add: refuses_nothing_def)
  from write_state_new [OF this at ne new dir, of R "nc_state c'"] v(5) obtain n where
    n: "i_kind n = KFile (rl_WriteJSON R (enc_State (nc_state c')))" "fs_get w' ?P = Some n"
      "\<forall>q. q \<noteq> ?P \<longrightarrow> fs_get w' q = fs_get v q" by auto
  show "life root cid w' = Present Created (st_InitProcessPid (nc_state c'))"
    using life_text_saved [OF R typed] n(1,2) v(6) by (simp add: life_def life_of_def)
  have "?F \<noteq> ?P" by (simp add: container_files execFifoFilename_def stateFilename_def)
  then show "fs_get w' ?F = Some k" using n(3) v(1) w(2) by simp
  have "preserves refuses_nothing (write_state R (nc_root c) (nc_state c'))"
    by (intro keeps_refusing write_state_pres fs_blind_the_env)
  then show "refuses_nothing w'" unfolding v(5) using v_ok by (rule preserves_snd)
  have "preserves (\<lambda>u. w_cwd u = w_cwd w) (write_state R (nc_root c) (nc_state c'))"
    by (intro write_state_pres fs_blind_cwd)
  then show "w_cwd w' = w_cwd w" unfolding v(5) using v(2) by (rule preserves_snd)
  show "p_ops p' = Some (st_InitProcessPid (nc_state c'))" by (rule ops)
  show "\<exists>t. st_InitProcessPid (nc_state c') = e_spawn (w_env w) t" using pid by blast
qed

lemma run_leaves:
  assumes R: "WriteJSON_encodes R" and lib: "StartTime_reads R" "Subreaper_quiet R" and env: "env_typed (w_env w)"
    and ok: "refuses_nothing w" and place: "place_ok root cid" and c: "container_typed c" "nc_root c = Join [Clean root, cid]"
    and r: "rn_create r" and pidfile: "rn_pidFile r = '''' \<or>
      \<not> prefix (container_dir root cid) (resolve (w_cwd w) (pid_temp (rn_pidFile r))) \<and>
      \<not> prefix (container_dir root cid) (resolve (w_cwd w) (rn_pidFile r))"
    and w: "life root cid w = Absent" "fs_get w (fifo_path root cid) = Some k"
    and run: "run R H T r signals sp (c, w) = (Ok st, (c', w'))"
  shows "life root cid w' = Present Created (st_InitProcessPid (nc_state c')) \<and> fs_get w' (fifo_path root cid) = Some k \<and> refuses_nothing w'
    \<and> (\<exists>t. st_InitProcessPid (nc_state c') = e_spawn (w_env w) t)"
proof -
  obtain p1 t p2 c3 w3 where st: "start R p1 (c, w\<lparr>w_tick := t\<rparr>) = (Ok p2, (c3, w3))"
    and after: "after_start R H T r no_tty signals p2 (c3, w3) = (Ok st, (c', w'))"
    using run_parts [OF lib r run] .
  have w3: "life root cid w3 = Present Created (st_InitProcessPid (nc_state c3))" "fs_get w3 (fifo_path root cid) = Some k"
    "refuses_nothing w3" "w_cwd w3 = w_cwd w" "p_ops p2 = Some (st_InitProcessPid (nc_state c3))"
    "\<exists>t. st_InitProcessPid (nc_state c3) = e_spawn (w_env w) t"
    using start_leaves [OF R lib(1) _ _ place c _ _ st] env ok w by (simp_all add: life_def)
  have apart: "rn_pidFile r = '''' \<or> resolve (w_cwd w3) (pid_temp (rn_pidFile r)) \<noteq> container_dir root cid @ [x]
      \<and> resolve (w_cwd w3) (rn_pidFile r) \<noteq> container_dir root cid @ [x]" for x
    using pidfile w3(4) by auto
  have kept: "c' = c3 \<and> fs_get w' (container_dir root cid @ [x]) = fs_get w3 (container_dir root cid @ [x])"
    if "x \<noteq> ''oom_score_adj''" for x
    using after_start_keeps [OF after r w3(5) apart [of x]] that by simp
  show ?thesis
    using kept [of stateFilename] kept [of execFifoFilename] w3 after_start_refusing [OF after r w3(5,3)]
    by (simp add: container_files life_def stateFilename_def execFifoFilename_def)
qed

lemma startContainer_leaves:
  assumes R: "WriteJSON_encodes R" and lib: "StartTime_reads R" "Subreaper_quiet R" and env: "env_typed (w_env w)"
    and ok: "refuses_nothing w" and names: "ctx_names ctx root cid" and place: "place_ok root cid"
    and config: "ParseSpec (Some spec) = Ok config" "Config_ok config" "IsAbs (cfg_Rootfs config)"
    and a: "\<not> prefix (resolve (w_cwd w) (cfg_Rootfs config)) (container_dir root cid)"
      "\<not> prefix (container_dir root cid) (resolve (w_cwd w) (cfg_Rootfs config))"
    and pidfile: "ctx_String ctx ''pid-file'' = '''' \<or>
      \<not> prefix (container_dir root cid) (resolve (w_cwd w) (pid_temp (ctx_String ctx ''pid-file''))) \<and>
      \<not> prefix (container_dir root cid) (resolve (w_cwd w) (ctx_String ctx ''pid-file''))"
    and run: "startContainer ctx R (nablaLLCHandler nl) T signals spec True w = (Ok st, w')"
  shows "life root cid w = Absent \<and> (\<exists>t pid. pid = e_spawn (w_env w) t \<and> life root cid w' = Present Created pid
    \<and> w_log w' = w_log w @ [Started ''/proc/self/exe'' [''/proc/self/exe'', ''init''] pid])
    \<and> (\<exists>k. fs_get w' (fifo_path root cid) = Some k \<and> i_kind k = KFifo) \<and> refuses_nothing w'"
proof -
  let ?H = "nablaLLCHandler nl"
  let ?r = "\<lparr>rn_enableSubreaper = \<not> ctx_Bool ctx ''no-subreaper'', rn_shouldDestroy = True,
    rn_detach = ctx_Bool ctx ''detach'', rn_listenFDs = [], rn_pidFile = ctx_String ctx ''pid-file'',
    rn_console = ctx_String ctx ''console'', rn_create = True\<rparr>"
  obtain c v sp c' where create: "createContainer ctx ?H cid spec w = (Ok c, v)"
    and main: "run R ?H T ?r signals sp (c, v) = (Ok st, (c', w'))"
    using startContainer_parts [OF run names place] .
  have out: "outside v = outside w" by (rule preservesD [OF runnc.createContainer_outside create refl])
  have ap: "\<And>x. apart (w_cwd w) (container_dir root cid @ [x]) (cfg_Rootfs config)"
    by (rule apart_files [OF config(3) a])
  note C = createContainer_life [OF create names place config(1,2) ap [of stateFilename, folded container_files]]
  have wf: "fs_wf w" and faults: "\<And>t oper. e_fault (w_env w) t oper = None" using ok by (simp_all add: refuses_nothing_def)
  note L = createContainer_leaves [OF create names place config(1) wf ap]
  obtain k where k: "fs_get v (fifo_path root cid) = Some k" "i_kind k = KFifo" using L(3) by blast
  have same: "w_env v = w_env w" "w_cwd v = w_cwd w" "w_log v = w_log w" using out by (simp_all add: outside_def)
  have absent: "life root cid v = Absent" using C L(1) by (simp add: shows_life_def life_def)
  have "env_typed (w_env v)" "refuses_nothing v" using env faults same(1) L(2) by (simp_all add: refuses_nothing_def)
  from run_leaves [OF R lib this place _ _ _ _ absent k(1) main]
  have "life root cid w' = Present Created (st_InitProcessPid (nc_state c')) \<and> fs_get w' (fifo_path root cid) = Some k
    \<and> refuses_nothing w' \<and> (\<exists>t. st_InitProcessPid (nc_state c') = e_spawn (w_env w) t)"
    using C pidfile same(1,2) by simp
  moreover have "started c (w_log v) (c', w')"
    using ensuresD(1) [OF runnc.run_cases [of ?r R c "w_log v" nl T signals sp], of "(c, v)" st "(c', w')"] main lib
    by (simp add: unstarted_def)
  ultimately show ?thesis using L(1) k(2) same by (auto simp: started_def)
qed

subsection \<open>The commands that follow\<close>

text \<open>A process that waits at the FIFO: it is alive, and reading the FIFO gives something.\<close>

definition waits_at :: "path \<Rightarrow> int \<Rightarrow> 'n world \<Rightarrow> bool" where
  "waits_at F pid w \<longleftrightarrow> pid \<notin> {0, -1} \<and> (\<forall>t. e_alive (w_env w) t pid \<and> (\<exists>x xs. e_fifo (w_env w) t F = Some (x # xs)))"

definition gone_by :: "nat \<Rightarrow> int \<Rightarrow> 'n world \<Rightarrow> bool" where
  "gone_by n pid w \<longleftrightarrow> (\<forall>t. w_tick w + n \<le> t \<longrightarrow> \<not> e_alive (w_env w) t pid)"

lemma start_follows:
  assumes "WriteJSON_encodes R" and "ctx_names ctx root cid" and "place_ok root cid"
    and "life root cid w = Present Created pid" and "fs_get w (fifo_path root cid) = Some k" "i_kind k = KFifo"
    and "hands_over root cid w w'" and "waits_at (fifo_path root cid) pid w'"
  shows "\<exists>v. perform CmdStart ctx R H w' = (Ok (), v) \<and> life root cid v = Present Running pid \<and> refuses_nothing v"
  using start_done [OF assms(1-3), of w' pid k H] hands_over_files [OF assms(7)] assms(4-8)
  by (auto simp: hands_over_def waits_at_def)

lemma delete_follows:
  assumes "ctx_names ctx root cid" and "place_ok root cid" and "ctx_Bool ctx ''force''" and "link_del_returns nl"
    and "life root cid w = Present s pid" and "pid \<notin> {0, -1}"
    and "hands_over root cid w w'" and "gone_by 200 pid w'"
  shows "\<exists>v. perform CmdDelete ctx R (nablaLLCHandler nl) w' = (Ok (), v) \<and> life root cid v = Absent"
  using delete_done [OF assms(1,2), of w' s pid nl] hands_over_files [OF assms(7)] assms(3-8)
  by (auto simp: hands_over_def gone_by_def)

end
