(* ===== verification/Streams.thy ===== *)
theory Streams
  imports Terminal
begin

text \<open>
  The goroutines that \<open>llcli/util_tty.go\<close> starts beside the runner, with the container's process and
  the caller at the other ends. An event is one step of one of them; a run is any sequence of events,
  so every interleaving is a run. A goroutine's \<open>io.Copy\<close> is the loop of the library: read what there
  is, at most a buffer of it, write it, and stop at the end of the input or at an error.
\<close>

subsection \<open>The state\<close>

datatype stream = Stdout | Stderr

text \<open>Where a copying goroutine is, and where the runner is with its terminal.\<close>

datatype copier = Reading | Writing string | Closing | Finishing | Finished

datatype tty_stage = TtyOpen | TtyPosted | TtyWaiting | TtyClosed

text \<open>
  \<open>so_open\<close> are runllc's open files. \<open>so_read\<close> is the file a stream is copied from, \<open>so_far\<close> the files
  of runllc that write to the same pipe, and \<open>so_child\<close> tells whether a process of the container still
  has the stream open, \<open>so_began\<close> whether anything ever had: a console nobody has opened is not at
  its end. \<open>so_waits\<close> is set where the goroutine is \<open>copyIO\<close>, which closes its file and
  tells the wait group. \<open>so_in\<close> is the file the input is copied to.
\<close>

record stdio =
  so_tty :: tty
  so_open :: "nat list"
  so_read :: "stream \<Rightarrow> nat"
  so_far :: "stream \<Rightarrow> nat list"
  so_waits :: "stream \<Rightarrow> bool"
  so_child :: "stream \<Rightarrow> bool"
  so_began :: "stream \<Rightarrow> bool"
  so_buffer :: "stream \<Rightarrow> string"
  so_copier :: "stream \<Rightarrow> copier"
  so_output :: "stream \<Rightarrow> string"
  so_wg :: int
  so_stage :: tty_stage
  so_in :: nat
  so_typed :: string
  so_typed_end :: bool
  so_feeder :: copier
  so_input :: string

datatype copy_event =
    Spawns | Child_writes stream string | Child_closes stream | Child_reads nat
  | Types string | Types_end
  | Copies stream nat | Copy_fails stream nat | Feeds nat | Feed_fails
  | Posts | Closes | Closed

subsection \<open>A copying goroutine\<close>

text \<open>What a read of at most one buffer returns: nothing yet, the end, or some bytes.\<close>

definition read_some :: "nat \<Rightarrow> string \<Rightarrow> bool \<Rightarrow> string option" where
  "read_some n bytes ended =
     (if bytes = [] then (if ended then Some [] else None)
      else if 0 < n \<and> n \<le> 32768 \<and> n \<le> length bytes then Some (take n bytes) else None)"

text \<open>\<open>copyIO\<close> closes its file and then runs the deferred \<open>Done\<close>; a plain \<open>io.Copy\<close> just ends.\<close>

definition copy_ended :: "bool \<Rightarrow> copier" where
  "copy_ended waits = (if waits then Closing else Finished)"

definition so_ended :: "stream \<Rightarrow> stdio \<Rightarrow> bool" where
  "so_ended s c \<longleftrightarrow> so_began c s \<and> \<not> so_child c s \<and> list_all (\<lambda>f. f \<notin> set (so_open c)) (so_far c s)"

definition set_copier :: "stream \<Rightarrow> copier \<Rightarrow> stdio \<Rightarrow> stdio" where
  "set_copier s x c = c\<lparr>so_copier := (so_copier c)(s := x)\<rparr>"

definition close_files :: "nat list \<Rightarrow> stdio \<Rightarrow> stdio" where
  "close_files fds c = c\<lparr>so_open := filter (\<lambda>f. f \<notin> set fds) (so_open c)\<rparr>"

definition copyIO :: "stream \<Rightarrow> nat \<Rightarrow> stdio \<Rightarrow> stdio option" where
  "copyIO s n c = (case so_copier c s of
     Reading \<Rightarrow>
       if so_read c s \<notin> set (so_open c) then Some (set_copier s (copy_ended (so_waits c s)) c)
       else (case read_some n (so_buffer c s) (so_ended s c) of
         None \<Rightarrow> None
       | Some [] \<Rightarrow> Some (set_copier s (copy_ended (so_waits c s)) c)
       | Some b \<Rightarrow> Some (set_copier s (Writing b)
           (c\<lparr>so_buffer := (so_buffer c)(s := drop (length b) (so_buffer c s))\<rparr>)))
   | Writing b \<Rightarrow> Some (set_copier s Reading (c\<lparr>so_output := (so_output c)(s := so_output c s @ b)\<rparr>))
   | Closing \<Rightarrow> Some (set_copier s Finishing (close_files [so_read c s] c))
   | Finishing \<Rightarrow> Some (set_copier s Finished (c\<lparr>so_wg := so_wg c - 1\<rparr>))
   | Finished \<Rightarrow> None)"

text \<open>An error ends the loop: of a write, after \<open>n\<close> of its bytes, or of a read.\<close>

definition copyIO_fails :: "stream \<Rightarrow> nat \<Rightarrow> stdio \<Rightarrow> stdio option" where
  "copyIO_fails s n c = (case so_copier c s of
     Reading \<Rightarrow> Some (set_copier s (copy_ended (so_waits c s)) c)
   | Writing b \<Rightarrow> Some (set_copier s (copy_ended (so_waits c s))
       (c\<lparr>so_output := (so_output c)(s := so_output c s @ take n b)\<rparr>))
   | _ \<Rightarrow> None)"

text \<open>
  The goroutine of the standard input. A write fails when runllc has closed the file or nobody can read
  from it. Closing the file again when it is closed does nothing; for a console it is left open.
\<close>

definition feed :: "nat \<Rightarrow> stdio \<Rightarrow> stdio option" where
  "feed n c = (case so_feeder c of
     Reading \<Rightarrow> (case read_some n (so_typed c) (so_typed_end c) of
         None \<Rightarrow> None
       | Some [] \<Rightarrow> Some (c\<lparr>so_feeder := Closing\<rparr>)
       | Some b \<Rightarrow> Some (c\<lparr>so_typed := drop (length b) (so_typed c), so_feeder := Writing b\<rparr>))
   | Writing b \<Rightarrow>
       if so_in c \<in> set (so_open c) then Some (c\<lparr>so_input := so_input c @ b, so_feeder := Reading\<rparr>) else None
   | Closing \<Rightarrow> Some ((if so_waits c Stdout then close_files [so_in c] c else c)\<lparr>so_feeder := Finished\<rparr>)
   | Finishing \<Rightarrow> None
   | Finished \<Rightarrow> None)"

definition feed_fails :: "stdio \<Rightarrow> stdio option" where
  "feed_fails c = (case so_feeder c of
     Reading \<Rightarrow> Some (c\<lparr>so_feeder := Closing\<rparr>)
   | Writing b \<Rightarrow> Some (c\<lparr>so_feeder := Closing\<rparr>)
   | _ \<Rightarrow> None)"

subsection \<open>The runner's terminal\<close>

text \<open>\<open>ClosePostStart\<close>, and \<open>Close\<close> up to and after its wait for the goroutines.\<close>

definition tty_posts :: "stdio \<Rightarrow> stdio option" where
  "tty_posts c = (if so_stage c = TtyOpen
     then Some ((close_files (tty_postStart (so_tty c)) c)\<lparr>so_stage := TtyPosted\<rparr>) else None)"

definition tty_closes :: "stdio \<Rightarrow> stdio option" where
  "tty_closes c = (if so_stage c = TtyOpen \<or> so_stage c = TtyPosted
     then Some ((close_files (tty_postStart (so_tty c)) c)\<lparr>so_stage := TtyWaiting\<rparr>) else None)"

definition tty_closed :: "stdio \<Rightarrow> stdio option" where
  "tty_closed c = (if so_stage c = TtyWaiting \<and> so_wg c = 0
     then Some ((close_files (tty_closers (so_tty c)) c)\<lparr>so_stage := TtyClosed\<rparr>) else None)"

subsection \<open>Events\<close>

fun stdio_step :: "copy_event \<Rightarrow> stdio \<Rightarrow> stdio option" where
  "stdio_step Spawns c = (if so_stage c = TtyOpen then Some (c\<lparr>so_child := (\<lambda>_. True), so_began := (\<lambda>_. True)\<rparr>) else None)"
| "stdio_step (Child_writes s b) c =
     (if so_child c s \<and> so_read c s \<in> set (so_open c)
      then Some (c\<lparr>so_buffer := (so_buffer c)(s := so_buffer c s @ b)\<rparr>) else None)"
| "stdio_step (Child_closes s) c = Some (c\<lparr>so_child := (so_child c)(s := False)\<rparr>)"
| "stdio_step (Child_reads n) c = Some (c\<lparr>so_input := drop n (so_input c)\<rparr>)"
| "stdio_step (Types b) c = (if so_typed_end c then None else Some (c\<lparr>so_typed := so_typed c @ b\<rparr>))"
| "stdio_step Types_end c = Some (c\<lparr>so_typed_end := True\<rparr>)"
| "stdio_step (Copies s n) c = copyIO s n c"
| "stdio_step (Copy_fails s n) c = copyIO_fails s n c"
| "stdio_step (Feeds n) c = feed n c"
| "stdio_step Feed_fails c = feed_fails c"
| "stdio_step Posts c = tty_posts c"
| "stdio_step Closes c = tty_closes c"
| "stdio_step Closed c = tty_closed c"

text \<open>A run of a guarded event system.\<close>

fun run_events :: "('e \<Rightarrow> 's \<Rightarrow> 's option) \<Rightarrow> 'e list \<Rightarrow> 's \<Rightarrow> 's option" where
  "run_events step [] s = Some s"
| "run_events step (e # es) s = (case step e s of None \<Rightarrow> None | Some t \<Rightarrow> run_events step es t)"

text \<open>
  The state in which \<open>createStdioPipes\<close> leaves its goroutines: \<open>t.wg.Add(2)\<close>, two \<open>copyIO\<close> on the
  caller's ends of the output pipes, and the input. \<open>createTty\<close> starts two plain copies.
\<close>

definition stdio_pipes :: "Process \<Rightarrow> tty \<Rightarrow> nat list \<Rightarrow> stdio" where
  "stdio_pipes p t fds = \<lparr>so_tty = t, so_open = fds,
     so_read = (\<lambda>s. case s of Stdout \<Rightarrow> tty_closers t ! 1 | Stderr \<Rightarrow> tty_closers t ! 2),
     so_far = (\<lambda>s. case s of Stdout \<Rightarrow> pipe_ends [p_Stdout p] | Stderr \<Rightarrow> pipe_ends [p_Stderr p]),
     so_waits = (\<lambda>_. True), so_child = (\<lambda>_. False), so_began = (\<lambda>_. True), so_buffer = (\<lambda>_. []), so_copier = (\<lambda>_. Reading),
     so_output = (\<lambda>_. []), so_wg = 2, so_stage = TtyOpen, so_in = tty_closers t ! 0, so_typed = [],
     so_typed_end = False, so_feeder = Reading, so_input = []\<rparr>"

definition stdio_console :: "tty \<Rightarrow> Console \<Rightarrow> nat list \<Rightarrow> stdio" where
  "stdio_console t console fds = \<lparr>so_tty = t, so_open = fds, so_read = (\<lambda>_. console_Fd console),
     so_far = (\<lambda>_. []), so_waits = (\<lambda>_. False), so_child = (\<lambda>_. False), so_began = (\<lambda>_. False), so_buffer = (\<lambda>_. []),
     so_copier = (\<lambda>s. case s of Stdout \<Rightarrow> Reading | Stderr \<Rightarrow> Finished), so_output = (\<lambda>_. []), so_wg = 0,
     so_stage = TtyOpen, so_in = console_Fd console, so_typed = [], so_typed_end = False,
     so_feeder = Reading, so_input = []\<rparr>"

subsection \<open>What every run keeps\<close>

text \<open>The bytes of a stream that have been copied, are held by the goroutine, or wait in the pipe.\<close>

definition so_held :: "copier \<Rightarrow> string" where
  "so_held x = (case x of Writing b \<Rightarrow> b | _ \<Rightarrow> [])"

definition so_account :: "stream \<Rightarrow> stdio \<Rightarrow> string" where
  "so_account s c = so_output c s @ so_held (so_copier c s) @ so_buffer c s"

fun wrote :: "stream \<Rightarrow> copy_event \<Rightarrow> string" where
  "wrote s (Child_writes t b) = (if s = t then b else [])"
| "wrote s _ = []"

fun lossless :: "copy_event \<Rightarrow> bool" where
  "lossless (Copy_fails s n) = False"
| "lossless _ = True"

fun copying :: "copier \<Rightarrow> bool" where
  "copying Reading = True"
| "copying (Writing b) = True"
| "copying _ = False"

definition running_copies :: "stdio \<Rightarrow> int" where
  "running_copies c = (if so_copier c Stdout = Finished then 0 else 1) + (if so_copier c Stderr = Finished then 0 else 1)"

text \<open>
  How pipes are wired: the files the outputs are read from, those of runllc at their other ends, and
  the two ends of the input, all different.
\<close>

definition wired :: "stdio \<Rightarrow> bool" where
  "wired c \<longleftrightarrow> (\<forall>s. so_waits c s \<and> so_began c s) \<and> (\<exists>a. tty_postStart (so_tty c) = a # so_far c Stdout @ so_far c Stderr
     \<and> tty_closers (so_tty c) = [so_in c, so_read c Stdout, so_read c Stderr]
     \<and> distinct ([a, so_in c, so_read c Stdout, so_read c Stderr] @ so_far c Stdout @ so_far c Stderr))"

definition ends_ok :: "stdio \<Rightarrow> bool" where
  "ends_ok c \<longleftrightarrow> (\<forall>s. if so_stage c = TtyOpen then set (so_far c s) \<subseteq> set (so_open c) \<and> so_far c s \<noteq> []
     else set (so_far c s) \<inter> set (so_open c) = {})"

definition reads_ok :: "stdio \<Rightarrow> bool" where
  "reads_ok c \<longleftrightarrow> (\<forall>s. copying (so_copier c s) \<longrightarrow> so_read c s \<in> set (so_open c))"

definition wg_ok :: "stdio \<Rightarrow> bool" where
  "wg_ok c \<longleftrightarrow> so_wg c = running_copies c \<and> (so_stage c = TtyClosed \<longrightarrow> so_wg c = 0)"

definition drained :: "stdio \<Rightarrow> bool" where
  "drained c \<longleftrightarrow> (\<forall>s. \<not> copying (so_copier c s) \<longrightarrow>
     so_buffer c s = [] \<and> \<not> so_child c s \<and> so_stage c \<noteq> TtyOpen)"

lemma all_stream: "(\<forall>s. P s) \<longleftrightarrow> P Stdout \<and> P Stderr"
  by (metis stream.exhaust)


lemma read_some_nil: "read_some n b e = Some [] \<longleftrightarrow> b = [] \<and> e"
  by (auto simp: read_some_def)

lemma read_some_cons:
  assumes "read_some n b e = Some (x # xs)"
  shows "b = (x # xs) @ drop (Suc (length xs)) b"
proof -
  have "take n b = x # xs" "n \<le> length b" using assms by (auto simp: read_some_def split: if_splits)
  moreover from this have "n = Suc (length xs)" by (metis length_Cons length_take min.absorb2)
  ultimately show ?thesis by (metis append_take_drop_id)
qed

text \<open>The steps of a copying goroutine, as cases.\<close>

lemma copyIO_cases:
  assumes "copyIO s n c = Some d"
  obtains (broken) "so_copier c s = Reading" "so_read c s \<notin> set (so_open c)" "d = set_copier s (copy_ended (so_waits c s)) c"
  | (ended) "so_copier c s = Reading" "so_read c s \<in> set (so_open c)" "so_buffer c s = []" "so_ended s c"
      "d = set_copier s (copy_ended (so_waits c s)) c"
  | (chunk) b rest where "so_copier c s = Reading" "so_read c s \<in> set (so_open c)" "so_buffer c s = b @ rest" "b \<noteq> []"
      "d = set_copier s (Writing b) (c\<lparr>so_buffer := (so_buffer c)(s := rest)\<rparr>)"
  | (written) b where "so_copier c s = Writing b"
      "d = set_copier s Reading (c\<lparr>so_output := (so_output c)(s := so_output c s @ b)\<rparr>)"
  | (closed) "so_copier c s = Closing" "d = set_copier s Finishing (close_files [so_read c s] c)"
  | (finished) "so_copier c s = Finishing" "d = set_copier s Finished (c\<lparr>so_wg := so_wg c - 1\<rparr>)"
proof (cases "so_copier c s")
  case Reading
  show thesis
  proof (cases "so_read c s \<in> set (so_open c)")
    case open_file: True
    then show thesis
    proof (cases "read_some n (so_buffer c s) (so_ended s c)")
      case (Some b)
      show thesis
      proof (cases b)
        case Nil
        with Some have "so_buffer c s = []" "so_ended s c" by (simp_all add: read_some_nil)
        with assms Reading open_file Some Nil show thesis by (auto simp: copyIO_def intro: ended)
      next
        case (Cons x xs)
        with Some have "so_buffer c s = (x # xs) @ drop (Suc (length xs)) (so_buffer c s)"
          using read_some_cons by blast
        with assms Reading open_file Some Cons show thesis
          by (intro chunk [of "x # xs" "drop (Suc (length xs)) (so_buffer c s)"]) (auto simp: copyIO_def)
      qed
    qed (use assms Reading in \<open>simp add: copyIO_def\<close>)
  qed (use assms Reading in \<open>auto simp: copyIO_def intro: broken\<close>)
qed (use assms in \<open>auto simp: copyIO_def intro: written closed finished\<close>)


lemma stage_simps [simp]:
  "so_stage (set_copier s x c) = so_stage c" "so_stage (close_files fds c) = so_stage c"
  "so_open (set_copier s x c) = so_open c" "set (so_open (close_files fds c)) = set (so_open c) - set fds"
  "so_far (set_copier s x c) = so_far c" "so_far (close_files fds c) = so_far c"
  "so_read (set_copier s x c) = so_read c" "so_read (close_files fds c) = so_read c"
  "so_tty (set_copier s x c) = so_tty c" "so_tty (close_files fds c) = so_tty c"
  "so_in (set_copier s x c) = so_in c" "so_in (close_files fds c) = so_in c"
  "so_waits (set_copier s x c) = so_waits c" "so_waits (close_files fds c) = so_waits c"
  "so_began (set_copier s x c) = so_began c" "so_began (close_files fds c) = so_began c"
  "so_child (set_copier s x c) = so_child c" "so_child (close_files fds c) = so_child c"
  "so_buffer (set_copier s x c) = so_buffer c" "so_buffer (close_files fds c) = so_buffer c"
  "so_output (set_copier s x c) = so_output c" "so_output (close_files fds c) = so_output c"
  "so_copier (set_copier s x c) = (so_copier c)(s := x)" "so_copier (close_files fds c) = so_copier c"
  "so_wg (set_copier s x c) = so_wg c" "so_wg (close_files fds c) = so_wg c"
  "so_typed (set_copier s x c) = so_typed c" "so_typed (close_files fds c) = so_typed c"
  "so_feeder (set_copier s x c) = so_feeder c" "so_feeder (close_files fds c) = so_feeder c"
  by (auto simp: set_copier_def close_files_def)

lemmas other_steps = copyIO_fails_def feed_def feed_fails_def tty_posts_def tty_closes_def tty_closed_def

lemma wired_step:
  assumes "stdio_step e c = Some d" and "wired c"
  shows "wired d"
proof -
  have "so_tty d = so_tty c \<and> so_read d = so_read c \<and> so_far d = so_far c \<and> so_in d = so_in c
      \<and> so_waits d = so_waits c \<and> (\<forall>s. so_began c s \<longrightarrow> so_began d s)"
    using assms(1)
  proof (cases e)
    case (Copies s n)
    with assms(1) have "copyIO s n c = Some d" by simp
    then show ?thesis by (cases rule: copyIO_cases) simp_all
  qed (auto simp: other_steps split: if_splits copier.splits option.splits list.splits)
  then show ?thesis using assms(2) by (simp add: wired_def)
qed

lemma wired_files:
  assumes "wired c"
  shows "so_far c s \<noteq> [] \<Longrightarrow> set (so_far c s) \<subseteq> set (tty_postStart (so_tty c))"
    and "set (so_far c s) \<inter> {so_in c, so_read c t} = {}"
    and "so_read c s \<notin> set (tty_postStart (so_tty c))" and "so_read c s \<noteq> so_in c"
    and "s \<noteq> t \<Longrightarrow> so_read c s \<noteq> so_read c t"
    and "set (tty_closers (so_tty c)) = {so_in c, so_read c Stdout, so_read c Stderr}"
    and "so_waits c s" and "so_began c s"
  using assms unfolding wired_def by (cases s; cases t; auto)+

lemma ends_keep:
  assumes "ends_ok c" and "so_stage d = so_stage c" and "so_far d = so_far c"
    and "set (so_open c) - {so_in c, so_read c Stdout, so_read c Stderr} \<subseteq> set (so_open d)"
    and "set (so_open d) \<subseteq> set (so_open c)" and "wired c"
  shows "ends_ok d"
proof -
  have "set (so_far c s) \<inter> set (so_open d) = set (so_far c s) \<inter> set (so_open c)" for s
    using assms(4,5) wired_files(2) [OF assms(6), of s Stdout] wired_files(2) [OF assms(6), of s Stderr] by auto
  then show ?thesis using assms(1-3) by (simp add: ends_ok_def) (metis inf.orderE inf.orderI)
qed

lemma ends_step:
  assumes "stdio_step e c = Some d" and "wired c" and "ends_ok c"
  shows "ends_ok d"
proof (cases e)
  case (Copies s n)
  then have "copyIO s n c = Some d" using assms(1) by simp
  then show ?thesis
    by (cases rule: copyIO_cases; intro ends_keep [OF assms(3) _ _ _ _ assms(2)]; cases s) auto
next
  case (Feeds n)
  then show ?thesis using assms(1)
    by (intro ends_keep [OF assms(3) _ _ _ _ assms(2)])
      (auto simp: feed_def split: copier.splits if_splits option.splits list.splits)
next
  case Posts
  then show ?thesis using assms wired_files(1) [OF assms(2)]
    by (simp add: ends_ok_def tty_posts_def split: if_splits) fastforce
next
  case Closes
  then show ?thesis using assms wired_files(1) [OF assms(2)]
    by (simp add: ends_ok_def tty_closes_def split: if_splits) fastforce+
next
  case Closed
  then have d: "so_stage c = TtyWaiting" "d = (close_files (tty_closers (so_tty c)) c)\<lparr>so_stage := TtyClosed\<rparr>"
    using assms(1) by (auto simp: tty_closed_def split: if_splits)
  then have "set (so_far c s) \<inter> set (so_open c) = {}" for s using assms(3) by (simp add: ends_ok_def)
  then have "set (so_far d s) \<inter> set (so_open d) = {}" for s using d(2) by auto
  then show ?thesis using d(2) by (simp add: ends_ok_def)
qed (rule ends_keep [OF assms(3) _ _ _ _ assms(2)];
    use assms(1) in \<open>auto simp: copyIO_fails_def feed_fails_def split: copier.splits if_splits\<close>)+

lemma reads_step:
  assumes "stdio_step e c = Some d" and "wired c" and "reads_ok c" and "wg_ok c"
  shows "reads_ok d"
proof (cases e)
  case (Copies s n)
  then have "copyIO s n c = Some d" using assms(1) by simp
  then show ?thesis using assms(2,3) wired_files(5,7) [OF assms(2)]
    by (cases rule: copyIO_cases) (auto simp: reads_ok_def copy_ended_def)
next
  case (Feeds n)
  then show ?thesis using assms wired_files(4) [OF assms(2)]
    by (auto simp: reads_ok_def feed_def split: copier.splits if_splits option.splits list.splits)
next
  case Posts
  then show ?thesis using assms wired_files(3) [OF assms(2)]
    by (auto simp: reads_ok_def tty_posts_def split: if_splits)
next
  case Closes
  then show ?thesis using assms wired_files(3) [OF assms(2)]
    by (auto simp: reads_ok_def tty_closes_def split: if_splits)
next
  case Closed
  then show ?thesis using assms
    by (auto simp: reads_ok_def wg_ok_def running_copies_def all_stream tty_closed_def split: if_splits)
qed (use assms in \<open>auto simp: reads_ok_def other_steps copy_ended_def split: copier.splits if_splits\<close>)

text \<open>What only the copying goroutines and the end of \<open>Close\<close> change.\<close>

lemma aside_step:
  assumes "stdio_step e c = Some d" and "\<And>s n. e \<noteq> Copies s n" and "\<And>s n. e \<noteq> Copy_fails s n"
  shows "so_wg d = so_wg c" and "so_copier d = so_copier c" and "so_output d = so_output c"
    and "e \<noteq> Closed \<Longrightarrow> so_stage d = TtyClosed \<Longrightarrow> so_stage c = TtyClosed"
    and "so_stage c \<noteq> TtyOpen \<Longrightarrow> so_stage d \<noteq> TtyOpen"
  using assms by (cases e; auto simp: other_steps split: copier.splits if_splits option.splits list.splits)+

lemma wg_keep:
  assumes "wg_ok c" and "so_wg d = so_wg c" and "so_copier d = so_copier c"
    and "so_stage d = TtyClosed \<Longrightarrow> so_stage c = TtyClosed"
  shows "wg_ok d"
proof -
  have "running_copies d = running_copies c" using assms(3) by (simp add: running_copies_def)
  then show ?thesis using assms by (auto simp: wg_ok_def)
qed

lemma wg_step:
  assumes "stdio_step e c = Some d" and "wired c" and "wg_ok c"
  shows "wg_ok d"
proof (cases e)
  case (Copies s n)
  then have "copyIO s n c = Some d" using assms(1) by simp
  then show ?thesis using assms(2,3) wired_files(7) [OF assms(2)]
    by (cases rule: copyIO_cases; cases s) (auto simp: wg_ok_def running_copies_def copy_ended_def split: if_splits)
next
  case (Copy_fails s n)
  then show ?thesis using assms wired_files(7) [OF assms(2)]
    by (cases s) (auto simp: wg_ok_def running_copies_def copyIO_fails_def copy_ended_def split: copier.splits if_splits)
next
  case Closed
  then show ?thesis using assms by (auto simp: wg_ok_def running_copies_def tty_closed_def split: if_splits)
qed (rule wg_keep [OF assms(3)]; use aside_step [OF assms(1)] in simp)+

lemma drained_copy:
  assumes "copyIO s n c = Some d" and "wired c" and "ends_ok c" and "reads_ok c" and "drained c"
  shows "drained d"
  using assms(1)
proof (cases rule: copyIO_cases)
  case broken
  then show ?thesis using assms(4) by (auto simp: reads_ok_def)
next
  case ended
  have "so_stage c \<noteq> TtyOpen"
  proof
    assume "so_stage c = TtyOpen"
    then have "set (so_far c s) \<subseteq> set (so_open c)" "so_far c s \<noteq> []" using assms(3) by (simp_all add: ends_ok_def)
    then show False using ended(4) by (cases "so_far c s") (auto simp: so_ended_def)
  qed
  then show ?thesis using ended assms(5) by (simp add: drained_def so_ended_def)
qed (use assms(5) in \<open>auto simp: drained_def split: if_splits dest: spec [of _ s]\<close>)

lemma drained_step:
  assumes "stdio_step e c = Some d" and "lossless e" and "wired c" and "ends_ok c" and "reads_ok c" and "drained c"
  shows "drained d"
proof (cases e)
  case (Copies s n)
  then show ?thesis using assms drained_copy by simp
next
  case (Child_writes s b)
  then show ?thesis using assms by (auto simp: drained_def split: if_splits)
next
  case (Feeds n)
  then show ?thesis using assms
    by (auto simp: drained_def feed_def split: copier.splits if_splits option.splits list.splits)
qed (use assms in \<open>auto simp: drained_def feed_fails_def tty_posts_def tty_closes_def tty_closed_def split: copier.splits if_splits\<close>)

lemma account_step:
  assumes "stdio_step e c = Some d" and "lossless e"
  shows "so_account s d = so_account s c @ wrote s e"
proof (cases e)
  case (Copies t n)
  then have "copyIO t n c = Some d" using assms(1) by simp
  then show ?thesis using Copies
    by (cases rule: copyIO_cases) (auto simp: so_account_def so_held_def copy_ended_def)
next
  case (Feeds n)
  then show ?thesis using assms
    by (auto simp: so_account_def feed_def split: copier.splits if_splits option.splits list.splits)
qed (use assms in \<open>auto simp: so_account_def feed_fails_def tty_posts_def tty_closes_def tty_closed_def split: copier.splits if_splits\<close>)


subsection \<open>Runs that come to an end\<close>

text \<open>
  An event system with a measure that each of its own events lowers, and one of them enabled until it
  is done: whatever order they are scheduled in, there are at most as many as the measure says, and the
  system stops only when it is done.
\<close>

locale finishing =
  fixes step :: "'e \<Rightarrow> 's \<Rightarrow> 's option" and inv :: "'s \<Rightarrow> bool" and own :: "'e \<Rightarrow> bool"
    and ready :: "'e \<Rightarrow> bool" and finished :: "'s \<Rightarrow> bool" and work :: "'s \<Rightarrow> nat"
  assumes keeps: "own e \<Longrightarrow> step e s = Some t \<Longrightarrow> inv s \<Longrightarrow> inv t"
    and lowers: "own e \<Longrightarrow> step e s = Some t \<Longrightarrow> inv s \<Longrightarrow> work t < work s"
    and enabled: "inv s \<Longrightarrow> \<not> finished s \<Longrightarrow> \<exists>e. own e \<and> ready e \<and> step e s \<noteq> None"
begin

lemma run_inv: "run_events step es s = Some t \<Longrightarrow> list_all own es \<Longrightarrow> inv s \<Longrightarrow> inv t"
  by (induction es arbitrary: s) (auto split: option.splits intro: keeps)

lemma run_bounded: "run_events step es s = Some t \<Longrightarrow> list_all own es \<Longrightarrow> inv s \<Longrightarrow> length es + work t \<le> work s"
proof (induction es arbitrary: s)
  case (Cons e es)
  then obtain u where u: "step e s = Some u" "run_events step es u = Some t" by (auto split: option.splits)
  with Cons.IH [OF u(2)] Cons.prems keeps [of e s u] lowers [of e s u] show ?case by auto
qed simp

lemma run_ends:
  assumes "inv s" and "list_all own es" and "run_events step es s = Some t"
  shows "length es \<le> work s \<and> (finished t \<or> (\<exists>e. own e \<and> ready e \<and> step e t \<noteq> None))"
  using run_bounded [OF assms(3,2,1)] enabled [OF run_inv [OF assms(3,2,1)]] by auto

end

subsection \<open>The terminal closes once the container has ended\<close>

fun own_event :: "copy_event \<Rightarrow> bool" where
  "own_event (Copies s n) = True"
| "own_event (Copy_fails s n) = True"
| "own_event (Feeds n) = True"
| "own_event Feed_fails = True"
| "own_event Posts = True"
| "own_event Closes = True"
| "own_event Closed = True"
| "own_event _ = False"

fun copy_work :: "copier \<Rightarrow> nat \<Rightarrow> nat" where
  "copy_work Reading n = 2 * n + 3"
| "copy_work (Writing b) n = 2 * n + 4"
| "copy_work Closing n = 2"
| "copy_work Finishing n = 1"
| "copy_work Finished n = 0"

definition stage_work :: "tty_stage \<Rightarrow> nat" where
  "stage_work x = (case x of TtyOpen \<Rightarrow> 3 | TtyPosted \<Rightarrow> 2 | TtyWaiting \<Rightarrow> 1 | TtyClosed \<Rightarrow> 0)"

definition stdio_work :: "stdio \<Rightarrow> nat" where
  "stdio_work c = copy_work (so_copier c Stdout) (length (so_buffer c Stdout))
     + copy_work (so_copier c Stderr) (length (so_buffer c Stderr))
     + copy_work (so_feeder c) (length (so_typed c)) + stage_work (so_stage c)"

definition piped_ok :: "stdio \<Rightarrow> bool" where
  "piped_ok c \<longleftrightarrow> wired c \<and> ends_ok c \<and> reads_ok c \<and> wg_ok c"

lemma piped_step: "stdio_step e c = Some d \<Longrightarrow> piped_ok c \<Longrightarrow> piped_ok d"
  by (simp add: piped_ok_def wired_step ends_step reads_step wg_step)

definition ended_ok :: "stdio \<Rightarrow> bool" where
  "ended_ok c \<longleftrightarrow> piped_ok c \<and> (\<forall>s. \<not> so_child c s)"

lemma own_child:
  assumes "own_event e" and "stdio_step e c = Some d"
  shows "so_child d = so_child c"
proof (cases e)
  case (Copies s n)
  then have "copyIO s n c = Some d" using assms(2) by simp
  then show ?thesis by (cases rule: copyIO_cases) simp_all
qed (use assms in \<open>auto simp: other_steps split: copier.splits if_splits option.splits list.splits\<close>)

lemma chunk_shorter: "b \<noteq> [] \<Longrightarrow> Suc 0 < 2 * length b"
  by (cases b) simp_all

lemma read_some_shorter: "read_some n b e = Some (x # xs) \<Longrightarrow> Suc (length xs) \<le> length b"
  by (drule read_some_cons, drule arg_cong [of _ _ length]) simp

lemma own_lowers:
  assumes "own_event e" and "stdio_step e c = Some d"
  shows "stdio_work d < stdio_work c"
proof (cases e)
  case (Copies s n)
  then have "copyIO s n c = Some d" using assms(2) by simp
  then show ?thesis
    by (cases rule: copyIO_cases; cases s) (simp_all add: stdio_work_def copy_ended_def chunk_shorter)
next
  case (Copy_fails s n)
  then show ?thesis using assms(2)
    by (cases s) (auto simp: stdio_work_def copyIO_fails_def copy_ended_def split: copier.splits if_splits)
next
  case (Feeds n)
  then have feed: "feed n c = Some d" using assms(2) by simp
  show ?thesis
  proof (cases "so_feeder c")
    case Reading
    then show ?thesis using feed
      by (cases "read_some n (so_typed c) (so_typed_end c)")
        (auto simp: feed_def stdio_work_def dest!: read_some_shorter split: list.splits)
  qed (use feed in \<open>auto simp: feed_def stdio_work_def split: if_splits\<close>)
next
  case Feed_fails
  then show ?thesis using assms(2)
    by (auto simp: stdio_work_def feed_fails_def split: copier.splits)
qed (use assms in \<open>auto simp: stdio_work_def stage_work_def tty_posts_def tty_closes_def tty_closed_def split: if_splits\<close>)

lemma copier_enabled:
  assumes "ended_ok c" and "so_stage c = TtyWaiting" and "so_copier c s \<noteq> Finished"
  shows "copyIO s 1 c \<noteq> None"
proof (cases "so_copier c s")
  case Reading
  have "set (so_far c s) \<inter> set (so_open c) = {}"
    using assms(1,2) by (simp add: ended_ok_def piped_ok_def ends_ok_def)
  then have "so_ended s c"
    using assms(1) wired_files(8) [of c] by (auto simp: ended_ok_def piped_ok_def so_ended_def list_all_iff)
  then show ?thesis using Reading
    by (auto simp: copyIO_def read_some_def Suc_le_eq split: list.splits)
qed (use assms(3) in \<open>auto simp: copyIO_def\<close>)

lemma close_enabled:
  assumes "ended_ok c" and "so_stage c \<noteq> TtyClosed"
  shows "\<exists>e. own_event e \<and> lossless e \<and> stdio_step e c \<noteq> None"
proof (cases "so_stage c = TtyWaiting")
  case waiting: True
  show ?thesis
  proof (cases "\<exists>s. so_copier c s \<noteq> Finished")
    case True
    then obtain s where "so_copier c s \<noteq> Finished" ..
    with copier_enabled [OF assms(1) waiting] show ?thesis
      by (intro exI [where x = "Copies s 1"]) simp
  next
    case False
    then have "so_wg c = 0"
      using assms(1) by (simp add: ended_ok_def piped_ok_def wg_ok_def running_copies_def)
    with waiting show ?thesis by (intro exI [where x = Closed]) (simp add: tty_closed_def)
  qed
next
  case False
  with assms(2) have "so_stage c = TtyOpen \<or> so_stage c = TtyPosted" by (cases "so_stage c") simp_all
  then show ?thesis by (intro exI [where x = Closes]) (auto simp: tty_closes_def)
qed

interpretation stdio_ends: finishing stdio_step ended_ok own_event lossless "\<lambda>c. so_stage c = TtyClosed" stdio_work
proof unfold_locales
  show "ended_ok d" if "own_event e" and "stdio_step e c = Some d" and "ended_ok c" for e c d
    using that piped_step [OF that(2)] own_child [OF that(1,2)] by (simp add: ended_ok_def)
qed (rule own_lowers close_enabled, assumption+)+

subsection \<open>From the start\<close>

lemma createStdioPipes_start:
  assumes "createStdioPipes p u g w = (Ok (p', t), w')"
  shows "piped_ok (stdio_pipes p' t (w_fds w'))"
proof -
  obtain i where init: "InitializeIO p u g w = (Ok (p', i), w')"
    and t: "t = no_tty\<lparr>tty_closers := [io_Stdin i, io_Stdout i, io_Stderr i],
       tty_postStart := pipe_ends [p_Stdin p', p_Stdout p', p_Stderr p']\<rparr>"
    using assms by (auto simp: createStdioPipes_def seq_def try_io_def ret_def split: prod.splits res.splits)
  have "opened w [] w" by (simp add: opened_def)
  then have "piped w p (p', i) w'"
    using InitializeIO_cases [of w p u g] init by (auto simp: ensures_def dest: spec [of _ w])
  then obtain a b r1 d r2 f where "opened w [a, b, r1, d, r2, f] w'"
    "p' = p\<lparr>p_Stdin := Some (PipeEnd a), p_Stdout := Some (PipeEnd d), p_Stderr := Some (PipeEnd f)\<rparr>"
    "i = \<lparr>io_Stdin = b, io_Stdout = r1, io_Stderr = r2\<rparr>"
    by (auto simp: piped_def)
  moreover from this(1) have "distinct [a, b, r1, d, r2, f]" by (simp only: opened_def)
  moreover have "w_fds w' = w_fds w @ [a, b, r1, d, r2, f]" by (rule opened_fds) fact
  ultimately show ?thesis
    by (auto simp: t piped_ok_def wired_def ends_ok_def reads_ok_def wg_ok_def running_copies_def stdio_pipes_def
      pipe_ends_def List.map_filter_simps split: stream.splits)
qed

lemma run_keeps:
  assumes "\<And>e c d. step e c = Some d \<Longrightarrow> P e \<Longrightarrow> I c \<Longrightarrow> I d"
  shows "run_events step es c = Some d \<Longrightarrow> list_all P es \<Longrightarrow> I c \<Longrightarrow> I d"
  by (induction es arbitrary: c) (auto split: option.splits intro: assms)

lemma drained_piped_step:
  assumes "stdio_step e c = Some d" and "lossless e" and "piped_ok c \<and> drained c"
  shows "piped_ok d \<and> drained d"
  using assms piped_step [OF assms(1)] drained_step [OF assms(1,2)] by (simp add: piped_ok_def)

lemma run_account:
  "run_events stdio_step es c = Some d \<Longrightarrow> list_all lossless es \<Longrightarrow>
    so_account s d = so_account s c @ concat (map (wrote s) es)"
  by (induction es arbitrary: c) (auto split: option.splits simp: account_step)

subsection \<open>A console is not waited for\<close>

text \<open>
  The copies of a console are outside the wait group, so \<open>Close\<close> may come first: the runner can be done
  with its terminal while nothing of what the container wrote has been copied, and then nothing will be.
\<close>

lemma console_output_lost:
  assumes "tty_closers t = [console_Fd console]" and "tty_postStart t = []" and "console_Fd console \<in> set fds"
  shows "\<exists>es c. run_events stdio_step es (stdio_console t console fds) = Some c \<and> list_all lossless es
    \<and> so_stage c = TtyClosed \<and> so_copier c Stdout = Finished
    \<and> concat (map (wrote Stdout) es) = b \<and> so_output c Stdout = []"
  using assms
  by (intro exI [where x = "[Spawns, Posts, Child_writes Stdout b, Child_closes Stdout, Child_closes Stderr,
      Closes, Closed, Copies Stdout 1]"])
    (simp add: stdio_console_def tty_posts_def tty_closes_def tty_closed_def copyIO_def copy_ended_def)

subsection \<open>The input\<close>

fun typed_by :: "copy_event \<Rightarrow> string" where
  "typed_by (Types b) = b"
| "typed_by _ = []"

text \<open>
  Unless its goroutine meets an error, the input arrives in order: what was typed is what the container
  has read, what waits in the pipe, what the goroutine holds and what it has not read.
\<close>

lemma input_step:
  assumes "stdio_step e c = Some d" and "e \<noteq> Feed_fails"
    and "so_input c @ so_held (so_feeder c) @ so_typed c = r"
  shows "\<exists>x. r @ typed_by e = x @ so_input d @ so_held (so_feeder d) @ so_typed d"
proof (cases e)
  case (Child_reads n)
  then have "r = take n (so_input c) @ so_input d @ so_held (so_feeder d) @ so_typed d"
    using assms(1) assms(3) [symmetric] by auto
  with Child_reads show ?thesis by auto
next
  case (Copies s n)
  then have "copyIO s n c = Some d" using assms(1) by simp
  then have "so_input d = so_input c \<and> so_feeder d = so_feeder c \<and> so_typed d = so_typed c"
    by (cases rule: copyIO_cases) (simp_all add: set_copier_def close_files_def)
  with Copies assms(3) show ?thesis by auto
next
  case (Feeds n)
  then have "feed n c = Some d" using assms(1) by simp
  then have "r = so_input d @ so_held (so_feeder d) @ so_typed d"
    using assms(3) by (auto simp: feed_def so_held_def close_files_def read_some_nil dest: read_some_cons
      split: copier.splits if_splits option.splits list.splits)
  with Feeds show ?thesis by auto
qed (use assms in \<open>auto simp: copyIO_fails_def tty_posts_def tty_closes_def tty_closed_def set_copier_def close_files_def
    split: copier.splits if_splits\<close>)

lemma run_input:
  assumes "run_events stdio_step es c = Some d" and "list_all (\<lambda>e. e \<noteq> Feed_fails) es"
  shows "\<exists>x. so_input c @ so_held (so_feeder c) @ so_typed c @ concat (map typed_by es)
    = x @ so_input d @ so_held (so_feeder d) @ so_typed d"
  using assms
proof (induction es arbitrary: c)
  case (Cons e es)
  then obtain v where v: "stdio_step e c = Some v" "run_events stdio_step es v = Some d" "e \<noteq> Feed_fails"
    by (auto split: option.splits)
  from input_step [OF v(1,3) refl] obtain x where
    x: "(so_input c @ so_held (so_feeder c) @ so_typed c) @ typed_by e = x @ so_input v @ so_held (so_feeder v) @ so_typed v"
    by blast
  from Cons.IH [OF v(2)] Cons.prems(2) obtain y where
    y: "so_input v @ so_held (so_feeder v) @ so_typed v @ concat (map typed_by es)
      = y @ so_input d @ so_held (so_feeder d) @ so_typed d" by auto
  have "so_input c @ so_held (so_feeder c) @ so_typed c @ concat (map typed_by (e # es))
      = ((so_input c @ so_held (so_feeder c) @ so_typed c) @ typed_by e) @ concat (map typed_by es)" by simp
  also have "\<dots> = (x @ y) @ so_input d @ so_held (so_feeder d) @ so_typed d" using x y by simp
  finally show ?case by blast
qed auto

subsection \<open>The same files as the runner's\<close>

text \<open>Closing in this model closes the files that \<open>ClosePostStart\<close> and \<open>Close\<close> close on the machine.\<close>

lemma close_files_agree:
  assumes "so_open c = w_fds w"
  shows "so_open (close_files fds c) = w_fds (snd (close_all fds w))"
  using assms by (simp add: close_files_def close_all_run)

end
