(* ===== verification/Examples.thy ===== *)
theory Examples
  imports InitFacts CommandLine Api Composition Streams
begin

text \<open>
  A concrete machine on which the properties are applied: no call is refused, \<open>genisoimage\<close> writes
  an image, the netlink package accepts everything, and the processes that answer are those of a
  given set.
\<close>

definition calm_env :: "int list \<Rightarrow> env" where
  "calm_env alive = \<lparr>e_fault = \<lambda>_ _. None, e_alive = \<lambda>_ pid. pid \<in> set alive, e_fifo = \<lambda>_ _. Some ''0'',
     e_spawn = \<lambda>_. 77, e_now = \<lambda>_. ''2018-07-01T12:00:00Z'', e_run = \<lambda>_ _. Some ''iso'',
     e_temp = \<lambda>_. [''1''], e_vars = [], e_rand = \<lambda>_. 0, e_euid = 0, e_sockbuf = 4096,
     e_pts = \<lambda>_. 0, e_child = \<lambda>_ _ _. Exited '''' '''' None, e_exits = \<lambda>_ _. True, e_reader = \<lambda>_ _. True,
     e_kids = \<lambda>_. True\<rparr>"

definition dir_inode :: inode where
  "dir_inode = \<lparr>i_kind = KDir, i_mode = octal3 7 5 5, i_uid = 0, i_gid = 0\<rparr>"

definition file_inode :: "string \<Rightarrow> inode" where
  "file_inode s = \<lparr>i_kind = KFile s, i_mode = octal3 6 4 4, i_uid = 0, i_gid = 0\<rparr>"

definition calm_world :: "int list \<Rightarrow> (path \<times> inode) list \<Rightarrow> unit world" where
  "calm_world alive files = \<lparr>w_env = calm_env alive, w_tick = 0,
     w_fs = [([], dir_inode), ([''dev''], dir_inode), ([''r''], dir_inode), ([''b''], dir_inode)] @ files,
     w_cwd = ''/b'', w_umask = octal3 0 2 2, w_log = [], w_fds = [], w_children = [], w_net = ()\<rparr>"

definition calm_netlink :: "unit netlink" where
  "calm_netlink = \<lparr>nl_NewHandle = ret (), nl_HandleLinkAdd = ret, nl_LinkAdd = ret,
     nl_LinkDel = \<lambda>_. ret (), nl_LinkSetUp = \<lambda>_. ret (), nl_LinkByName = \<lambda>n. ret (NewLink (OtherLink ''veth'') n),
     nl_AddrList = \<lambda>_. ret [], nl_AddrAdd = \<lambda>_ _. ret (), nl_AddrDel = \<lambda>_ _. ret (), nl_RouteList = \<lambda>_. ret [],
     nl_LinkSetHardwareAddr = \<lambda>_ _. ret (), nl_LinkSetMaster = \<lambda>_ _. ret (), nl_ParseAddr = \<lambda>_. Inl (Msg ''addr'')\<rparr>"

text \<open>A netlink package that finds one address, 10.0.0.2/24, and one route on every link.\<close>

definition docker_netlink :: "unit netlink" where
  "docker_netlink = calm_netlink\<lparr>nl_AddrList := \<lambda>_. ret [\<lparr>a_IP = [10, 0, 0, 2], a_Mask = CIDRMask_bytes 24 4\<rparr>],
     nl_RouteList := \<lambda>_. ret [\<lparr>rt_Gw = [10, 0, 0, 1]\<rparr>]\<rparr>"

definition calm_factory :: "unit NablaFactory" where
  "calm_factory = \<lparr>fac_Root = ''/r'', fac_LLCHandler = nablaLLCHandler calm_netlink\<rparr>"

definition calm_config :: Config where
  "calm_config = \<lparr>cfg_Args = [''app.nabla''], cfg_Rootfs = ''/b'', cfg_Env = [], cfg_Cwd = ''/'', cfg_Version = ''1.0.0'',
     cfg_Labels = [], cfg_NetnsPath = '''', cfg_Hooks = None, cfg_Memory = 512, cfg_Mounts = []\<rparr>"

definition calm_lib :: "unit runclib" where
  "calm_lib = \<lparr>rl_WriteJSON = print_json, rl_GetProcessStartTime = \<lambda>_. ret ''42'', rl_SearchLabels = \<lambda>_ _. '''',
     rl_ExitStatus = \<lambda>st. st div 256, rl_SetSubreaper = ret (), rl_DecodeSpec = \<lambda>_. Ok None\<rparr>"

definition calm_state :: "Status \<Rightarrow> int \<Rightarrow> State" where
  "calm_state st pid = \<lparr>st_ID = ''0123456789ab'', st_InitProcessPid = pid, st_InitProcessStartTime = ''42'',
     st_Created = ''2018-07-01T12:00:00Z'', st_Config = calm_config, st_FsState = empty_LLState,
     st_NetworkState = \<lparr>ll_Options = [(''TapName'', ''tap0123456789ab'')], ll_InMemoryObjects = []\<rparr>,
     st_ExecState = empty_LLState, st_Status = st\<rparr>"

definition calm_container :: "Status \<Rightarrow> int \<Rightarrow> nablaContainer" where
  "calm_container st pid = \<lparr>nc_id = ''0123456789ab'', nc_root = ''/r/0123456789ab'', nc_config = calm_config,
     nc_state = calm_state st pid\<rparr>"

text \<open>The tree of a created container.\<close>

definition created_files :: "(path \<times> inode) list" where
  "created_files = [([''r'', ''0123456789ab''], dir_inode),
     ([''r'', ''0123456789ab'', ''exec.fifo''], \<lparr>i_kind = KFifo, i_mode = octal3 6 2 2, i_uid = 0, i_gid = 0\<rparr>),
     ([''r'', ''0123456789ab'', ''rootfs.iso''], file_inode ''iso'')]"

text \<open>On this machine a container can be created.\<close>

lemma calm_create:
  "\<exists>c w'. Create calm_factory ''0123456789ab'' calm_config (calm_world [] []) = (Ok c, w')"
proof -
  have "case fst (Create calm_factory ''0123456789ab'' calm_config (calm_world [] [])) of Ok _ \<Rightarrow> True | _ \<Rightarrow> False"
    by code_simp
  then show ?thesis
    by (cases "Create calm_factory ''0123456789ab'' calm_config (calm_world [] [])") (auto split: res.splits)
qed

lemma calm_dirs:
  "dirs_to (fs_get (calm_world al fs)) [''b'']" "dirs_to (fs_get (calm_world al fs)) [''r'']"
  by (auto simp: dirs_to_def calm_world_def fs_get_def dir_inode_def prefix_Cons)

lemma calm_paths:
  "resolve c ''/b'' = [''b'']" "resolve c ''/r/0123456789ab'' = [''r'', ''0123456789ab'']"
  "Join [''/r'', ''0123456789ab''] = ''/r/0123456789ab''" "IsAbs ''/r''" "IsAbs ''/b''"
proof -
  show *: "Join [''/r'', ''0123456789ab''] = ''/r/0123456789ab''" "IsAbs ''/r''" "IsAbs ''/b''" by code_simp+
  have "IsAbs ''/r/0123456789ab''" by code_simp
  with * show "resolve c ''/b'' = [''b'']" "resolve c ''/r/0123456789ab'' = [''r'', ''0123456789ab'']"
    by (simp_all add: resolve_def clean_elems_def clean_step_def)
qed

lemma calm_lib_encodes: "WriteJSON_encodes calm_lib"
  using parse_print [where r = "''''"] by (simp add: WriteJSON_encodes_def calm_lib_def stops_def)

lemma calm_state_ok: "State_ok (calm_state Created 77)"
  by code_simp

definition calm_process :: Process where
  "calm_process = \<lparr>p_Args = [''app.nabla''], p_Env = [], p_User = ''0:0'', p_AdditionalGroups = [], p_Cwd = ''/'',
     p_Stdin = None, p_Stdout = None, p_Stderr = None, p_ExtraFiles = [], p_consolePath = '''',
     p_Capabilities = [], p_AppArmorProfile = '''', p_Label = '''', p_NoNewPrivileges = None, p_ops = None,
     p_OOMScoreAdj = None\<rparr>"

text \<open>Where nothing is refused and the pipe has room, a process can be started.\<close>

lemma start_succeeds:
  assumes calm: "\<And>t oper. e_fault (w_env w) t oper = None" "\<And>pid. rl_GetProcessStartTime R pid = ret ''42''"
    and dirs: "nc_root c \<noteq> ''''" "fs_get w (resolve (w_cwd w) (nc_root c)) = Some n" "is_dir w (resolve (w_cwd w) (cfg_Rootfs (nc_config c)))"
    and room: "Suc (length (print_json (enc_initConfig (init_config c)))) \<le> e_sockbuf (w_env w)"
  shows "\<exists>pid s. start R p (c, w) = (Ok (p\<lparr>p_ops := Some pid\<rparr>), s)"
proof -
  let ?w = "\<lambda>k. w\<lparr>w_tick := k\<rparr>"
  let ?t = "print_json (enc_initConfig (init_config c)) @ [CHR 0x0A]"
  have pipe: "NewSockPair m w = (Ok (m @ ''-p'', m @ ''-c''), ?w (Suc (w_tick w)))" for m
    by (simp add: NewSockPair_def sys_Socketpair_def syscall_def calm seq_def try_io_def)
  have dir: "os_Open (nc_root c) (?w k) = (Ok (resolve (w_cwd w) (nc_root c)), ?w (Suc k))" for k
    using dirs by (simp add: os_Open_run calm)
  have send: "sock_Write ?t (?w k) = (Ok (), ?w (Suc k))" for k
    using room by (simp add: sock_Write_def syscall_def calm)
  have here: "is_dir (?w k) q = is_dir w q" for k q by (simp add: is_dir_def)
  have spawn: "proc_Start a b (cfg_Rootfs (nc_config c)) (?w k) = (Ok (e_spawn (w_env w) (Suc k)),
      ?w (Suc k)\<lparr>w_log := w_log w @ [Started a b (e_spawn (w_env w) (Suc k))]\<rparr>)" for a b k
    using dirs(3) by (simp add: proc_Start_def syscall_def calm here Let_def)
  have cd: "cmd_Dir (add_state_dir d (commandTemplate c p)) = cfg_Rootfs (nc_config c)" for d
    by (simp add: add_state_dir_def commandTemplate_def Let_def)
  obtain d v pid where run: "start R p (c, w) = seq (ignore (saveState R)) (\<lambda>_. ret (p\<lparr>p_ops := Some pid\<rparr>)) (d, v)"
    by (rule that) (simp add: start_def Let_def map_err_run pipe dir send spawn cd calm(2) time_Now_def)
  obtain q t where "ignore (saveState R) (d, v) = (q, t)" by (meson surj_pair)
  with saveState_object [OF this] run show ?thesis by auto
qed

lemma calm_addresses:
  "ParseIP ''10.0.0.1'' = Some (v4_prefix @ [10, 0, 0, 1])"
  "ParseCIDR ''10.0.0.2/24'' = Some (v4_prefix @ [10, 0, 0, 2], CIDRMask_bytes 24 4)"
  by (simp_all add: ParseIP_def ParseCIDR_def parseIPv4_def dec_field_def is_digit_def digit_val_def Let_def)
lemma calm_runnc:
  "\<exists>r. newRunncCont ''/b'' calm_config [(''IPAddress'', ''10.0.0.2''), (''Gateway'', ''10.0.0.1''), (''IPMask'', ''24''),
      (''Mac'', ''''), (''TapName'', ''tap0'')] [(''FsPath'', ''/r/c/rootfs.iso'')] = Ok r"
proof -
  have "Atoi ''24'' = Some 24" "HasSuffix ''app.nabla'' ''.nabla''" "int_text 24 = ''24''" by code_simp+
  then show ?thesis
    by (simp add: newRunncCont_def NewRunncCont_def calm_config_def option_of_def calm_addresses Let_def)
qed

subsection \<open>Creating and forwarding\<close>

definition calm_termlib :: "unit termlib" where
  "calm_termlib = \<lparr>tm_SetRawTerminal = \<lambda>_. ret 0, tm_RestoreTerminal = \<lambda>_ _. ret (), tm_GetWinsize = \<lambda>_. ret (25, 80),
     tm_SetWinsize = \<lambda>_ _. ret ()\<rparr>"

lemma calm_winsize: "winsize_calls calm_termlib"
  by (auto simp: winsize_calls_def calm_termlib_def returns_basic)

definition calm_spec :: Spec where
  "calm_spec = \<lparr>spec_Version = ''1.0.0'', spec_Process = Some \<lparr>sp_Terminal = False,
     sp_User = \<lparr>user_UID = 0, user_GID = 0, user_AdditionalGids = []\<rparr>, sp_Args = Some [''app.nabla''], sp_Env = [],
     sp_Cwd = ''/'', sp_NoNewPrivileges = True, sp_ApparmorProfile = '''', sp_OOMScoreAdj = None, sp_SelinuxLabel = ''''\<rparr>,
     spec_Root = Some ''rootfs'', spec_Mounts = [], spec_Hooks = None, spec_Annotations = [], spec_Linux = None\<rparr>"

definition spec_lib :: "unit runclib" where
  "spec_lib = calm_lib\<lparr>rl_DecodeSpec := \<lambda>_. Ok (Some calm_spec)\<rparr>"

definition create_ctx :: cliContext where
  "create_ctx = \<lparr>ctx_Args = [''0123456789ab''], ctx_Strings = [(''bundle'', ''/b'')], ctx_Bools = [],
     ctx_GlobalStrings = [(''root'', ''/r'')], ctx_GlobalBools = []\<rparr>"

definition bundle_world :: "unit world" where
  "bundle_world = calm_world [77] [([''b'', ''config.json''], file_inode ''{}'')]"

definition create_runner :: "string \<Rightarrow> runner" where
  "create_runner pidFile = \<lparr>rn_enableSubreaper = True, rn_shouldDestroy = True, rn_detach = False, rn_listenFDs = [],
     rn_pidFile = pidFile, rn_console = '''', rn_create = True\<rparr>"

subsection \<open>The init process\<close>

definition calm_initlib :: "unit initlib" where
  "calm_initlib = \<lparr>il_StateJSON = \<lambda>_ _ _. '''', il_GetFromPath = \<lambda>_. ret 3, il_New = ret 3, il_Set = \<lambda>_. ret ()\<rparr>"

lemma calm_netns: "netns_calls calm_initlib"
  by (simp add: netns_calls_def calm_initlib_def returns_basic preserves_ret)

lemma docker_returns: "netlink_returns docker_netlink"
  by (simp add: netlink_returns_def docker_netlink_def calm_netlink_def ret_def returns_def)

text \<open>A pause container with a hook.\<close>

definition hook_config :: Config where
  "hook_config = calm_config\<lparr>cfg_Args := [pauseNablaName], cfg_Hooks := Some \<lparr>hooks_Prestart = [\<lparr>hook_Path = ''/b/hook'',
     hook_Args = [], hook_Env = [], hook_Timeout = None\<rparr>], hooks_Poststart = [], hooks_Poststop = []\<rparr>\<rparr>"

definition hook_container :: nablaContainer where
  "hook_container = (calm_container Stopped 0)\<lparr>nc_config := hook_config\<rparr>"

definition hook_inherited :: inherited where
  "hook_inherited = \<lparr>in_Pid = 77, in_Files = [InitPipeChild, StateDir [''r'', ''0123456789ab'']],
     in_Read = \<lambda>_. print_json (enc_initConfig (init_config hook_container)) @ [CHR 0x0A]\<rparr>"

definition init_world :: "unit world" where
  "init_world = (calm_world [] created_files)\<lparr>w_env := (calm_env [])\<lparr>e_vars :=
     [(''_LIBCONTAINER_INITPIPE'', ''3''), (''_LIBCONTAINER_STATEDIR'', ''4'')]\<rparr>\<rparr>"

lemma hook_inherits: "inherits hook_container calm_process [''r'', ''0123456789ab''] hook_inherited init_world"
proof -
  let ?cmd = "add_state_dir [''r'', ''0123456789ab''] (commandTemplate hook_container calm_process)"
  have "map env_entry (cmd_Env ?cmd) = [(''_LIBCONTAINER_INITPIPE'', ''3''), (''_LIBCONTAINER_STATEDIR'', ''4'')]"
    by code_simp
  moreover have "cmd_ExtraFiles ?cmd = [InitPipeChild, StateDir [''r'', ''0123456789ab'']]"
    by code_simp
  ultimately show ?thesis
    by (simp add: inherits_def Let_def hook_inherited_def init_world_def calm_env_def)
qed

lemma hook_sendable: "sendable hook_container"
  by code_simp

lemma hook_pauses:
  "\<exists>w'. run_init calm_initlib hook_inherited (nablaLLCHandler docker_netlink) 4 (init_config hook_container)
    (cleared (init_world\<lparr>w_tick := Suc (w_tick init_world)\<rparr>)) = (Stop (Blocked ''select''), w')"
proof -
  have "fst (run_init calm_initlib hook_inherited (nablaLLCHandler docker_netlink) 4 (init_config hook_container)
    (cleared (init_world\<lparr>w_tick := Suc (w_tick init_world)\<rparr>))) = Stop (Blocked ''select'')"
    by code_simp
  then show ?thesis by (metis prod.collapse)
qed

subsection \<open>The life of a container\<close>

definition kept_world :: "string \<Rightarrow> unit world" where
  "kept_world t = calm_world [77] (created_files @ [([''r'', ''0123456789ab'', ''state.json''], file_inode t)])"

lemma kept_load:
  assumes "Option.bind (parse_json t) dec_State_ptr = Some (Some s)"
  shows "\<exists>k. getContainer create_ctx H (kept_world t) =
    (Ok \<lparr>nc_id = ''0123456789ab'', nc_root = ''/r/0123456789ab'', nc_config = st_Config s, nc_state = s\<rparr>, (kept_world t)\<lparr>w_tick := k\<rparr>)"
proof -
  let ?w = "\<lambda>k. (kept_world t)\<lparr>w_tick := k\<rparr>"
  have start: "kept_world t = ?w 0" by (simp add: kept_world_def calm_world_def)
  have env: "e_fault (w_env (kept_world t)) = (\<lambda>_ _. None)" "w_cwd (kept_world t) = ''/b''"
    by (simp_all add: kept_world_def calm_world_def calm_env_def)
  have files: "fs_get (kept_world t) [''r'', ''0123456789ab'', ''state.json''] = Some (file_inode t)"
    "fs_get (kept_world t) [''r''] = Some dir_inode" "fs_get (kept_world t) [] = Some dir_inode"
    by (simp_all add: kept_world_def calm_world_def created_files_def fs_get_def)
  have names: "Clean ''/r'' = ''/r''" "Join [''/r/0123456789ab'', stateFilename] = ''/r/0123456789ab/state.json''"
    "prefixes [''r''] = [[], [''r'']]" "resolve c ''/r'' = [''r'']" "IsAbs ''/r''"
    "resolve c ''/r/0123456789ab/state.json'' = [''r'', ''0123456789ab'', ''state.json'']" for c
    by code_simp+
  have dir: "os_MkdirAll ''/r'' m (?w k) = (Ok (), ?w (Suc k))" for m k
    by (simp add: os_MkdirAll_def at_path_def names syscall_def env Let_def mkdir_missing_def files dir_inode_def)
  have fac: "loadFactory create_ctx H (?w k) = (Ok \<lparr>fac_Root = ''/r'', fac_LLCHandler = H\<rparr>, ?w (Suc k))" for k
    by (simp add: loadFactory_def New_def create_ctx_def ctx_GlobalString_def filepath_Abs_def names dir)
  have read: "loadState ''/r/0123456789ab'' cid (?w k) = (Ok (Some s), ?w (Suc (Suc (Suc k))))" for cid k
    using assms by (simp add: loadState_def os_Open_run names env files deferred_def file_ReadAll_def syscall_def Let_def
      file_inode_def decode_state_def file_Close_def map_err_run ignore_def try_io_def seq_def ret_def)
  have "Args_Get create_ctx 0 = ''0123456789ab''" by code_simp
  then show ?thesis
    by (subst start) (auto simp: getContainer_def fac Load_def Let_def calm_paths read)
qed

text \<open>A container that was created and waits.\<close>

definition live_world :: "unit world" where
  "live_world = kept_world (print_json (enc_State (calm_state Created 77)))"

lemma live_parse: "Option.bind (parse_json (print_json (enc_State (calm_state Created 77)))) dec_State_ptr = Some (Some (calm_state Created 77))"
  using State_text [OF calm_state_ok, of "''''"] by (simp add: stops_def)

lemma live_life: "life ''/r'' ''0123456789ab'' live_world = Present Created 77"
proof -
  have "state_path ''/r'' ''0123456789ab'' = [''r'', ''0123456789ab'', ''state.json'']" by code_simp
  then have "fs_get live_world (state_path ''/r'' ''0123456789ab'') = Some (file_inode (print_json (enc_State (calm_state Created 77))))"
    by (simp add: live_world_def kept_world_def calm_world_def created_files_def fs_get_def)
  moreover have "st_Status (calm_state Created 77) = Created" "st_InitProcessPid (calm_state Created 77) = 77"
    by (simp_all add: calm_state_def)
  ultimately show ?thesis by (simp add: life_def life_of_def file_inode_def life_text_def live_parse)
qed

lemma live_kill:
  "\<exists>w'. perform CmdKill create_ctx calm_lib H live_world = (Ok (), w') \<and> w_log w' = [Signalled 77 15]"
proof -
  obtain k where found: "getContainer create_ctx H live_world =
      (Ok \<lparr>nc_id = ''0123456789ab'', nc_root = ''/r/0123456789ab'', nc_config = st_Config (calm_state Created 77),
        nc_state = calm_state Created 77\<rparr>, live_world\<lparr>w_tick := k\<rparr>)"
    using kept_load [OF live_parse] unfolding live_world_def by blast
  have env: "e_fault (w_env live_world) = (\<lambda>_ _. None)" "e_alive (w_env live_world) = (\<lambda>_ pid. pid = 77)" "w_log live_world = []"
    by (simp_all add: live_world_def kept_world_def calm_world_def calm_env_def)
  have ctx: "Args_Get create_ctx (Suc 0) = ''''" "ctx_Bool create_ctx ''all'' = False" "st_InitProcessPid (calm_state Created 77) = 77"
    by (simp_all add: Args_Get_def create_ctx_def ctx_Bool_def calm_state_def)
  have "(''TERM'', 15) \<in> set signalMap" by (simp add: signalMap_def)
  moreover have "ToUpper ''SIGTERM'' = ''SIG'' @ ''TERM''" by code_simp
  ultimately have sig: "parseSignal ''SIGTERM'' = Ok 15" by (intro parse_names) blast+
  show ?thesis
    by (simp add: kill_action_def found ctx sig Let_def container_Signal_def sys_Kill_def syscall_def env with_container_def)
qed

lemma live_log: "w_log live_world = []"
  by (simp add: live_world_def kept_world_def calm_world_def)

lemma live_place: "place_ok ''/r'' ''0123456789ab''" "ctx_names create_ctx ''/r'' ''0123456789ab''"
  by code_simp+

lemma calm_clock: "int64_ok (e_spawn (calm_env al) t)" "rfc3339_ok (e_now (calm_env al) t)"
  by (simp add: calm_env_def int64_ok_def) (simp add: calm_env_def, code_simp)

subsection \<open>Flags\<close>

text \<open>A specification whose process asks for a terminal, and a context that names a log.\<close>

definition tty_spec :: Spec where
  "tty_spec = calm_spec\<lparr>spec_Process := map_option (\<lambda>p. p\<lparr>sp_Terminal := True\<rparr>) (spec_Process calm_spec)\<rparr>"

definition log_ctx :: cliContext where
  "log_ctx = create_ctx\<lparr>ctx_GlobalStrings := [(''root'', ''/r''), (''log'', ''log''), (''log-format'', ''json'')]\<rparr>"

subsection \<open>A container can be created\<close>

definition root_spec :: Spec where
  "root_spec = calm_spec\<lparr>spec_Root := Some ''/b''\<rparr>"

lemma calm_created:
  "\<exists>c w. createContainer create_ctx (nablaLLCHandler calm_netlink) ''0123456789ab'' root_spec bundle_world = (Ok c, w)
    \<and> nc_root c = ''/r/0123456789ab'' \<and> cfg_Rootfs (nc_config c) = ''/b''
    \<and> Suc (length (print_json (enc_initConfig (init_config c)))) \<le> 4096
    \<and> fs_get w [''r'', ''0123456789ab''] \<noteq> None \<and> is_dir w [''b''] \<and> outside w = outside bundle_world"
proof -
  let ?run = "createContainer create_ctx (nablaLLCHandler calm_netlink) ''0123456789ab'' root_spec bundle_world"
  have "case fst ?run of Ok c \<Rightarrow> nc_root c = ''/r/0123456789ab'' \<and> cfg_Rootfs (nc_config c) = ''/b''
      \<and> Suc (length (print_json (enc_initConfig (init_config c)))) \<le> 4096 | _ \<Rightarrow> False"
    by code_simp
  moreover have "fs_get (snd ?run) [''r'', ''0123456789ab''] \<noteq> None \<and> is_dir (snd ?run) [''b'']"
    by code_simp
  moreover obtain r w where run: "?run = (r, w)" by (meson surj_pair)
  moreover have "outside w = outside bundle_world"
    by (rule preservesD [OF runnc.createContainer_outside run refl])
  ultimately show ?thesis by (cases r) auto
qed

lemma root_config:
  obtains config where "ParseSpec (Some root_spec) = Ok config" "Config_ok config" "cfg_Rootfs config = ''/b''"
proof -
  have "case ParseSpec (Some root_spec) of Ok c \<Rightarrow> Config_ok c \<and> cfg_Rootfs c = ''/b'' | _ \<Rightarrow> False"
    by code_simp
  then show thesis by (cases "ParseSpec (Some root_spec)") (auto intro: that)
qed

lemma spec_lib_ok: "WriteJSON_encodes spec_lib" "StartTime_reads spec_lib" "Subreaper_quiet spec_lib"
  using calm_lib_encodes
  by (simp_all add: WriteJSON_encodes_def StartTime_reads_def Subreaper_quiet_def spec_lib_def calm_lib_def)

lemma calm_run:
  "\<exists>w'. startContainer create_ctx spec_lib (nablaLLCHandler calm_netlink) calm_termlib [] root_spec True bundle_world = (Ok 0, w')"
proof -
  obtain c w where create: "createContainer create_ctx (nablaLLCHandler calm_netlink) ''0123456789ab'' root_spec bundle_world = (Ok c, w)"
    and c: "nc_root c = ''/r/0123456789ab''" "cfg_Rootfs (nc_config c) = ''/b''"
      "Suc (length (print_json (enc_initConfig (init_config c)))) \<le> 4096"
    and w: "fs_get w [''r'', ''0123456789ab''] \<noteq> None" "is_dir w [''b'']" "outside w = outside bundle_world"
    using calm_created by blast
  have env: "w_env w = calm_env [77]" "w_cwd w = ''/b''"
    using w(3) by (simp_all add: outside_def bundle_world_def calm_world_def)
  have calm: "e_fault (w_env w) = (\<lambda>_ _. None)" "e_sockbuf (w_env w) = 4096" "rl_GetProcessStartTime spec_lib pid = ret ''42''"
    "rl_SetSubreaper spec_lib = ret ()" for pid
    by (simp_all add: env calm_env_def spec_lib_def calm_lib_def)
  have ctx: "Args_Get create_ctx 0 = ''0123456789ab''" "ctx_String create_ctx ''pid-file'' = ''''" "ctx_String create_ctx ''console'' = ''''"
    "\<not> ctx_Bool create_ctx ''detach''"
    by (simp_all add: Args_Get_def ctx_String_def ctx_Bool_def create_ctx_def)
  obtain sp where sp: "spec_Process root_spec = Some sp" "\<not> sp_Terminal sp" "sp_OOMScoreAdj sp = None"
    by (simp add: root_spec_def calm_spec_def)
  let ?w = "\<lambda>k. w\<lparr>w_tick := k\<rparr>"
  let ?p = "(newProcess sp)\<lparr>p_Stdin := Some (StdFile 0), p_Stdout := Some (StdFile 1), p_Stderr := Some (StdFile 2)\<rparr>"
  have io: "setupIO calm_termlib (newProcess sp) 0 0 '''' False True w = (Ok (?p, no_tty), ?w (Suc (Suc (Suc (w_tick w)))))"
    by (simp add: setupIO_def dupStdio_def sys_Fchown_def syscall_def calm)
  obtain n where n: "fs_get w [''r'', ''0123456789ab''] = Some n" using w(1) by blast
  have here: "is_dir (?w k) q = is_dir w q" for k q by (simp add: is_dir_def)
  obtain pid s where st: "start spec_lib ?p (c, ?w (Suc (Suc (Suc (w_tick w))))) = (Ok (?p\<lparr>p_ops := Some pid\<rparr>), s)"
    using start_succeeds [of "?w (Suc (Suc (Suc (w_tick w))))" spec_lib c n ?p] n w(2) c calm env
    by (auto simp: calm_paths here)
  let ?r = "\<lparr>rn_enableSubreaper = \<not> ctx_Bool create_ctx ''no-subreaper'', rn_shouldDestroy = True,
    rn_detach = ctx_Bool create_ctx ''detach'', rn_listenFDs = [], rn_pidFile = ctx_String create_ctx ''pid-file'',
    rn_console = ctx_String create_ctx ''console'', rn_create = True\<rparr>"
  have close: "tty_ClosePostStart no_tty = ret ()" "tty_Close calm_termlib no_tty = ret ()"
    by (auto simp: tty_ClosePostStart_def tty_Close_def close_all_def no_tty_def ret_def seq_def try_io_def)
  have after: "after_start spec_lib H calm_termlib \<lparr>rn_enableSubreaper = b, rn_shouldDestroy = True, rn_detach = False,
      rn_listenFDs = [], rn_pidFile = [], rn_console = [], rn_create = True\<rparr> no_tty []
      (?p\<lparr>p_ops := Some pid\<rparr>) s = (Ok 0, s)" for H b s
    by (cases s) (simp add: after_start_def close or_kill_def seq_def try_io_def newProcess_def sp ret_def)
  have "run spec_lib (nablaLLCHandler calm_netlink) calm_termlib ?r [] sp (c, w) = (Ok 0, s)"
    by (cases s) (simp add: run_def Let_def HostUID_def HostGID_def or_destroy_def listen_files_def ctx sp io newSignalHandler_def
      calm ignore_def st [simplified] after [simplified] deferred_def close seq_def try_io_def ret_def)
  then show ?thesis
    using create ctx sp by (cases s) (simp add: startContainer_def Let_def with_container_def)
qed

subsection \<open>Pipes that are copied\<close>

lemma calm_pipes:
  obtains p' t w' where "createStdioPipes calm_process 0 0 (calm_world [] []) = (Ok (p', t), w')"
    "stdio_pipes p' t (w_fds w') = stdio_pipes (calm_process\<lparr>p_Stdout := Some (PipeEnd 6), p_Stderr := Some (PipeEnd 8)\<rparr>)
       (no_tty\<lparr>tty_closers := [4, 5, 7], tty_postStart := [3, 6, 8]\<rparr>) [3, 4, 5, 6, 7, 8]"
proof -
  have made: "case createStdioPipes calm_process 0 0 (calm_world [] []) of (Ok (p', t), w') \<Rightarrow>
      t = no_tty\<lparr>tty_closers := [4, 5, 7], tty_postStart := [3, 6, 8]\<rparr> \<and> p_Stdout p' = Some (PipeEnd 6)
      \<and> p_Stderr p' = Some (PipeEnd 8) \<and> w_fds w' = [3, 4, 5, 6, 7, 8] | _ \<Rightarrow> False" by code_simp
  obtain r w' where run: "createStdioPipes calm_process 0 0 (calm_world [] []) = (r, w')" by (meson surj_pair)
  with made obtain p' t where "r = Ok (p', t)" by (cases r) auto
  with made run show thesis by (intro that [of p' t w']) (simp_all add: stdio_pipes_def fun_eq_iff split: stream.split)
qed

text \<open>A run in which the container writes, ends, and is copied to the end.\<close>

definition calm_run_events :: "copy_event list" where
  "calm_run_events = [Spawns, Child_writes Stdout ''hi'', Posts, Child_closes Stdout, Child_closes Stderr, Closes,
     Copies Stdout 2, Copies Stdout 1, Copies Stdout 1, Copies Stdout 1, Copies Stdout 1, Copies Stderr 1,
     Copies Stderr 1, Copies Stderr 1, Closed]"

lemma calm_pipes_run:
  "case run_events stdio_step calm_run_events (stdio_pipes (calm_process\<lparr>p_Stdout := Some (PipeEnd 6), p_Stderr := Some (PipeEnd 8)\<rparr>)
       (no_tty\<lparr>tty_closers := [4, 5, 7], tty_postStart := [3, 6, 8]\<rparr>) [3, 4, 5, 6, 7, 8]) of
     Some c \<Rightarrow> so_stage c = TtyClosed | None \<Rightarrow> False"
  by code_simp

lemma calm_pipes_half:
  "case run_events stdio_step (take 5 calm_run_events) (stdio_pipes (calm_process\<lparr>p_Stdout := Some (PipeEnd 6), p_Stderr := Some (PipeEnd 8)\<rparr>)
       (no_tty\<lparr>tty_closers := [4, 5, 7], tty_postStart := [3, 6, 8]\<rparr>) [3, 4, 5, 6, 7, 8]) of
     Some c \<Rightarrow> \<not> so_child c Stdout \<and> \<not> so_child c Stderr \<and>
       (case run_events stdio_step [Closes, Copies Stdout 2] c of Some d \<Rightarrow> True | None \<Rightarrow> False)
   | None \<Rightarrow> False"
  by code_simp

subsection \<open>Commands that succeed\<close>

text \<open>The kept container's machine refuses nothing, and its process waits at the FIFO.\<close>

lemma kept_refuses_nothing: "refuses_nothing (kept_world t)"
  by (auto simp: refuses_nothing_def kept_world_def calm_world_def calm_env_def fs_wf_def fs_get_def is_dir_def dir_inode_def
    created_files_def file_inode_def split: if_splits)

lemma live_fifo:
  "fs_get live_world (fifo_path ''/r'' ''0123456789ab'') = Some \<lparr>i_kind = KFifo, i_mode = octal3 6 2 2, i_uid = 0, i_gid = 0\<rparr>"
proof -
  have "fifo_path ''/r'' ''0123456789ab'' = [''r'', ''0123456789ab'', ''exec.fifo'']" by code_simp
  then show ?thesis by (simp add: live_world_def kept_world_def calm_world_def created_files_def fs_get_def)
qed

lemma live_env: "w_env live_world = calm_env [77]"
  by (simp add: live_world_def kept_world_def calm_world_def)

text \<open>The same container, whose process ends soon.\<close>

definition ending_world :: "unit world" where
  "ending_world = live_world\<lparr>w_env := (calm_env [77])\<lparr>e_alive := \<lambda>t pid. t < 50\<rparr>\<rparr>"

lemma ending_facts:
  "life ''/r'' ''0123456789ab'' ending_world = Present Created 77" "refuses_nothing ending_world"
  "e_alive (w_env ending_world) t pid = (t < 50)" "w_tick ending_world = 0"
proof -
  show "life ''/r'' ''0123456789ab'' ending_world = Present Created 77"
    using live_life by (simp add: ending_world_def life_def fs_get_def)
  have "fs_wf ending_world = fs_wf live_world" by (simp add: ending_world_def fs_wf_def is_dir_def fs_get_def)
  then show "refuses_nothing ending_world"
    using kept_refuses_nothing by (simp add: refuses_nothing_def ending_world_def live_world_def calm_env_def)
  show "e_alive (w_env ending_world) t pid = (t < 50)" "w_tick ending_world = 0"
    by (simp_all add: ending_world_def live_world_def kept_world_def calm_world_def)
qed

lemma calm_link_del: "link_del_returns calm_netlink"
  by (simp add: link_del_returns_def calm_netlink_def returns_basic)

subsection \<open>A whole life\<close>

definition force_ctx :: cliContext where
  "force_ctx = create_ctx\<lparr>ctx_Bools := [(''force'', True)]\<rparr>"

lemma force_names: "ctx_names force_ctx ''/r'' ''0123456789ab''" "ctx_Bool force_ctx ''force''"
  using live_place(2) by (simp_all add: force_ctx_def ctx_names_def ctx_GlobalString_def Args_Get_def ctx_Bool_def create_ctx_def)

lemma bundle_refuses_nothing: "refuses_nothing bundle_world"
  by (auto simp: refuses_nothing_def bundle_world_def calm_world_def calm_env_def fs_wf_def fs_get_def is_dir_def dir_inode_def
    file_inode_def split: if_splits)

lemma calm_handover:
  assumes "refuses_nothing w"
  shows "hands_over root cid w (w\<lparr>w_env := calm_env ps\<rparr>)"
  using assms by (simp add: hands_over_def refuses_nothing_def calm_env_def fs_wf_def is_dir_def fs_get_def)

lemma calm_waits:
  "waits_at F 77 (w\<lparr>w_env := calm_env [77]\<rparr>)" "gone_by n pid (w\<lparr>w_env := calm_env []\<rparr>)"
  by (simp_all add: waits_at_def gone_by_def calm_env_def)

end
