(* ===== verification/Spec2Isabelle.thy ===== *)
theory Spec2Isabelle
  imports Examples
begin

text \<open>
  A verification development for \<open>runnc\<close>, the OCI runtime of Nabla containers.

  The program. \<open>runnc.go\<close> chooses three low level handlers (\<open>llmodules/fs\<close>, \<open>llmodules/network\<close>,
  \<open>llruntimes/nabla\<close>) behind the interfaces of \<open>llif\<close> and starts the command line of \<open>llcli\<close>. A
  command loads or creates a container with the factory of \<open>libcontainer/factory_nabla.go\<close> and calls
  the methods of \<open>libcontainer/container_nabla.go\<close>; these call the handlers and keep the container's
  state in \<open><root>/<id>/state.json\<close>. \<open>create\<close> starts a copy of the program (\<open>init\<close>), which waits at
  the container's FIFO until \<open>start\<close> opens its other end and then executes \<open>nabla-run\<close>.

  The theories.
  \<^item> \<open>Prelude\<close>: Go's errors and results, the error-propagating state passing, and two calculi:
    \<open>preserves P m\<close> (an operation keeps a predicate) and \<open>ensures\<close> (what holds after each kind of
    result). A call returns a value, returns an error, or does not return (\<open>Stop\<close>: a panic, an exit, a
    block, an \<open>execve\<close>); every error branch of the source is a branch of its definition.
  \<^item> \<open>Paths\<close>, \<open>World\<close>, \<open>WorldFacts\<close>: what the program uses of \<open>path/filepath\<close>, \<open>strconv\<close>, \<open>os\<close>,
    \<open>os/exec\<close>, \<open>syscall\<close> and \<open>time\<close>: a file tree, a umask, a working directory, the open descriptors
    of pipes and terminals, the children that ended, the log of signals, of processes started and
    reaped and of FIFOs opened, and an environment of oracles, read at a clock each call advances, that decides
    which calls are refused, which processes are alive, and what a FIFO delivers. A property therefore
    holds for every such behaviour of the machine.
  \<^item> \<open>Errors\<close>, \<open>ErrorText\<close>, \<open>Config\<close>, \<open>Llif\<close>: \<open>errors.go\<close>, \<open>generic_error.go\<close>, \<open>configs\<close> and \<open>llif\<close>.
    The error values that operations return have no print form; \<open>ErrorText\<close> adds it and shows that the
    constructors agree. The interfaces of \<open>llif\<close> are records of functions; what \<open>libcontainer\<close> relies on of them is stated as
    the locales \<open>fs_handler\<close>, \<open>network_handler\<close>, \<open>exec_handler\<close> and \<open>runllc\<close>.
  \<^item> \<open>CopyFiles\<close>, \<open>IsoFs\<close>: \<open>utils\<close>, \<open>nabla-lib/storage\<close> and \<open>llmodules/fs\<close>, interpreted as
    \<open>fs_handler\<close>. \<open>GoNet\<close>, \<open>Netlib\<close>, \<open>TapBridge\<close>: Go's \<open>net\<close>, \<open>nabla-lib/network\<close> and
    \<open>llmodules/network\<close>, interpreted as \<open>network_handler\<close>; the netlink package is a parameter.
  \<^item> \<open>Json\<close>, \<open>State\<close>: \<open>encoding/json\<close>, and the records written with it.
  \<^item> \<open>Container\<close>, \<open>ContainerFacts\<close>: \<open>container_nabla.go\<close>; its methods act on the pair of the object
    and the machine. \<open>Factory\<close>, \<open>FactoryFacts\<close>: \<open>factory_nabla.go\<close>. \<open>TypedState\<close>: which states can be
    written to \<open>state.json\<close> and read back, and that every operation keeps its container one of them.
    \<open>Api\<close>: the interfaces of \<open>container.go\<close>, \<open>factory.go\<close> and \<open>stats.go\<close> with the container's mutex, and
    the locale \<open>monitor\<close>, by which calls made one after the other give what the operations below it give.
  \<^item> \<open>RunncCont\<close>, \<open>Runtime\<close>: \<open>llruntimes/nabla\<close> and \<open>runnc.go\<close>, with the interpretation of \<open>runllc\<close>
    on the program's own handlers, on which the properties of creation and destruction rest.
  \<^item> \<open>Commands\<close>: \<open>kill\<close>, \<open>delete\<close>, \<open>start\<close> and \<open>state\<close> of \<open>llcli\<close>. \<open>CommandLine\<close>: \<open>llcli.go\<close>, \<open>exec.go\<close>, the
    declarations of the commands and \<open>main\<close>; the package that parses the command line is a parameter.
  \<^item> \<open>Lifecycle\<close>, \<open>Creation\<close>, \<open>Progress\<close>, \<open>Composition\<close>: the abstract machine \<open>lifecycle\<close> of a container, as its state file shows it
    (absent, unreadable, or present with a status and a process), and the proof that the commands refine
    it: each is a process of its own, that meets the others in the file system only, and anything may
    happen to the rest of the machine between them (\<open>history\<close>). \<open>Creation\<close> shows how \<open>create\<close> begins a life,
    \<open>Progress\<close> that \<open>start\<close> and \<open>delete\<close> reach their end on a machine that refuses nothing, and
    \<open>Composition\<close> that what \<open>create\<close> leaves in the container's directory is what \<open>start\<close> needs, and what
    \<open>start\<close> leaves there can be deleted, whatever other programs do elsewhere in between.
  \<^item> \<open>Terminal\<close>: the pipes and consoles of \<open>process_nabla.go\<close> and \<open>console_nabla.go\<close> and the \<open>tty\<close> of
    \<open>util_tty.go\<close>. \<open>Streams\<close>: the goroutines that copy bytes between the caller's files and the pipes, as a
    guarded event system in which they, the runner, the container and the caller are interleaved in any
    order, and the locale \<open>finishing\<close>, by which closing the terminal comes to an end. \<open>Signals\<close>: \<open>util_signal.go\<close>, whose loop reads the delivered signals from a list; with
    each signal come the children that ended before it.
  \<^item> \<open>Runner\<close>, \<open>RunnerFacts\<close>: the \<open>create\<close> command (\<open>create.go\<close>, \<open>util.go\<close>, \<open>util_nabla.go\<close>,
    \<open>util_runner.go\<close>), from the specification to the started process and its pid file.
  \<^item> \<open>Init\<close>, \<open>InitFacts\<close>: the init process (\<open>init_nabla.go\<close>, \<open>hooks.go\<close>, \<open>llcli/init.go\<close>): it inherits files
    and variables, decodes the configuration \<open>start\<close> sent, runs the hooks, sets up the network, waits
    at the FIFO and becomes the unikernel.
  \<^item> \<open>Examples\<close>: a concrete machine on which the properties are applied.

  The properties below are about the life of a container over any sequence of commands, creation (which files it may touch, that it takes over nothing, what
  the new container is, which processes it starts and kills), the init process (what it receives, the
  order of its steps), loading and the state file, destruction, the decisions of the commands and the
  processes they signal and start, the forwarding of signals, the copying of the container's output, the pid file, the derived configuration,
  the network devices, and the arguments of \<open>nabla-run\<close>.

  Bounds. \<open>dcopy\<close> has 4096 levels, the kernel's limit on a path, each level making the path longer;
  the JSON reader has as many steps as its input has characters, each step reading a shorter text. The
  reaper needs no bound: every turn takes one child off the list of those that ended. The loop that
  forwards signals recurs on the list of delivered signals and waits for ever at its end, as the channel
  is never closed; \<open>forward_ends\<close> shows when it returns.

  Not modelled: runc's helper packages, netlink, netns, docker's terminal package, the command line
  package and the decoding of \<open>config.json\<close> into \<open>specs-go\<close>'s types (parameters), what is logged, symbolic and hard
  links, and the replacement of invalid UTF-8 in JSON strings. Commands on one container that run at the
  same time are not interleaved: a history runs one after the other.
\<close>

subsection \<open>Creation\<close>





text \<open>
  C17: creation never takes over an existing entry: when something of the container's name is there,
  it fails and the machine is as it was, but for the clock.
\<close>

theorem create_never_reuses:
  assumes "IsAbs (fac_Root l)" and "fs_get w (resolve (w_cwd w) (Join [fac_Root l, cid])) = Some n"
  shows "\<exists>e t. Create l cid config w = (Err e, w\<lparr>w_tick := t\<rparr>)"
  by (rule Create_existing) (rule assms)+

theorem create_never_reuses_witness:
  "\<exists>e t. Create calm_factory ''0123456789ab'' calm_config
      (calm_world [] [([''r'', ''0123456789ab''], file_inode ''x'')])
    = (Err e, (calm_world [] [([''r'', ''0123456789ab''], file_inode ''x'')])\<lparr>w_tick := t\<rparr>)"
  by (rule create_never_reuses [where n = "file_inode ''x''"])
    (simp_all add: calm_factory_def calm_paths calm_world_def fs_get_def)

text \<open>
  The container's FIFO is made with the mode 0622 whatever the umask, and belongs to the
  container's root user; the caller's umask is restored.
\<close>

lemma create_root_fifo:
  assumes "create_root cid r u g w = (Ok (), w')"
  shows "(\<exists>n. fs_get w' (resolve (w_cwd w) (Join [r, execFifoFilename])) = Some n \<and> i_kind n = KFifo
      \<and> i_mode n = octal3 6 2 2 \<and> i_uid n = u \<and> i_gid n = g) \<and> w_umask w' = w_umask w"
  using create_root_Ok [OF assms] preservesD [OF create_root_pres(2) assms refl]
  by (simp add: outside_def)



text \<open>
  C23: an accepted id other than \<open>.\<close> and \<open>..\<close> names a direct child of the factory's root: no id
  escapes it or reaches into another container's directory.
\<close>

theorem valid_id_is_child:
  assumes "validateID cid = Ok ()" and "cid \<noteq> ''.''" and "cid \<noteq> ''..''" and "IsAbs root"
  shows "resolve c (Join [root, cid]) = resolve c root @ [cid]"
  by (rule resolve_Join_plain [OF assms(4) valid_plain [OF assms(1-3)]])

theorem valid_id_is_child_witness:
  "resolve ''/'' (Join [''/r'', ''a..b'']) = resolve ''/'' ''/r'' @ [''a..b'']"
  by (rule valid_id_is_child) code_simp+



subsection \<open>Destruction\<close>

text \<open>
  C15: when \<open>destroy\<close> succeeds, nothing is left of the container's directory.
\<close>

theorem destroy_leaves_nothing:
  assumes "destroy (nablaLLCHandler nl) (c, w) = (Ok (), (c', w'))" and "IsAbs (nc_root c)"
    and "under (w_cwd w) (nc_root c) p" and "\<not> dev_net p"
  shows "fs_get w' p = None"
  by (rule runnc.destroy_removes) (rule assms)+

theorem destroy_leaves_nothing_witness:
  "\<exists>c' w'. destroy (nablaLLCHandler calm_netlink) (calm_container Stopped 0, calm_world [] created_files)
      = (Ok (), (c', w')) \<and> fs_get w' [''r'', ''0123456789ab'', ''exec.fifo''] = None"
proof -
  have "case fst (destroy (nablaLLCHandler calm_netlink) (calm_container Stopped 0, calm_world [] created_files)) of
      Ok _ \<Rightarrow> True | _ \<Rightarrow> False"
    by code_simp
  then obtain c' w' where run: "destroy (nablaLLCHandler calm_netlink)
      (calm_container Stopped 0, calm_world [] created_files) = (Ok (), (c', w'))"
    by (cases "destroy (nablaLLCHandler calm_netlink) (calm_container Stopped 0, calm_world [] created_files)")
      (auto split: res.splits)
  have "IsAbs (nc_root (calm_container Stopped 0))" by code_simp
  moreover have "under (w_cwd (calm_world [] created_files)) (nc_root (calm_container Stopped 0))
      [''r'', ''0123456789ab'', ''exec.fifo'']" by code_simp
  moreover have "\<not> dev_net [''r'', ''0123456789ab'', ''exec.fifo'']" by code_simp
  ultimately show ?thesis using destroy_leaves_nothing [OF run] run by blast
qed

text \<open>
  C16: whatever it returns, \<open>destroy\<close> changes no file outside the container's directory and
  \<open>/dev/net\<close>, sends no signal, starts no process, and keeps the umask and the working directory.
\<close>

theorem destroy_writes_region:
  assumes "destroy (nablaLLCHandler nl) (c, w) = (r, (c', w'))"
  shows "outside w' = outside w \<and>
    (\<forall>p. \<not> under (w_cwd w) (nc_root c) p \<longrightarrow> \<not> dev_net p \<longrightarrow> fs_get w' p = fs_get w p)"
  using runnc.destroy_outside [OF assms] runnc.destroy_region [OF assms] by blast

theorem destroy_writes_region_witness:
  "\<exists>r c' w'. destroy (nablaLLCHandler calm_netlink) (calm_container Stopped 0, calm_world [] created_files)
      = (r, (c', w')) \<and> outside w' = outside (calm_world [] created_files)"
proof -
  obtain r c' w' where run: "destroy (nablaLLCHandler calm_netlink)
      (calm_container Stopped 0, calm_world [] created_files) = (r, (c', w'))"
    by (metis surj_pair)
  from destroy_writes_region [OF run] run show ?thesis by blast
qed

subsection \<open>The life of a container\<close>

text \<open>
  C19: \<open>delete\<close> kills with at most one signal, \<open>SIGKILL\<close> to the process the container recorded; no
  other process is signalled and none is started.
\<close>

theorem kill_signals_once:
  assumes "killContainer (nablaLLCHandler nl) (c, w) = (r, (c', w'))"
  shows "w_log w' = w_log w \<or> w_log w' = w_log w @ [Signalled (st_InitProcessPid (nc_state c)) SIGKILL]"
  by (rule runnc.killContainer_log [OF assms])

theorem kill_signals_once_witness:
  "\<exists>r c' w'. killContainer (nablaLLCHandler calm_netlink) (calm_container Created 77, calm_world [77] created_files)
      = (r, (c', w')) \<and> (w_log w' = [] \<or> w_log w' = [Signalled 77 SIGKILL])"
proof -
  obtain r c' w' where run: "killContainer (nablaLLCHandler calm_netlink)
      (calm_container Created 77, calm_world [77] created_files) = (r, (c', w'))"
    by (metis surj_pair)
  from kill_signals_once [OF run] run show ?thesis
    by (auto simp: calm_world_def calm_container_def calm_state_def)
qed

text \<open>
  C20: after the kill, \<open>delete\<close> probes the process at most 100 times, one tenth of a second apart:
  when every probe is answered it gives up with an error and has changed nothing but the clock;
  otherwise it destroys the container at the first probe that is not answered.
\<close>

theorem kill_waits:
  assumes "sys_Kill (st_InitProcessPid (nc_state c)) SIGKILL w = (x, w1)"
  shows "if \<forall>k<100. answers_at (st_InitProcessPid (nc_state c)) w1 (w_tick w1 + 2 * k + 1)
   then killContainer H (c, w) = (Err (Msg ''container init still running''), (c, w1\<lparr>w_tick := w_tick w1 + 200\<rparr>))
   else \<exists>k<100. \<not> answers_at (st_InitProcessPid (nc_state c)) w1 (w_tick w1 + 2 * k + 1)
     \<and> (\<forall>j<k. answers_at (st_InitProcessPid (nc_state c)) w1 (w_tick w1 + 2 * j + 1))
     \<and> killContainer H (c, w) = destroy_logged H (c, w1\<lparr>w_tick := w_tick w1 + 2 * k + 2\<rparr>)"
proof -
  have "x \<noteq> Stop y" for y using assms returns_os(6) unfolding returns_def by (metis fst_conv)
  then consider "x = Ok ()" | e where "x = Err e" by (cases x) auto
  then have "killContainer H (c, w) = await_exit H 100 (c, w1)"
    by cases (use assms in \<open>simp_all add: killContainer_def container_Signal_def ignore_def\<close>)
  moreover have "2 * (100 :: nat) = 200" by simp
  ultimately show ?thesis using await_exit_cases [of 100 c w1 H] by (simp only:)
qed

theorem kill_waits_witness:
  "\<exists>w'. killContainer (nablaLLCHandler calm_netlink) (calm_container Created 77, calm_world [77] created_files)
    = (Err (Msg ''container init still running''), (calm_container Created 77, w')) \<and> w_tick w' = 201"
proof -
  let ?c = "calm_container Created 77" and ?w = "calm_world [77] created_files"
  let ?w1 = "?w\<lparr>w_tick := 1, w_log := [Signalled 77 SIGKILL]\<rparr>"
  have pid: "st_InitProcessPid (nc_state ?c) = 77" by (simp add: calm_container_def calm_state_def)
  have "sys_Kill (st_InitProcessPid (nc_state ?c)) SIGKILL ?w = (Ok (), ?w1)"
    by (simp add: pid sys_Kill_def syscall_def calm_world_def calm_env_def SIGKILL_def)
  note wait = kill_waits [OF this, where H = "nablaLLCHandler calm_netlink"]
  have "answers_at (st_InitProcessPid (nc_state ?c)) ?w1 t" for t
    by (simp add: pid answers_at_def sys_Kill_def syscall_def calm_world_def calm_env_def)
  with wait show ?thesis by simp
qed

text \<open>
  \<open>delete\<close> decides by what it finds: it destroys a container whose process does not answer or
  that is stopped, kills one that was created, kills a running one only when forced, and otherwise
  refuses and leaves it alone.
\<close>

lemma delete_decides:
  "delete_found R H cid force (c, w) =
    (if \<not> answers c w then destroy_logged H (set_status Stopped c, saved_stopped R c w)
     else if st_Status (nc_state c) = Stopped then destroy_logged H (c, probed c w)
     else if st_Status (nc_state c) = Created \<or> force then killContainer H (c, probed c w)
     else (Err (Msg (''cannot delete container '' @ cid @ '' that is not stopped: '' @
            Status_String (st_Status (nc_state c)) @ [CHR 0x0A])), (c, probed c w)))"
  by (rule delete_found_cases)

text \<open>
  \<open>start\<close> opens the FIFO of a container only when its process answers and its status is
  \<open>created\<close>; in every other case it returns the error of that status and the files are unchanged,
  except for the state file of a container found dead.
\<close>

lemma start_decides:
  "start_found R (c, w) =
    (if \<not> answers c w then (Err (Msg ''cannot start a container that has stopped''),
       (set_status Stopped c, saved_stopped R c w))
     else if st_Status (nc_state c) = Created then exec R (c, probed c w)
     else (Err (case st_Status (nc_state c) of
         Stopped \<Rightarrow> Msg ''cannot start a container that has stopped''
       | Running \<Rightarrow> Msg ''cannot start an already running container''
       | s \<Rightarrow> Msg (''cannot start a container in the '' @ Status_String s @ '' state'' @ [CHR 0x0A])), (c, probed c w)))
   \<and> w_fs (probed c w) = w_fs w"
proof -
  obtain t where "probed c w = w\<lparr>w_tick := t\<rparr>" using probed_clock by blast
  then have "w_fs (probed c w) = w_fs w" by simp
  with start_found_cases [of R c w] show ?thesis by blast
qed

text \<open>
  The status reported for a container whose process does not answer is \<open>stopped\<close>, whatever the
  state file said, and the object records it; the status of one that answers is the recorded one.
\<close>

lemma status_of_dead:
  "fst (currentStatus R (c, w)) = Ok (if answers c w then st_Status (nc_state c) else Stopped) \<and>
   fst (snd (currentStatus R (c, w))) = (if answers c w then c else set_status Stopped c)"
  by (simp add: currentStatus_run)

text \<open>
  Starting a container's process: when \<open>start\<close> succeeds, exactly one process was started, it is
  this program's \<open>init\<close>, and the object records its id and the status \<open>created\<close>; when it fails or
  blocks, either none was started and the object is unchanged, or that one was and is recorded.
\<close>

lemma start_spawns_one:
  assumes "StartTime_reads R" and "start R p (c, w) = (r, s)"
  shows "case r of
      Ok p' \<Rightarrow> started c (w_log w) s \<and> p_ops p' = Some (st_InitProcessPid (nc_state (fst s)))
    | _ \<Rightarrow> unstarted c (w_log w) s \<or> started c (w_log w) s"
proof -
  have "unstarted c (w_log w) (c, w)" by (simp add: unstarted_def)
  note result = ensuresD [OF start_cases [OF assms(1), of c "w_log w" p] this]
  show ?thesis
    using assms(2) by (cases r) (auto dest: result)
qed

text \<open>
  \<open>exec\<close> makes a container running exactly when it returns no error; on an error the object is
  as it was.
\<close>

lemma exec_sets_running:
  assumes "exec R (c, w) = (r, s)"
  shows "case r of Ok _ \<Rightarrow> fst s = set_status Running c | Err _ \<Rightarrow> fst s = c
    | Stop _ \<Rightarrow> fst s = c \<or> fst s = set_status Running c"
  using ensuresD [OF exec_object, of "(c, w)" c R] assms by (cases r) auto

text \<open>
  The init process finds its configuration pipe and the state directory at the file descriptors
  its environment names, after the standard three and the files the caller passes on.
\<close>

lemma init_descriptors:
  "cmd_Env (add_state_dir d (commandTemplate c p)) =
     [''_LIBCONTAINER_INITPIPE='' @ int_text (int (3 + length (p_ExtraFiles p))),
      ''_LIBCONTAINER_STATEDIR='' @ int_text (int (4 + length (p_ExtraFiles p)))]
   \<and> cmd_ExtraFiles (add_state_dir d (commandTemplate c p)) ! length (p_ExtraFiles p) = InitPipeChild
   \<and> cmd_ExtraFiles (add_state_dir d (commandTemplate c p)) ! Suc (length (p_ExtraFiles p)) = StateDir d"
  by (rule init_command_fds)

text \<open>
  \<open>kill\<close> understands every signal of its table by name, in any case, with or without \<open>SIG\<close>, and
  by number.
\<close>

lemma signal_names:
  assumes "(n, s) \<in> set signalMap" and "ToUpper raw = n \<or> ToUpper raw = ''SIG'' @ n \<or> raw = int_text s"
  shows "parseSignal raw = Ok s"
  using assms parse_names [OF assms(1)] parse_numbers [OF assms(1)] by blast

text \<open>
  Whatever text \<open>kill\<close> is given, it sends a signal of the table, which is a number from 1 to 31,
  or reports the text as unknown.
\<close>

lemma signal_range:
  "case parseSignal raw of Ok s \<Rightarrow> 1 \<le> s \<and> s \<le> 31 \<and> s \<in> snd ` set signalMap
    | Err e \<Rightarrow> e = Msg (''unknown signal '' @ raw) | Stop _ \<Rightarrow> False"
  by (auto simp: parseSignal_def unknown_signal_def split: option.split dest!: map_of_signalMap dest: signalMap_range
      intro: rev_image_eqI)

subsection \<open>Configuration\<close>

text \<open>
  C31: a specification with a process, its arguments and a root is accepted; the configuration has
  its arguments, environment, directory and root, at least 512 MiB of memory and exactly the limit's
  MiB when that is more, and the path of the last network namespace listed.
\<close>

theorem spec_configuration:
  assumes "spec_Process s = Some p" and "sp_Args p = Some args" and "spec_Root s = Some rootfs"
  shows "\<exists>c. ParseSpec (Some s) = Ok c \<and> cfg_Args c = args \<and> cfg_Rootfs c = rootfs \<and> cfg_Env c = sp_Env p
    \<and> cfg_Cwd c = sp_Cwd p \<and> cfg_Hooks c = spec_Hooks s \<and> cfg_Mounts c = spec_Mounts s
    \<and> 512 \<le> cfg_Memory c \<and> (memory_limit s = None \<longrightarrow> cfg_Memory c = 512)
    \<and> (\<forall>limit. memory_limit s = Some limit \<longrightarrow> cfg_Memory c = max 512 (limit div 2 ^ 20))
    \<and> (\<forall>l pre n post. spec_Linux s = Some l \<longrightarrow> linux_Namespaces l = pre @ n # post \<longrightarrow>
        ns_Type n = NetworkNamespace \<longrightarrow> (\<forall>m \<in> set post. ns_Type m \<noteq> NetworkNamespace) \<longrightarrow>
        cfg_NetnsPath c = ns_Path n)"
proof -
  have mib: "(if go_div limit (2 ^ 20) < 512 then 512 else go_div limit (2 ^ 20)) = max 512 (limit div 2 ^ 20)" for limit
  proof (cases "0 \<le> limit")
    case False
    then have "limit div 2 ^ 20 < 0" by (simp add: pos_imp_zdiv_neg_iff)
    moreover have "go_div limit (2 ^ 20) \<le> 0" using False by (intro go_div_neg) simp
    ultimately show ?thesis by simp
  next
    case True
    then show ?thesis by (simp only: go_div_MiB) (simp add: max_def)
  qed
  have "go_div limit (2 ^ 20) < 512 \<Longrightarrow> max 512 (limit div 2 ^ 20) = 512"
    "\<not> go_div limit (2 ^ 20) < 512 \<Longrightarrow> go_div limit (2 ^ 20) = max 512 (limit div 2 ^ 20)" for limit
    using mib [of limit] by (simp_all only: if_True if_False)
  then show ?thesis
    using assms by (auto simp: ParseSpec_def ContainerMemoryMinimum_def Let_def last_netns_last split: option.split)
qed

theorem spec_configuration_witness:
  "\<exists>c. ParseSpec (Some \<lparr>spec_Version = ''1.0.0'', spec_Process = Some \<lparr>sp_Terminal = False,
        sp_User = \<lparr>user_UID = 0, user_GID = 0, user_AdditionalGids = []\<rparr>, sp_Args = Some [''app.nabla''], sp_Env = [],
        sp_Cwd = ''/'', sp_NoNewPrivileges = False, sp_ApparmorProfile = '''', sp_OOMScoreAdj = None,
        sp_SelinuxLabel = ''''\<rparr>, spec_Root = Some ''rootfs'', spec_Mounts = [], spec_Hooks = None,
      spec_Annotations = [], spec_Linux = Some \<lparr>linux_Namespaces = [],
        linux_Resources = Some \<lparr>res_Memory = Some \<lparr>mem_Limit = Some (2 ^ 30)\<rparr>\<rparr>\<rparr>\<rparr>) = Ok c \<and>
    cfg_Args c = [''app.nabla''] \<and> cfg_Memory c = 1024"
proof -
  let ?p = "\<lparr>sp_Terminal = False,
        sp_User = \<lparr>user_UID = 0, user_GID = 0, user_AdditionalGids = []\<rparr>, sp_Args = Some [''app.nabla''], sp_Env = [],
        sp_Cwd = ''/'', sp_NoNewPrivileges = False, sp_ApparmorProfile = '''', sp_OOMScoreAdj = None,
        sp_SelinuxLabel = ''''\<rparr>"
  let ?s = "\<lparr>spec_Version = ''1.0.0'', spec_Process = Some ?p, spec_Root = Some ''rootfs'', spec_Mounts = [],
      spec_Hooks = None, spec_Annotations = [], spec_Linux = Some \<lparr>linux_Namespaces = [],
        linux_Resources = Some \<lparr>res_Memory = Some \<lparr>mem_Limit = Some (2 ^ 30)\<rparr>\<rparr>\<rparr>\<rparr>"
  have "spec_Process ?s = Some ?p" "sp_Args ?p = Some [''app.nabla'']" "spec_Root ?s = Some ''rootfs''"
    "memory_limit ?s = Some (2 ^ 30)"
    by (simp_all add: memory_limit_def)
  with spec_configuration [OF this(1-3)] show ?thesis by (auto simp del: power_numeral) (auto simp: max_def)
qed

subsection \<open>Network\<close>







subsection \<open>The state file\<close>



text \<open>
  The JSON decoder reads back every value the printer writes, strings with any bytes included.
\<close>

lemma json_roundtrip:
  assumes "json_ok j"
  shows "parse_json (print_json j) = Some j"
  using parse_print [OF assms, of "''''"] by (simp add: stops_def)

text \<open>
  The length of a netmask is recovered from its bytes, for each of the 33 IPv4 masks.
\<close>

lemma mask_roundtrip:
  assumes "n \<le> 32"
  shows "MaskCIDR (CIDRMask_bytes n 4) = int n \<and> snd (IPMask_Size (CIDRMask_bytes n 4)) = 32"
  using IPMask_Size_CIDRMask [OF assms] by (simp add: MaskCIDR_def)

subsection \<open>Execution\<close>

text \<open>
  C35: the argument given to \<open>nabla-run\<close> is a JSON object that repeats the key \<open>env\<close>, one member
  per variable in their order, followed by the other fields; an empty variable makes it an error.
\<close>

theorem rumprun_json:
  "if '''' \<in> set (ra_Env ra) then \<exists>e. Marshal_rumpArgs ra = Err e
   else Marshal_rumpArgs ra = Ok (print_json (JObj (map env_member (ra_Env ra) @ rest_members ra)))"
  using Marshal_empty [of ra] Marshal_nonempty [of ra] by simp



text \<open>
  C37: the arguments of \<open>nabla-run\<close> are built only for a \<open>.nabla\<close> entry point with a readable mask,
  address, gateway and MAC address and a device name; the unikernel is looked up in the container's
  root file system, the disk is the image the file system handler made.
\<close>

theorem nabla_arguments:
  assumes "newRunncCont root cfg net fs = Ok r"
  shows "\<exists>arg rest n ip mask gw. cfg_Args cfg = arg # rest \<and> HasSuffix arg ''.nabla''
    \<and> Atoi (option_of net ''IPMask'') = Some n
    \<and> ParseCIDR (option_of net ''IPAddress'' @ ''/'' @ int_text n) = Some (ip, mask)
    \<and> ParseIP (option_of net ''Gateway'') = Some gw
    \<and> (option_of net ''Mac'' = '''' \<or> ParseMAC (option_of net ''Mac'') \<noteq> None)
    \<and> option_of net ''TapName'' \<noteq> '''' \<and> rc_Tap r = option_of net ''TapName''
    \<and> rc_IPAddress r = ip \<and> rc_IPMask r = mask \<and> rc_Gateway r = gw \<and> rc_NablaRunArgs r = rest
    \<and> rc_UniKernelBin r = Join [root, arg] \<and> rc_Disk r = option_of fs ''FsPath''
    \<and> rc_Memory r = cfg_Memory cfg \<and> rc_NablaRunBin r = NablaRunBin \<and> rc_Env r = cfg_Env cfg"
  using assms
  by (auto simp: newRunncCont_def NewRunncCont_def Let_def split: list.splits if_splits option.splits prod.splits)

theorem nabla_arguments_witness:
  "\<exists>r. newRunncCont ''/b'' calm_config [(''IPAddress'', ''10.0.0.2''), (''Gateway'', ''10.0.0.1''), (''IPMask'', ''24''),
      (''Mac'', ''''), (''TapName'', ''tap0'')] [(''FsPath'', ''/r/c/rootfs.iso'')] = Ok r \<and> rc_UniKernelBin r = ''/b/app.nabla''"
proof -
  let ?net = "[(''IPAddress'', ''10.0.0.2''), (''Gateway'', ''10.0.0.1''), (''IPMask'', ''24''),
      (''Mac'', ''''), (''TapName'', ''tap0'')]"
  obtain r where run: "newRunncCont ''/b'' calm_config ?net [(''FsPath'', ''/r/c/rootfs.iso'')] = Ok r"
    using calm_runnc by blast
  have "Join [''/b'', ''app.nabla''] = ''/b/app.nabla''" by code_simp
  with nabla_arguments [OF run] run show ?thesis by (auto simp: calm_config_def)
qed



section \<open>Creating, forwarding and the init process\<close>



text \<open>
  C12: a creation that fails after the process was started, at the pid file or at its score, kills the
  process, when that is possible, before it returns the error.
\<close>

theorem failed_start_killed:
  assumes "rn_create r" and "p_ops p = Some pid"
    and "\<forall>t. e_fault (w_env w) t (OpKill pid SIGKILL) = None" and "\<forall>t. e_alive (w_env w) t pid"
    and "after_start R (nablaLLCHandler nl) T r no_tty signals p (c, w) = (Err e, (c', w'))"
  shows "w_log w' = w_log w @ [Signalled pid SIGKILL] \<or> w_log w' = w_log w @ [Signalled pid SIGKILL, Reaped pid]"
proof -
  have "killed (w_env w) (w_log w) pid (c', w')"
    using ensuresD(2) [OF runnc.after_start_cases [OF assms(1,2), of c "w_env w" "w_log w" R nl T signals] _ assms(5)]
    by (simp add: at_log_def)
  moreover have "can_kill (w_env w) pid" using assms(3,4) by (simp add: can_kill_def)
  ultimately show ?thesis by (auto simp: killed_def)
qed

theorem failed_start_killed_witness:
  "\<exists>e c' w'. after_start spec_lib (nablaLLCHandler calm_netlink) calm_termlib (create_runner ''/none/pid'') no_tty []
      (calm_process\<lparr>p_ops := Some 77\<rparr>) (calm_container Created 77, calm_world [77] []) = (Err e, (c', w'))
    \<and> Signalled 77 SIGKILL \<in> set (w_log w')"
proof -
  let ?run = "after_start spec_lib (nablaLLCHandler calm_netlink) calm_termlib (create_runner ''/none/pid'') no_tty []
      (calm_process\<lparr>p_ops := Some 77\<rparr>) (calm_container Created 77, calm_world [77] [])"
  have "case fst ?run of Err _ \<Rightarrow> True | _ \<Rightarrow> False" by code_simp
  then obtain e c' w' where run: "?run = (Err e, (c', w'))"
    by (cases ?run; cases "fst ?run") auto
  have "rn_create (create_runner ''/none/pid'')" "p_ops (calm_process\<lparr>p_ops := Some 77\<rparr>) = Some 77"
    "\<forall>t. e_fault (w_env (calm_world [77] [])) t (OpKill 77 SIGKILL) = None" "\<forall>t. e_alive (w_env (calm_world [77] [])) t 77"
    by (simp_all add: create_runner_def calm_world_def calm_env_def)
  from failed_start_killed [OF this run] run show ?thesis by auto
qed

text \<open>
  C28: the pid file is atomic. When it was written, the file holds the process's number and the temporary
  name is gone; when it was not, what was at its place is unchanged. No other file is touched.
\<close>

theorem pid_file_atomic:
  assumes "p_ops p = Some pid" and "resolve (w_cwd w) (pid_temp path) \<noteq> resolve (w_cwd w) path"
    and "createPidFile path p w = (r, w')"
  shows "(r = Ok () \<longrightarrow> (\<exists>n. fs_get w' (resolve (w_cwd w) path) = Some n \<and> i_kind n = KFile (int_text pid))
      \<and> fs_get w' (resolve (w_cwd w) (pid_temp path)) = None)
    \<and> (r \<noteq> Ok () \<longrightarrow> fs_get w' (resolve (w_cwd w) path) = fs_get w (resolve (w_cwd w) path))
    \<and> (\<forall>q. q \<noteq> resolve (w_cwd w) path \<longrightarrow> q \<noteq> resolve (w_cwd w) (pid_temp path) \<longrightarrow> fs_get w' q = fs_get w q)
    \<and> (\<forall>x. r \<noteq> Stop x)"
proof -
  have "fs_agrees (w_cwd w) (\<lambda>x. x = resolve (w_cwd w) (pid_temp path)) (fs_get w) w"
    by (simp add: fs_agrees_def)
  note result = ensuresD [OF createPidFile_cases [OF assms(1) refl refl assms(2), of "fs_get w"] this]
  show ?thesis
    using assms(2,3) result(1) [of "()" w'] result(2) [of _ w'] result(3) [of _ w']
    by (cases r) (auto simp: fs_agrees_def)
qed

theorem pid_file_atomic_witness:
  "\<exists>w'. createPidFile ''/r/pid'' (calm_process\<lparr>p_ops := Some 77\<rparr>) (calm_world [] []) = (Ok (), w') \<and>
    (\<exists>n. fs_get w' [''r'', ''pid''] = Some n \<and> i_kind n = KFile ''77'')"
proof -
  let ?run = "createPidFile ''/r/pid'' (calm_process\<lparr>p_ops := Some 77\<rparr>) (calm_world [] [])"
  have "fst ?run = Ok ()" by code_simp
  then obtain w' where run: "?run = (Ok (), w')" by (metis prod.collapse)
  have names: "resolve (w_cwd (calm_world [] [])) (pid_temp ''/r/pid'') \<noteq> resolve (w_cwd (calm_world [] [])) ''/r/pid''"
    "resolve (w_cwd (calm_world [] [])) ''/r/pid'' = [''r'', ''pid'']" "int_text 77 = ''77''"
    by code_simp+
  from pid_file_atomic [OF _ names(1) run, of 77] run show ?thesis by (simp add: names)
qed



text \<open>
  C30: opening the pipes of a process loses no descriptor. It opens six new ones, three of which the
  process gets and three the caller, or fails and leaves the open descriptors as they were.
\<close>

theorem pipes_not_lost:
  assumes "InitializeIO p uid gid w = (r, w')"
  shows "case r of
      Ok (p', i) \<Rightarrow> (\<exists>a b c d e f. w_fds w' = w_fds w @ [a, b, c, d, e, f] \<and> distinct [a, b, c, d, e, f]
        \<and> set [a, b, c, d, e, f] \<inter> set (w_fds w) = {}
        \<and> p' = p\<lparr>p_Stdin := Some (PipeEnd a), p_Stdout := Some (PipeEnd d), p_Stderr := Some (PipeEnd f)\<rparr>
        \<and> i = \<lparr>io_Stdin = b, io_Stdout = c, io_Stderr = e\<rparr>)
    | Err e \<Rightarrow> w_fds w' = w_fds w
    | Stop x \<Rightarrow> False"
proof -
  have "opened w [] w" by (simp add: opened_def)
  note result = ensuresD [OF InitializeIO_cases [of w p uid gid] this]
  show ?thesis
  proof (cases r)
    case (Ok a)
    with result(1) [of a w'] assms obtain x where "piped w p a w'" by blast
    then obtain k l m n q s where new: "opened w [k, l, m, n, q, s] w'"
      and a: "a = (p\<lparr>p_Stdin := Some (PipeEnd k), p_Stdout := Some (PipeEnd n), p_Stderr := Some (PipeEnd s)\<rparr>,
        \<lparr>io_Stdin = l, io_Stdout = m, io_Stderr = q\<rparr>)"
      unfolding piped_def by blast
    show ?thesis
      unfolding Ok a res.case prod.case
      by (intro exI conjI) (use opened_fds [OF new] new in \<open>simp_all only: opened_def\<close>)
  next
    case (Err e)
    with result(2) [of e w'] assms show ?thesis by (auto dest!: opened_fds)
  next
    case (Stop x)
    with result(3) [of x w'] assms show ?thesis by simp
  qed
qed

theorem pipes_not_lost_witness:
  "\<exists>p' i w'. InitializeIO calm_process 0 0 (calm_world [] []) = (Ok (p', i), w') \<and> length (w_fds w') = 6"
proof -
  let ?run = "InitializeIO calm_process 0 0 (calm_world [] [])"
  have "case fst ?run of Ok _ \<Rightarrow> True | _ \<Rightarrow> False" by code_simp
  then obtain p' i w' where run: "?run = (Ok (p', i), w')"
    by (cases ?run; cases "fst ?run") auto
  from pipes_not_lost [OF run] run show ?thesis by (auto simp: calm_world_def)
qed



text \<open>
  C27: forwarding ends. If waiting is never refused and the process has ended when some \<open>SIGCHLD\<close> is
  delivered, forwarding returns, whatever signals came before and after it.
\<close>

theorem forward_ends:
  assumes "winsize_calls T" and "p_ops p = Some pid"
    and "\<forall>n. e_fault (w_env w) n OpWait = None"
    and "\<forall>c\<in>set (w_children w). 0 < fst c"
    and "\<forall>s\<in>set (before @ [(SIGCHLD, new)]). \<forall>c\<in>set (snd s). 0 < fst c"
    and "pid \<in> fst ` (set (w_children w) \<union> (\<Union>s\<in>set (before @ [(SIGCHLD, new)]). set (snd s)))"
  shows "\<exists>st w'. forward R T t (before @ (SIGCHLD, new) # after) p w = (Ok st, w')"
proof -
  have "\<exists>st w'. forward_loop R T t p pid (before @ (SIGCHLD, new) # after) w = (Ok st, w')"
    by (rule forward_loop_ends [OF assms(1,2)])
      (use assms(3-6) in \<open>simp_all add: waits_answered_def pids_positive_def ended_by_def\<close>)
  then show ?thesis
    using assms(2) resize_run [OF assms(1), of t w] by (simp add: forward_def Process_Pid_def)
qed

theorem forward_ends_witness:
  "\<exists>st w'. forward calm_lib calm_termlib no_tty ([(15, [(77, 768)])] @ (SIGCHLD, []) # [(1, [])])
    (calm_process\<lparr>p_ops := Some 77\<rparr>) (calm_world [77] []) = (Ok st, w')"
  by (rule forward_ends [OF calm_winsize, where pid = 77])
    (simp_all add: calm_world_def calm_env_def)



text \<open>
  C9: the order of the init process. One that becomes the unikernel, or pauses, has run every prestart
  hook to its end, in order, and has then opened the container's FIFO, after which it starts and signals
  nothing: the user's program does not run before \<open>start\<close> has come.
\<close>

theorem init_order:
  assumes "inherits c p d I w" and "sendable c" and "length (p_ExtraFiles p) < 2 ^ 31"
    and "\<forall>t fd. e_fault (w_env w) t (OpReceive fd) = None" and "netns_calls N" and "netlink_returns nl"
    and "initNabla N I (nablaLLCHandler nl) w = (Stop x, w')"
    and "(\<exists>path args envs. x = Execed path args envs) \<or> x = Blocked ''select''"
  shows "\<exists>pids. length pids = length (prestart_hooks (init_config c))
    \<and> w_log w' = w_log w @ concat (map (\<lambda>(h, pid). [Started (hook_Path h) (hook_argv h) pid, Reaped pid])
        (zip (prestart_hooks (init_config c)) pids)) @ [FifoOpened (d @ [''exec.fifo''])]"
proof -
  obtain fd where fd: "inherited_file I fd = Some (StateDir d)"
    and run: "initNabla N I (nablaLLCHandler nl) w =
      run_init N I (nablaLLCHandler nl) fd (init_config c) (cleared (w\<lparr>w_tick := Suc (w_tick w)\<rparr>))"
    using init_reads [OF assms(1-4)] by blast
  have "w_log (cleared (w\<lparr>w_tick := Suc (w_tick w)\<rparr>)) = w_log w" by (simp add: cleared_def)
  from ensuresD(3) [OF run_init_order [OF fd assms(5,6), of "w_log w" "init_config c"] this, of x w']
  have "extends (w_log w) (init_logs (init_config c) d) w'"
    using assms(7,8) run by (simp add: released_def)
  then show ?thesis by (auto simp: extends_def init_logs_def hook_events_def execFifoFilename_def)
qed

theorem init_order_witness:
  "\<exists>w' pid. initNabla calm_initlib hook_inherited (nablaLLCHandler docker_netlink) init_world = (Stop (Blocked ''select''), w')
    \<and> w_log w' = [Started ''/b/hook'' [''/b/hook''] pid, Reaped pid, FifoOpened [''r'', ''0123456789ab'', ''exec.fifo'']]"
proof -
  have few: "length (p_ExtraFiles calm_process) < 2 ^ 31" "\<forall>t fd. e_fault (w_env init_world) t (OpReceive fd) = None"
    "w_log init_world = []"
    by (simp_all add: calm_process_def init_world_def calm_world_def calm_env_def)
  obtain fd where fd: "inherited_file hook_inherited fd = Some (StateDir [''r'', ''0123456789ab''])"
    and same: "initNabla calm_initlib hook_inherited (nablaLLCHandler docker_netlink) init_world =
      run_init calm_initlib hook_inherited (nablaLLCHandler docker_netlink) fd (init_config hook_container)
        (cleared (init_world\<lparr>w_tick := Suc (w_tick init_world)\<rparr>))"
    using init_reads [OF hook_inherits hook_sendable few(1,2)] by blast
  have "fd = 4"
    using fd by (auto simp: inherited_file_def hook_inherited_def stdioFdCount_def less_Suc_eq split: if_splits)
  then obtain w' where run: "initNabla calm_initlib hook_inherited (nablaLLCHandler docker_netlink) init_world =
      (Stop (Blocked ''select''), w')"
    using hook_pauses same by metis
  have hooks: "map (\<lambda>h. (hook_Path h, hook_argv h)) (prestart_hooks (init_config hook_container)) = [(''/b/hook'', [''/b/hook''])]"
    by code_simp
  then obtain h where h: "prestart_hooks (init_config hook_container) = [h]" "hook_Path h = ''/b/hook''" "hook_argv h = [''/b/hook'']"
    by auto
  from init_order [OF hook_inherits hook_sendable few(1,2) calm_netns docker_returns run] run few(3) h
  show ?thesis by (auto simp: length_Suc_conv)
qed

subsection \<open>The life of a container\<close>

text \<open>
  C1: the commands refine an abstract machine. In any history of \<open>state\<close>, \<open>start\<close>, \<open>kill\<close> and \<open>delete\<close>
  on one container, each a process that finds it by its state file and between which the rest of the
  machine may change, what the file shows, what is signalled and which commands succeed are a run of the
  machine \<open>lifecycle\<close>.
\<close>

theorem commands_refine:
  assumes "history R (nablaLLCHandler nl) root cid w ks w'" and "WriteJSON_encodes R" and "place_ok root cid"
  shows "\<exists>evs. w_log w' = w_log w @ evs \<and> lives (life root cid w) ks evs (life root cid w')"
  by (rule history_lives [OF assms])

theorem commands_refine_witness:
  "\<exists>b. lives (Present Created 77) [(CmdKill, True)] [Signalled 77 15] b"
proof -
  obtain w' where run: "perform CmdKill create_ctx calm_lib (nablaLLCHandler calm_netlink) live_world = (Ok (), w')"
    and log: "w_log w' = [Signalled 77 15]" using live_kill by blast
  have "history calm_lib (nablaLLCHandler calm_netlink) ''/r'' ''0123456789ab'' live_world ([] @ [(CmdKill, \<exists>a. Ok () = Ok a)]) w'"
    by (rule history_command [OF history_nil live_place(2) run])
  from commands_refine [OF this calm_lib_encodes live_place(1)] show ?thesis
    by (auto simp: live_life log live_log)
qed

text \<open>
  C2: a container's life goes forward. Whatever commands are run on a container with a given status and
  process, it stays with that process, its status only advances from created to running to stopped until
  it is gone, nothing but its own process or process group is signalled, and no \<open>start\<close> succeeds once it
  is not created any more.
\<close>

theorem life_goes_forward:
  assumes "history R (nablaLLCHandler nl) root cid w ks w'" and "WriteJSON_encodes R" and "place_ok root cid"
    and "life root cid w = Present s pid"
  shows "life root cid w' \<in> {Absent, Broken} \<union> {Present t pid |t. t = s \<or> t = Stopped \<or> s = Created \<and> t = Running}
    \<and> (\<exists>evs. w_log w' = w_log w @ evs \<and> (\<forall>ev\<in>set evs. \<exists>q sig. ev = Signalled q sig \<and> (q = pid \<or> q = - pid) \<and> 0 < sig))
    \<and> (s \<noteq> Created \<longrightarrow> (CmdStart, True) \<notin> set ks)"
proof -
  obtain evs where log: "w_log w' = w_log w @ evs" and run: "lives (life root cid w) ks evs (life root cid w')"
    using history_lives [OF assms(1-3)] by blast
  have "descends s pid (life root cid w')" "list_all (own_signal pid) evs"
    using lives_descends [OF run assms(4)] by simp_all
  moreover have "s \<noteq> Created \<Longrightarrow> (CmdStart, True) \<notin> set ks"
    by (rule lives_never_created(2) [OF run]) (simp add: assms(4))
  ultimately show ?thesis
    using log by (auto simp: descends_def later_def own_signal_def list_all_iff)
qed

theorem life_goes_forward_witness:
  "\<exists>w'. perform CmdKill create_ctx calm_lib (nablaLLCHandler calm_netlink) live_world = (Ok (), w')
    \<and> life ''/r'' ''0123456789ab'' w' \<in> {Absent, Broken} \<union> {Present t 77 |t. t = Created \<or> t = Stopped \<or> t = Running}"
proof -
  obtain w' where run: "perform CmdKill create_ctx calm_lib (nablaLLCHandler calm_netlink) live_world = (Ok (), w')"
    using live_kill by blast
  have "history calm_lib (nablaLLCHandler calm_netlink) ''/r'' ''0123456789ab'' live_world ([] @ [(CmdKill, \<exists>a. Ok () = Ok a)]) w'"
    by (rule history_command [OF history_nil live_place(2) run])
  from life_goes_forward [OF this calm_lib_encodes live_place(1) live_life] run show ?thesis by auto
qed

text \<open>
  C10: containers stay well formed. A container that \<open>Create\<close> or \<open>Load\<close> returns, and whatever it is after
  any calls of its methods, has the configuration of its state, a process id of 64 bits, a time of
  creation in the form that JSON takes and a status; so its state can always be saved and read back.
\<close>

theorem containers_typed:
  assumes "StartTime_reads R" and "\<forall>t. int64_ok (e_spawn (w_env w) t) \<and> rfc3339_ok (e_now (w_env w) t)"
    and "Create l cid config v = (Ok c, w) \<and> Config_ok config \<and> fac_LLCHandler l = nablaLLCHandler nl \<or> Load l cid v = (Ok c, w)"
    and "calls (api_call (nabla_container R (nablaLLCHandler nl))) xs (False, (c, w)) = (r, (held, (c', w')))"
  shows "\<forall>x\<in>{c, c'}. nc_config x = st_Config (nc_state x) \<and> State_typed (nc_state x)"
proof -
  have c: "container_typed c"
    using assms(3) runnc_life.typed_Create [of l nl cid config v c w] typed_Load [of l cid v c w] by blast
  obtain q s where plain: "calls (plain_call R (nablaLLCHandler nl)) xs (c, w) = (q, s)" by (meson surj_pair)
  have "s = (c', w')"
    using nabla_api.calls_free [of R "nablaLLCHandler nl" xs "(c, w)"] assms(4) plain by auto
  moreover have "typed_at (w_env w) s"
    by (rule preservesD [OF runnc_life.calls_typed plain]) (use assms(1,2) c in \<open>auto simp: env_typed_def typed_at_def\<close>)
  ultimately show ?thesis using c by (simp add: typed_at_def container_typed_def)
qed

theorem containers_typed_witness:
  "\<exists>c w. Create calm_factory ''0123456789ab'' calm_config (calm_world [] []) = (Ok c, w) \<and> State_typed (nc_state c)
    \<and> State_typed (nc_state (fst (snd (snd (calls (api_call (nabla_container calm_lib (nablaLLCHandler calm_netlink)))
        [CallStatus, CallStart calm_process, CallExec, CallDestroy] (False, (c, w)))))))"
proof -
  obtain c w where run: "Create calm_factory ''0123456789ab'' calm_config (calm_world [] []) = (Ok c, w)"
    using calm_create by blast
  have fac: "fac_LLCHandler calm_factory = nablaLLCHandler calm_netlink" by (simp add: calm_factory_def)
  have "outside w = outside (calm_world [] [])"
    by (rule preservesD [OF runnc.Create_outside [OF fac] run]) simp
  then have env: "\<forall>t. int64_ok (e_spawn (w_env w) t) \<and> rfc3339_ok (e_now (w_env w) t)"
    using calm_clock by (simp add: outside_def calm_world_def)
  have lib: "StartTime_reads calm_lib" by (simp add: StartTime_reads_def calm_lib_def)
  have ok: "Config_ok calm_config" by code_simp
  obtain r held c' w' where calls: "calls (api_call (nabla_container calm_lib (nablaLLCHandler calm_netlink)))
      [CallStatus, CallStart calm_process, CallExec, CallDestroy] (False, (c, w)) = (r, (held, (c', w')))"
    by (metis surj_pair)
  have "State_typed (nc_state c) \<and> State_typed (nc_state c')"
    using containers_typed [OF lib env _ calls, of calm_factory "''0123456789ab''" calm_config "calm_world [] []"] run fac ok by simp
  then show ?thesis
    by (intro exI [where x = c] exI [where x = w]) (simp add: run calls del: calls.simps)
qed




subsection \<open>The command line\<close>



text \<open>
  C40: what is done before every command. The command goes on only with one of the two log formats, and
  with the logger that the flags name; the log file is then there, and no file or directory that was
  there is changed.
\<close>

theorem log_appended:
  assumes "app_before ctx w = (r, w')"
  shows "(\<forall>l. r = Ok l \<longrightarrow> ctx_GlobalString ctx ''log-format'' \<in> {''text'', ''json''}
      \<and> log_JSON l = (ctx_GlobalString ctx ''log-format'' = ''json'') \<and> log_Debug l = ctx_GlobalBool ctx ''debug''
      \<and> (case log_Output l of None \<Rightarrow> ctx_GlobalString ctx ''log'' = '''' \<and> w' = w
         | Some f \<Rightarrow> f = resolve (w_cwd w) (ctx_GlobalString ctx ''log'') \<and> fs_get w' f \<noteq> None))
    \<and> (\<forall>q n. fs_get w q = Some n \<longrightarrow> fs_get w' q = Some n)"
proof -
  let ?format = "ctx_GlobalString ctx ''log-format''" and ?path = "ctx_GlobalString ctx ''log''"
  show ?thesis
  proof (cases "?path = ''''")
    case True
    then show ?thesis using assms by (auto simp: app_before_def Let_def split: if_splits)
  next
    case False
    obtain x v where o: "os_OpenAppend ?path (octal3 6 6 6) w = (x, v)" by (meson surj_pair)
    have kept: "fs_get w q = Some n \<Longrightarrow> fs_get v q = Some n" for q n
      by (rule preservesD [OF os_OpenAppend_keeps o])
    have v: "w' = v" using assms o False by (cases x) (auto simp: app_before_def Let_def split: if_splits)
    show ?thesis
    proof (cases x)
      case (Ok f)
      with os_OpenAppend_Ok [of ?path "octal3 6 6 6" w f v] o kept assms False v show ?thesis
        by (auto simp: app_before_def Let_def split: if_splits)
    qed (use assms o False kept v in \<open>auto simp: app_before_def Let_def\<close>)
  qed
qed

theorem log_appended_witness:
  "\<exists>w'. app_before log_ctx bundle_world = (Ok \<lparr>log_Debug = False, log_Output = Some [''b'', ''log''], log_JSON = True\<rparr>, w')
    \<and> fs_get w' [''b'', ''log''] \<noteq> None \<and> fs_get w' [''b'', ''config.json''] = Some (file_inode ''{}'')"
proof -
  have "fst (app_before log_ctx bundle_world) = Ok \<lparr>log_Debug = False, log_Output = Some [''b'', ''log''], log_JSON = True\<rparr>"
    by code_simp
  then obtain w' where run: "app_before log_ctx bundle_world =
      (Ok \<lparr>log_Debug = False, log_Output = Some [''b'', ''log''], log_JSON = True\<rparr>, w')" by (metis prod.collapse)
  have "fs_get bundle_world [''b'', ''config.json''] = Some (file_inode ''{}'')" by code_simp
  with log_appended [OF run] run show ?thesis by auto
qed

text \<open>
  C5: \<open>start\<close> gets a created container running. On a machine that refuses no call and whose files are a tree,
  when the container's process is there and waits at the FIFO, \<open>start\<close> returns without an error: the state
  file then shows the same process, running, the FIFO is gone, so that it cannot be started twice, and
  no process was started or signalled.
\<close>

theorem start_runs:
  assumes "WriteJSON_encodes R" and "ctx_names ctx root cid" and "place_ok root cid" and "refuses_nothing w"
    and "life root cid w = Present Created p" and "p \<notin> {0, -1}" and "\<forall>t. e_alive (w_env w) t p"
    and "fs_get w (fifo_path root cid) = Some k" and "i_kind k = KFifo"
    and "\<forall>t. \<exists>x xs. e_fifo (w_env w) t (fifo_path root cid) = Some (x # xs)"
  shows "\<exists>w'. perform CmdStart ctx R H w = (Ok (), w') \<and> life root cid w' = Present Running p
    \<and> fs_get w' (fifo_path root cid) = None \<and> w_log w' = w_log w"
  using start_done [OF assms(1-6) spec [OF assms(7)] assms(8,9) spec [OF assms(10)], of H] by blast

theorem start_runs_witness:
  "\<exists>w'. perform CmdStart create_ctx calm_lib (nablaLLCHandler calm_netlink) live_world = (Ok (), w')
    \<and> life ''/r'' ''0123456789ab'' w' = Present Running 77"
proof -
  have "refuses_nothing live_world" unfolding live_world_def by (rule kept_refuses_nothing)
  from start_runs [OF calm_lib_encodes live_place(2,1) this live_life _ _ live_fifo, of "nablaLLCHandler calm_netlink"]
  show ?thesis by (auto simp: live_env calm_env_def)
qed

text \<open>
  C6: \<open>delete\<close> gets rid of a container. On a machine that refuses no call, when the container was never
  started, or has ended, or the deletion is forced, and its process goes away while it waits for it (two
  ticks a probe), \<open>delete\<close> returns without an error and no state file of the container is left, whatever
  the network package answers.
\<close>

theorem delete_removes:
  assumes "ctx_names ctx root cid" and "place_ok root cid" and "refuses_nothing w"
    and "life root cid w = Present s p" and "p \<notin> {0, -1}" and "link_del_returns nl"
    and "ctx_Bool ctx ''force'' \<or> s = Created \<or> s = Stopped"
    and "\<forall>t\<ge>w_tick w + 200. \<not> e_alive (w_env w) t p"
  shows "\<exists>w'. perform CmdDelete ctx R (nablaLLCHandler nl) w = (Ok (), w') \<and> life root cid w' = Absent"
  by (rule delete_done [OF assms(1-7)]) (use assms(8) in simp)

theorem delete_removes_witness:
  "\<exists>w'. perform CmdDelete create_ctx calm_lib (nablaLLCHandler calm_netlink) ending_world = (Ok (), w')
    \<and> life ''/r'' ''0123456789ab'' w' = Absent"
  by (rule delete_removes [OF live_place(2,1) ending_facts(2,1) _ calm_link_del]) (simp_all add: ending_facts(3,4))



text \<open>
  C24: what the container writes is not lost. When the runner has closed the terminal of pipes it made
  with \<open>createStdioPipes\<close>, in whatever order its goroutines, the container's process and the caller went,
  then the container has closed its output, and, if no copy met an error, every byte it wrote has been
  copied to the caller's output.
\<close>

theorem output_complete:
  assumes "createStdioPipes p u g w = (Ok (p', t), w')"
    and "run_events stdio_step es (stdio_pipes p' t (w_fds w')) = Some c"
    and "list_all lossless es" and "so_stage c = TtyClosed"
  shows "so_output c s = concat (map (wrote s) es) \<and> \<not> so_child c s"
proof -
  let ?c0 = "stdio_pipes p' t (w_fds w')"
  have "piped_ok ?c0 \<and> drained ?c0" using createStdioPipes_start [OF assms(1)]
    by (simp add: drained_def stdio_pipes_def)
  then have ok: "piped_ok c \<and> drained c"
    using run_keeps [where I = "\<lambda>c. piped_ok c \<and> drained c", OF drained_piped_step assms(2,3)] by simp
  then have "so_copier c s = Finished"
    using assms(4) by (cases s) (auto simp: piped_ok_def wg_ok_def running_copies_def split: if_splits)
  then have "so_account s c = so_output c s" "\<not> so_child c s"
    using ok by (simp_all add: so_account_def so_held_def drained_def)
  with run_account [OF assms(2,3), of s] show ?thesis
    by (simp add: so_account_def so_held_def stdio_pipes_def)
qed

theorem output_complete_witness:
  "\<exists>p' t w' c. createStdioPipes calm_process 0 0 (calm_world [] []) = (Ok (p', t), w') \<and>
    run_events stdio_step calm_run_events (stdio_pipes p' t (w_fds w')) = Some c \<and> so_output c Stdout = ''hi''"
proof -
  obtain p' t w' where make: "createStdioPipes calm_process 0 0 (calm_world [] []) = (Ok (p', t), w')"
    "stdio_pipes p' t (w_fds w') = stdio_pipes (calm_process\<lparr>p_Stdout := Some (PipeEnd 6), p_Stderr := Some (PipeEnd 8)\<rparr>)
       (no_tty\<lparr>tty_closers := [4, 5, 7], tty_postStart := [3, 6, 8]\<rparr>) [3, 4, 5, 6, 7, 8]"
    by (rule calm_pipes)
  with calm_pipes_run obtain c where c: "run_events stdio_step calm_run_events (stdio_pipes p' t (w_fds w')) = Some c"
    "so_stage c = TtyClosed" by (auto split: option.splits)
  have "list_all lossless calm_run_events" by (simp add: calm_run_events_def)
  from output_complete [OF make(1) c(1) this c(2), of Stdout] have "so_output c Stdout = ''hi''"
    by (simp add: calm_run_events_def)
  with make(1) c(1) show ?thesis by blast
qed



end
